(* ===== verification/Prelude.thy ===== *)
theory Prelude
  imports Main "HOL-Library.AList" "HOL-Library.Multiset"
begin

text \<open>
  Shared foundations: the collections of facts the component theories fill, the insertion
  ordered dictionary that stands for a JavaScript \<open>Map\<close> (and, with unit values, a \<open>Set\<close>),
  the outcome of an effectful program (success, typed failure, defect) with its sequencing
  operators, and the interface of an event driven machine with its run over a list of events.
\<close>

section \<open>Fact collections\<close>

named_theorems wire_simps "what serialising and parsing a value leaves of it"
named_theorems relay_frame "fields of the relay state an operation leaves alone"
named_theorems conn_frame "fields of the connection state an operation leaves alone"
named_theorems ext_frame "fields of the extension state an operation leaves alone"


section \<open>Insertion ordered dictionaries\<close>

text \<open>
  A JavaScript \<open>Map\<close> iterates in insertion order; \<open>set\<close> on a present key keeps its place,
  on a new key appends; \<open>delete\<close> removes. An association list under the library's
  \<open>AList.update\<close> and \<open>AList.delete\<close> behaves in the same way.
\<close>

type_synonym ('k, 'v) jmap = "('k \<times> 'v) list"

definition mapGet :: "('k, 'v) jmap \<Rightarrow> 'k \<Rightarrow> 'v option" where
  "mapGet m k = map_of m k"

definition mapHas :: "('k, 'v) jmap \<Rightarrow> 'k \<Rightarrow> bool" where
  "mapHas m k = (k \<in> set (map fst m))"

definition mapSet :: "('k, 'v) jmap \<Rightarrow> 'k \<Rightarrow> 'v \<Rightarrow> ('k, 'v) jmap" where
  "mapSet m k v = AList.update k v m"

definition mapDelete :: "('k, 'v) jmap \<Rightarrow> 'k \<Rightarrow> ('k, 'v) jmap" where
  "mapDelete m k = AList.delete k m"

definition mapKeys :: "('k, 'v) jmap \<Rightarrow> 'k list" where
  "mapKeys m = map fst m"

definition mapWf :: "('k, 'v) jmap \<Rightarrow> bool" where
  "mapWf m = distinct (map fst m)"

lemma mapGet_Nil [simp]: "mapGet [] k = None"
  by (simp add: mapGet_def)

lemma mapWf_Nil [simp]: "mapWf []"
  by (simp add: mapWf_def)

lemma mapGet_set [simp]: "mapGet (mapSet m k v) k' = (if k' = k then Some v else mapGet m k')"
  by (simp add: mapGet_def mapSet_def update_conv')

lemma mapGet_delete [simp]: "mapGet (mapDelete m k) k' = (if k' = k then None else mapGet m k')"
  by (auto simp: mapGet_def mapDelete_def delete_conv')

lemma mapHas_get: "mapHas m k \<longleftrightarrow> mapGet m k \<noteq> None"
  by (simp add: mapHas_def mapGet_def map_of_eq_None_iff)

lemma mapKeys_get: "k \<in> set (mapKeys m) \<longleftrightarrow> mapGet m k \<noteq> None"
  by (simp add: mapKeys_def mapGet_def map_of_eq_None_iff)

lemma mapWf_set [simp]: "mapWf m \<Longrightarrow> mapWf (mapSet m k v)"
  by (simp add: mapWf_def mapSet_def distinct_update)

lemma mapWf_delete [simp]: "mapWf m \<Longrightarrow> mapWf (mapDelete m k)"
  by (simp add: mapWf_def mapDelete_def distinct_delete)

lemma mapSet_new: "k \<notin> set (mapKeys m) \<Longrightarrow> mapSet m k v = m @ [(k, v)]"
  by (induction m) (auto simp: mapSet_def mapKeys_def)

lemma mapKeys_delete [simp]: "set (mapKeys (mapDelete m k)) = set (mapKeys m) - {k}"
  by (auto simp: mapKeys_def mapDelete_def AList.delete_eq)

lemma mapSet_twice [simp]: "mapSet (mapSet m k v) k v' = mapSet m k v'"
  by (induction m) (auto simp: mapSet_def)

lemma mapDelete_Nil [simp]: "mapDelete [] k = []"
  by (simp add: mapDelete_def)

lemma mapDelete_Cons [simp]:
  "mapDelete ((k', v) # m) k = (if k' = k then mapDelete m k else (k', v) # mapDelete m k)"
  by (auto simp: mapDelete_def)

lemma mapDelete_notin: "k \<notin> set (mapKeys m) \<Longrightarrow> mapDelete m k = m"
  by (induction m) (auto simp: mapKeys_def)

lemma mapGet_in: "mapWf m \<Longrightarrow> mapGet m k = Some v \<longleftrightarrow> (k, v) \<in> set m"
  by (simp add: mapGet_def mapWf_def)

lemma mapGet_SomeD: "mapGet m k = Some v \<Longrightarrow> (k, v) \<in> set m"
  by (simp add: mapGet_def map_of_SomeD)

lemma set_mapDelete: "set (mapDelete m k) = {p \<in> set m. fst p \<noteq> k}"
  by (auto simp: mapDelete_def AList.delete_eq)

lemma mset_mapDelete:
  "mapWf m \<Longrightarrow> mapGet m k = Some v \<Longrightarrow> mset m = add_mset (k, v) (mset (mapDelete m k))"
proof (induction m)
  case (Cons p m)
  then show ?case
    by (cases p) (auto simp: mapWf_def mapGet_def mapDelete_notin mapKeys_def split: if_splits)
qed (simp)

text \<open>
  The contract the components rely on, whatever dictionary is behind it. The relay's table of
  pending commands, the tab registry and the recorder's tables are all clients of it.
\<close>

locale keyed_store =
  fixes get :: "'m \<Rightarrow> 'k \<Rightarrow> 'v option"
    and put :: "'m \<Rightarrow> 'k \<Rightarrow> 'v \<Rightarrow> 'm"
    and del :: "'m \<Rightarrow> 'k \<Rightarrow> 'm"
    and keys :: "'m \<Rightarrow> 'k list"
    and wf :: "'m \<Rightarrow> bool"
  assumes get_put: "wf m \<Longrightarrow> get (put m k v) k' = (if k' = k then Some v else get m k')"
    and get_del: "wf m \<Longrightarrow> get (del m k) k' = (if k' = k then None else get m k')"
    and keys_get: "wf m \<Longrightarrow> k \<in> set (keys m) \<longleftrightarrow> get m k \<noteq> None"
    and wf_put: "wf m \<Longrightarrow> wf (put m k v)"
    and wf_del: "wf m \<Longrightarrow> wf (del m k)"
begin

lemma put_then_del: "wf m \<Longrightarrow> get m k = None \<Longrightarrow> get (del (put m k v) k) = get m"
  by (rule ext) (simp add: get_put get_del wf_put)

lemma del_absent: "wf m \<Longrightarrow> get m k = None \<Longrightarrow> get (del m k) = get m"
  by (rule ext) (simp add: get_del)

lemma del_all:
  assumes "wf m"
  shows "get (fold (\<lambda>k m. del m k) ks m) k' = (if k' \<in> set ks then None else get m k')"
  using assms
proof (induction ks arbitrary: m)
  case Nil
  then show ?case by simp
next
  case (Cons k ks)
  then show ?case by (auto simp: get_del wf_del)
qed

lemma keys_put: "wf m \<Longrightarrow> set (keys (put m k v)) = insert k (set (keys m))"
  by (auto simp: keys_get wf_put get_put split: if_splits)

lemma keys_del: "wf m \<Longrightarrow> set (keys (del m k)) = set (keys m) - {k}"
  by (auto simp: keys_get wf_del get_del split: if_splits)

end

interpretation jmap: keyed_store mapGet mapSet mapDelete mapKeys mapWf
  by unfold_locales (simp_all add: mapKeys_get)


section \<open>Outcomes of effectful programs\<close>

text \<open>
  A program of the \<open>effect\<close> library ends in a value, in a failure of its error channel, or in
  a defect (an exception thrown inside the generator). \<open>catchAll\<close> handles failures only.
\<close>

datatype ('e, 'a) exit = Success 'a | Failure 'e | Defect 'e

type_synonym ('s, 'e, 'a) eff = "'s \<Rightarrow> ('e, 'a) exit \<times> 's"

definition eff_succeed :: "'a \<Rightarrow> ('s, 'e, 'a) eff" where
  "eff_succeed a = (\<lambda>s. (Success a, s))"

definition eff_fail :: "'e \<Rightarrow> ('s, 'e, 'a) eff" where
  "eff_fail e = (\<lambda>s. (Failure e, s))"

definition eff_die :: "'e \<Rightarrow> ('s, 'e, 'a) eff" where
  "eff_die e = (\<lambda>s. (Defect e, s))"

definition eff_bind :: "('s, 'e, 'a) eff \<Rightarrow> ('a \<Rightarrow> ('s, 'e, 'b) eff) \<Rightarrow> ('s, 'e, 'b) eff" where
  "eff_bind m f = (\<lambda>s. case m s of
      (Success a, s') \<Rightarrow> f a s'
    | (Failure e, s') \<Rightarrow> (Failure e, s')
    | (Defect e, s') \<Rightarrow> (Defect e, s'))"

definition eff_then :: "('s, 'e, 'a) eff \<Rightarrow> ('s, 'e, 'b) eff \<Rightarrow> ('s, 'e, 'b) eff" where
  "eff_then m n = eff_bind m (\<lambda>_. n)"

definition eff_catch :: "('s, 'e, 'a) eff \<Rightarrow> ('e \<Rightarrow> ('s, 'e, 'a) eff) \<Rightarrow> ('s, 'e, 'a) eff" where
  "eff_catch m h = (\<lambda>s. case m s of
      (Success a, s') \<Rightarrow> (Success a, s')
    | (Failure e, s') \<Rightarrow> h e s'
    | (Defect e, s') \<Rightarrow> (Defect e, s'))"

definition eff_gets :: "('s \<Rightarrow> 'a) \<Rightarrow> ('s, 'e, 'a) eff" where
  "eff_gets f = (\<lambda>s. (Success (f s), s))"

definition eff_modify :: "('s \<Rightarrow> 's) \<Rightarrow> ('s, 'e, unit) eff" where
  "eff_modify f = (\<lambda>s. (Success (), f s))"

text \<open>
  An awaited call. The environment decides the answer, an error value or a result, and the state
  in which the program goes on: other fibers may have run while this one waited.
\<close>

definition eff_call :: "('s \<Rightarrow> ('e + 'a) \<times> 's) \<Rightarrow> ('s, 'e, 'a) eff" where
  "eff_call c = (\<lambda>s. case c s of (Inl e, s') \<Rightarrow> (Failure e, s') | (Inr a, s') \<Rightarrow> (Success a, s'))"

definition eff_mapError :: "('e \<Rightarrow> 'e) \<Rightarrow> ('s, 'e, 'a) eff \<Rightarrow> ('s, 'e, 'a) eff" where
  "eff_mapError f m = eff_catch m (\<lambda>e. eff_fail (f e))"

definition eff_map :: "('a \<Rightarrow> 'b) \<Rightarrow> ('s, 'e, 'a) eff \<Rightarrow> ('s, 'e, 'b) eff" where
  "eff_map f m = eff_bind m (\<lambda>a. eff_succeed (f a))"

text \<open>An answer already at hand: an error value or a result.\<close>

definition eff_try :: "'e + 'a \<Rightarrow> ('s, 'e, 'a) eff" where
  "eff_try r = (\<lambda>s. case r of Inl e \<Rightarrow> (Failure e, s) | Inr a \<Rightarrow> (Success a, s))"

lemma eff_run [simp]:
  "eff_succeed a s = (Success a, s)"
  "eff_fail e s = (Failure e, s)"
  "eff_die e s = (Defect e, s)"
  "eff_gets f s = (Success (f s), s)"
  "eff_modify g s = (Success (), g s)"
  by (simp_all add: eff_succeed_def eff_fail_def eff_die_def eff_gets_def eff_modify_def)

lemma eff_try_run [simp]:
  "eff_try (Inl e) s = (Failure e, s)"
  "eff_try (Inr a) s = (Success a, s)"
  by (simp_all add: eff_try_def)

lemma eff_call_run:
  "eff_call c s = (case c s of (Inl e, s') \<Rightarrow> (Failure e, s') | (Inr a, s') \<Rightarrow> (Success a, s'))"
  by (simp add: eff_call_def)

lemma eff_call_simps [simp]:
  "c s = (Inl e, s') \<Longrightarrow> eff_call c s = (Failure e, s')"
  "c s = (Inr a, s') \<Longrightarrow> eff_call c s = (Success a, s')"
  by (simp_all add: eff_call_def)

lemma eff_bind_run:
  "eff_bind m f s = (case m s of
      (Success a, s') \<Rightarrow> f a s'
    | (Failure e, s') \<Rightarrow> (Failure e, s')
    | (Defect e, s') \<Rightarrow> (Defect e, s'))"
  by (simp add: eff_bind_def)

lemma eff_bind_Success [simp]: "m s = (Success a, s') \<Longrightarrow> eff_bind m f s = f a s'"
  by (simp add: eff_bind_def)

lemma eff_bind_Failure [simp]: "m s = (Failure e, s') \<Longrightarrow> eff_bind m f s = (Failure e, s')"
  by (simp add: eff_bind_def)

lemma eff_bind_Defect [simp]: "m s = (Defect e, s') \<Longrightarrow> eff_bind m f s = (Defect e, s')"
  by (simp add: eff_bind_def)

lemma eff_catch_run:
  "eff_catch m h s = (case m s of
      (Success a, s') \<Rightarrow> (Success a, s')
    | (Failure e, s') \<Rightarrow> h e s'
    | (Defect e, s') \<Rightarrow> (Defect e, s'))"
  by (simp add: eff_catch_def)

lemma eff_catch_simps [simp]:
  "m s = (Success a, s') \<Longrightarrow> eff_catch m h s = (Success a, s')"
  "m s = (Failure e, s') \<Longrightarrow> eff_catch m h s = h e s'"
  "m s = (Defect e, s') \<Longrightarrow> eff_catch m h s = (Defect e, s')"
  by (simp_all add: eff_catch_def)

lemma eff_then_simps [simp]:
  "m s = (Success a, s') \<Longrightarrow> eff_then m n s = n s'"
  "m s = (Failure e, s') \<Longrightarrow> eff_then m n s = (Failure e, s')"
  "m s = (Defect e, s') \<Longrightarrow> eff_then m n s = (Defect e, s')"
  by (simp_all add: eff_then_def)

lemma eff_map_simps [simp]:
  "m s = (Success a, s') \<Longrightarrow> eff_map f m s = (Success (f a), s')"
  "m s = (Failure e, s') \<Longrightarrow> eff_map f m s = (Failure e, s')"
  "m s = (Defect e, s') \<Longrightarrow> eff_map f m s = (Defect e, s')"
  by (simp_all add: eff_map_def)

lemma eff_mapError_simps [simp]:
  "m s = (Success a, s') \<Longrightarrow> eff_mapError g m s = (Success a, s')"
  "m s = (Failure e, s') \<Longrightarrow> eff_mapError g m s = (Failure (g e), s')"
  "m s = (Defect e, s') \<Longrightarrow> eff_mapError g m s = (Defect e, s')"
  by (simp_all add: eff_mapError_def)

lemma eff_bind_assoc: "eff_bind (eff_bind m f) g = eff_bind m (\<lambda>a. eff_bind (f a) g)"
  by (rule ext) (simp add: eff_bind_def split: prod.split exit.split)

text \<open>A predicate on states that a program keeps, whatever its outcome.\<close>

definition keeps :: "('s \<Rightarrow> bool) \<Rightarrow> ('s, 'e, 'a) eff \<Rightarrow> bool" where
  "keeps P m \<longleftrightarrow> (\<forall>s. P s \<longrightarrow> P (snd (m s)))"

lemma keepsI: "(\<And>s. P s \<Longrightarrow> P (snd (m s))) \<Longrightarrow> keeps P m"
  by (simp add: keeps_def)

lemma keepsD: "keeps P m \<Longrightarrow> P s \<Longrightarrow> m s = (x, s') \<Longrightarrow> P s'"
  unfolding keeps_def by (metis snd_conv)

lemma keeps_basic [intro, simp]:
  "keeps P (eff_succeed a)" "keeps P (eff_fail e)" "keeps P (eff_die e)"
  "keeps P (eff_gets f)" "keeps P (eff_try r)"
  by (auto simp: keeps_def eff_try_def split: sum.split)

lemma keeps_bind [intro]: "keeps P m \<Longrightarrow> (\<And>a. keeps P (f a)) \<Longrightarrow> keeps P (eff_bind m f)"
  by (auto simp: keeps_def eff_bind_def split: prod.split exit.split)

lemma keeps_then [intro]: "keeps P m \<Longrightarrow> keeps P n \<Longrightarrow> keeps P (eff_then m n)"
  by (simp add: eff_then_def keeps_bind)

lemma keeps_catch [intro]: "keeps P m \<Longrightarrow> (\<And>e. keeps P (h e)) \<Longrightarrow> keeps P (eff_catch m h)"
  by (auto simp: keeps_def eff_catch_def split: prod.split exit.split)

lemma keeps_call: "(\<And>s. P s \<Longrightarrow> P (snd (c s))) \<Longrightarrow> keeps P (eff_call c)"
  by (auto simp: keeps_def eff_call_def split: prod.split sum.split) (metis snd_conv)+

lemma keeps_map [intro]: "keeps P m \<Longrightarrow> keeps P (eff_map f m)"
  by (simp add: eff_map_def keeps_bind)

lemma keeps_mapError [intro]: "keeps P m \<Longrightarrow> keeps P (eff_mapError f m)"
  by (simp add: eff_mapError_def keeps_catch)

lemma keeps_modify: "(\<And>s. P s \<Longrightarrow> P (f s)) \<Longrightarrow> keeps P (eff_modify f)"
  by (simp add: keeps_def)


section \<open>Event driven machines\<close>

text \<open>
  Every process of the program reacts to one event at a time and runs each handler to
  completion. \<open>run_events\<close> is such a run; the locale lifts an invariant of the single
  handlers to whole runs.
\<close>

definition run_events :: "('e \<Rightarrow> 's \<Rightarrow> 's) \<Rightarrow> 'e list \<Rightarrow> 's \<Rightarrow> 's" where
  "run_events step es s = fold step es s"

lemma run_events_simps [simp]:
  "run_events step [] s = s"
  "run_events step (e # es) s = run_events step es (step e s)"
  by (simp_all add: run_events_def)

lemma run_events_append: "run_events step (es @ fs) s = run_events step fs (run_events step es s)"
  by (simp add: run_events_def)

locale machine =
  fixes step :: "'e \<Rightarrow> 's \<Rightarrow> 's"
    and start :: "'s \<Rightarrow> bool"
    and inv :: "'s \<Rightarrow> bool"
  assumes inv_start: "start s \<Longrightarrow> inv s"
    and inv_step: "inv s \<Longrightarrow> inv (step e s)"
begin

lemma inv_run: "inv s \<Longrightarrow> inv (run_events step es s)"
  by (induction es arbitrary: s) (auto intro: inv_step)

lemma inv_reachable: "start s \<Longrightarrow> inv (run_events step es s)"
  by (intro inv_run inv_start)

end

end
