(* ===== verification/JsValue.thy ===== *)
theory JsValue
  imports Prelude Complex_Main
begin

text \<open>
  The fragment of the JavaScript language and of its standard library the program uses: numbers,
  strings, dynamically typed values with property access, conversion to strings and numbers, and
  JSON. Nothing here is code of the repository; the component theories are written over it.

  Strings are lists of characters; a character stands for one code unit. A finite number is
  identified with its shortest decimal (the one \<open>Number::toString\<close> prints), a rational; this
  identification is exact for the integers up to \<open>2 ^ 53\<close> and keeps the order of all numbers.
\<close>

section \<open>Numbers\<close>

datatype jsnum = NaN | NegInf | Fin rat | PosInf

text \<open>The comparison operators of the language: every comparison with \<open>NaN\<close> is false.\<close>

instantiation jsnum :: ord
begin

fun less_eq_jsnum :: "jsnum \<Rightarrow> jsnum \<Rightarrow> bool" where
  "less_eq_jsnum NaN _ = False"
| "less_eq_jsnum _ NaN = False"
| "less_eq_jsnum NegInf _ = True"
| "less_eq_jsnum _ PosInf = True"
| "less_eq_jsnum (Fin a) (Fin b) = (a \<le> b)"
| "less_eq_jsnum _ _ = False"

fun less_jsnum :: "jsnum \<Rightarrow> jsnum \<Rightarrow> bool" where
  "less_jsnum NaN _ = False"
| "less_jsnum _ NaN = False"
| "less_jsnum NegInf NegInf = False"
| "less_jsnum NegInf _ = True"
| "less_jsnum PosInf _ = False"
| "less_jsnum (Fin a) PosInf = True"
| "less_jsnum (Fin a) (Fin b) = (a < b)"
| "less_jsnum (Fin a) NegInf = False"

instance ..

end

definition num_of_nat :: "nat \<Rightarrow> jsnum" where
  "num_of_nat n = Fin (of_nat n)"

lemma num_of_nat_inject [simp]: "num_of_nat m = num_of_nat n \<longleftrightarrow> m = n"
  by (simp add: num_of_nat_def)

fun isFinite :: "jsnum \<Rightarrow> bool" where
  "isFinite (Fin r) = True"
| "isFinite _ = False"

fun isInteger :: "jsnum \<Rightarrow> bool" where
  "isInteger (Fin r) = (of_int \<lfloor>r\<rfloor> = r)"
| "isInteger _ = False"

fun js_floor :: "jsnum \<Rightarrow> jsnum" where
  "js_floor (Fin r) = Fin (of_int \<lfloor>r\<rfloor>)"
| "js_floor n = n"

text \<open>\<open>Math.min\<close> of two numbers: \<open>NaN\<close> wins.\<close>

definition js_min :: "jsnum \<Rightarrow> jsnum \<Rightarrow> jsnum" where
  "js_min a b = (if a = NaN \<or> b = NaN then NaN else if a \<le> b then a else b)"

text \<open>
  A counter kept in a number: \<open>n + 1\<close> is exact below \<open>2 ^ 53\<close>, and \<open>2 ^ 53 + 1\<close> rounds back to
  \<open>2 ^ 53\<close>, where the counter stays.
\<close>

definition js_inc :: "nat \<Rightarrow> nat" where
  "js_inc n = (if n < 2 ^ 53 then n + 1 else n)"

lemma js_inc_ge: "n \<le> js_inc n"
  by (simp add: js_inc_def)

lemma js_inc_less: "js_inc n < 2 ^ 53 \<Longrightarrow> js_inc n = Suc n"
  by (simp add: js_inc_def split: if_splits)


section \<open>Decimal text\<close>

definition digit_char :: "nat \<Rightarrow> char" where
  "digit_char d = ''0123456789'' ! (d mod 10)"

fun nat_text :: "nat \<Rightarrow> string" where
  "nat_text n = (if n < 10 then [digit_char n] else nat_text (n div 10) @ [digit_char (n mod 10)])"

declare nat_text.simps [simp del]

definition is_digit :: "char \<Rightarrow> bool" where
  "is_digit c = (48 \<le> (of_char c :: nat) \<and> (of_char c :: nat) \<le> 57)"

definition digits_val :: "string \<Rightarrow> nat" where
  "digits_val ds = fold (\<lambda>c n. 10 * n + (of_char c - 48)) ds 0"

lemma digit_char_props: "d < 10 \<Longrightarrow> is_digit (digit_char d) \<and> (of_char (digit_char d) :: nat) - 48 = d"
proof -
  assume "d < 10"
  then have "d \<in> {0, 1, 2, 3, 4, 5, 6, 7, 8, 9}" by auto
  then show ?thesis by (auto simp: digit_char_def is_digit_def)
qed

lemma nat_text_digits: "list_all is_digit (nat_text n)"
proof (induction n rule: nat_text.induct)
  case (1 n)
  then show ?case
    by (cases "n < 10") (auto simp: nat_text.simps [of n] digit_char_props)
qed

lemma nat_text_not_Nil [simp]: "nat_text n \<noteq> []"
  by (subst nat_text.simps) simp

lemma digits_val_text: "digits_val (nat_text n) = n"
proof (induction n rule: nat_text.induct)
  case (1 n)
  show ?case
  proof (cases "n < 10")
    case True
    then show ?thesis
      by (simp add: nat_text.simps [of n] digits_val_def digit_char_props)
  next
    case False
    with 1 have "digits_val (nat_text (n div 10)) = n div 10" by simp
    with False show ?thesis
      by (simp add: nat_text.simps [of n] digits_val_def digit_char_props)
  qed
qed

lemma nat_text_eval:
  "nat_text 0 = ''0''" "nat_text (Suc 0) = ''1''"
  "nat_text (numeral w) = (if (numeral w :: nat) < 10 then [digit_char (numeral w)]
     else nat_text (numeral w div 10) @ [digit_char (numeral w mod 10)])"
  by (simp_all add: nat_text.simps [of 0] nat_text.simps [of "Suc 0"] nat_text.simps [of "numeral w"]
      digit_char_def)

lemma nat_text_inject [simp]: "nat_text m = nat_text n \<longleftrightarrow> m = n"
  by (metis digits_val_text)

definition int_text :: "int \<Rightarrow> string" where
  "int_text i = (if i < 0 then CHR ''-'' # nat_text (nat (- i)) else nat_text (nat i))"

text \<open>
  \<open>Number::toString\<close> in base ten of a positive number: \<open>decimal_digits\<close> finds the digits \<open>s\<close>
  (no trailing zero) and the exponent \<open>n\<close> with value \<open>0.s * 10 ^ n\<close>. A number has at most
  seventeen digits and exponents between \<open>-324\<close> and \<open>309\<close>, so 400 steps of scaling are enough.
\<close>

fun scale_up :: "nat \<Rightarrow> rat \<Rightarrow> nat \<Rightarrow> nat \<times> nat" where
  "scale_up 0 r k = (nat \<lfloor>r\<rfloor>, k)"
| "scale_up (Suc fuel) r k = (if of_int \<lfloor>r\<rfloor> = r then (nat \<lfloor>r\<rfloor>, k) else scale_up fuel (10 * r) (Suc k))"

lemmas num_eval = nat_text_eval digit_char_def

definition strip_zeros :: "string \<Rightarrow> string" where
  "strip_zeros ds = rev (dropWhile (\<lambda>c. c = CHR ''0'') (rev ds))"

definition pos_rat_text :: "rat \<Rightarrow> string" where
  "pos_rat_text r = (
     let (m, shift) = scale_up 400 r 0;
         ds = nat_text m;
         n = int (length ds) - int shift;
         s = strip_zeros ds;
         k = int (length s)
     in if k \<le> n \<and> n \<le> 21 then s @ replicate (nat (n - k)) CHR ''0''
        else if 0 < n \<and> n \<le> 21 then take (nat n) s @ ''.'' @ drop (nat n) s
        else if -6 < n \<and> n \<le> 0 then ''0.'' @ replicate (nat (- n)) CHR ''0'' @ s
        else let e = n - 1; mant = (if k = 1 then s else take 1 s @ ''.'' @ drop 1 s)
             in mant @ ''e'' @ (if e < 0 then ''-'' else ''+'') @ nat_text (nat \<bar>e\<bar>))"

fun num_text :: "jsnum \<Rightarrow> string" where
  "num_text NaN = ''NaN''"
| "num_text PosInf = ''Infinity''"
| "num_text NegInf = ''-Infinity''"
| "num_text (Fin r) =
     (if of_int \<lfloor>r\<rfloor> = r \<and> \<bar>r\<bar> < 10 ^ 21 then int_text \<lfloor>r\<rfloor>
      else if r < 0 then CHR ''-'' # pos_rat_text (- r) else pos_rat_text r)"

lemma num_text_nat: "n < 10 ^ 21 \<Longrightarrow> num_text (num_of_nat n) = nat_text n"
proof -
  assume n: "n < 10 ^ 21"
  then have "(of_nat n :: rat) < of_nat (10 ^ 21)" by (simp only: of_nat_less_iff)
  then show ?thesis by (simp add: num_of_nat_def int_text_def)
qed


section \<open>Strings to numbers\<close>

definition is_space :: "char \<Rightarrow> bool" where
  "is_space c = ((of_char c :: nat) \<in> {9, 10, 11, 12, 13, 32, 160})"

definition trimStart :: "string \<Rightarrow> string" where
  "trimStart s = dropWhile is_space s"

definition trim :: "string \<Rightarrow> string" where
  "trim s = rev (dropWhile is_space (rev (trimStart s)))"

text \<open>A finite literal; values from halfway above the largest number on round to infinity.\<close>

definition round_num :: "rat \<Rightarrow> jsnum" where
  "round_num r = (if r \<ge> 2 ^ 1024 - 2 ^ 970 then PosInf else Fin r)"

definition unsigned_num :: "string \<Rightarrow> jsnum" where
  "unsigned_num s = (
     if s = ''Infinity'' then PosInf
     else let ip = takeWhile is_digit s; rest = dropWhile is_digit s;
              (fp, rest') = (case rest of
                  [] \<Rightarrow> ([], [])
                | c # u \<Rightarrow> if c = CHR ''.'' then (takeWhile is_digit u, dropWhile is_digit u)
                          else ([], rest));
              m = of_nat (digits_val (ip @ fp)) / 10 ^ length fp
          in if ip = [] \<and> fp = [] then NaN
             else case rest' of
                 [] \<Rightarrow> round_num m
               | c # u \<Rightarrow>
                   let neg = (case u of [] \<Rightarrow> False | d # _ \<Rightarrow> d = CHR ''-'');
                       ds = (case u of [] \<Rightarrow> []
                             | d # u' \<Rightarrow> if d = CHR ''-'' \<or> d = CHR ''+'' then u' else u)
                   in if (c = CHR ''e'' \<or> c = CHR ''E'') \<and> ds \<noteq> [] \<and> list_all is_digit ds
                      then if neg then round_num (m / 10 ^ digits_val ds)
                           else round_num (m * 10 ^ digits_val ds)
                      else NaN)"

definition radix_digit :: "char \<Rightarrow> nat option" where
  "radix_digit c = (let n = (of_char c :: nat) in
     if 48 \<le> n \<and> n \<le> 57 then Some (n - 48)
     else if 97 \<le> n \<and> n \<le> 102 then Some (n - 87)
     else if 65 \<le> n \<and> n \<le> 70 then Some (n - 55) else None)"

fun radix_val :: "nat \<Rightarrow> string \<Rightarrow> nat \<Rightarrow> nat option" where
  "radix_val b [] acc = Some acc"
| "radix_val b (c # cs) acc = (case radix_digit c of
      None \<Rightarrow> None
    | Some d \<Rightarrow> if d < b then radix_val b cs (b * acc + d) else None)"

definition radix_num :: "nat \<Rightarrow> string \<Rightarrow> jsnum" where
  "radix_num b s = (if s = [] then NaN else case radix_val b s 0 of None \<Rightarrow> NaN | Some n \<Rightarrow> round_num (of_nat n))"

fun num_neg :: "jsnum \<Rightarrow> jsnum" where
  "num_neg (Fin r) = Fin (- r)"
| "num_neg PosInf = NegInf"
| "num_neg NegInf = PosInf"
| "num_neg NaN = NaN"

text \<open>\<open>Number(s)\<close> on a string, and on an environment variable that may be undefined.\<close>

definition str_to_num :: "string \<Rightarrow> jsnum" where
  "str_to_num s0 = (let s = trim s0 in
     case s of
       [] \<Rightarrow> Fin 0
     | c # u \<Rightarrow>
         if c = CHR ''-'' then num_neg (unsigned_num u)
         else if c = CHR ''+'' then unsigned_num u
         else if take 2 s \<in> {''0x'', ''0X''} then radix_num 16 (drop 2 s)
         else if take 2 s \<in> {''0o'', ''0O''} then radix_num 8 (drop 2 s)
         else if take 2 s \<in> {''0b'', ''0B''} then radix_num 2 (drop 2 s)
         else unsigned_num s)"

definition js_Number :: "string option \<Rightarrow> jsnum" where
  "js_Number v = (case v of None \<Rightarrow> NaN | Some s \<Rightarrow> str_to_num s)"

text \<open>A natural number in decimal reads back as itself.\<close>

lemma digit_not_space: "is_digit c \<Longrightarrow> \<not> is_space c"
  by (auto simp: is_digit_def is_space_def)

lemma dropWhile_none: "list_all (\<lambda>c. \<not> P c) s \<Longrightarrow> dropWhile P s = s"
  by (cases s) auto

lemma trim_no_space: "list_all (\<lambda>c. \<not> is_space c) s \<Longrightarrow> trim s = s"
  by (simp add: trim_def trimStart_def dropWhile_none)

lemma trim_digits: "list_all is_digit s \<Longrightarrow> trim s = s"
  by (rule trim_no_space) (auto simp: list_all_iff digit_not_space)

lemma take_all_digits: "list_all is_digit s \<Longrightarrow> takeWhile is_digit s = s \<and> dropWhile is_digit s = []"
  by (auto simp: list_all_iff takeWhile_eq_all_conv dropWhile_eq_Nil_conv)

lemma unsigned_digits:
  assumes "s \<noteq> []" "list_all is_digit s" "digits_val s < 2 ^ 53"
  shows "unsigned_num s = num_of_nat (digits_val s)"
proof -
  have "s \<noteq> ''Infinity''" using assms(2) by (auto simp: is_digit_def)
  moreover have "(of_nat (digits_val s) :: rat) < of_nat (2 ^ 53)" using assms(3) by (simp only: of_nat_less_iff)
  then have "round_num (of_nat (digits_val s)) = num_of_nat (digits_val s)"
    by (simp add: round_num_def num_of_nat_def)
  ultimately show ?thesis
    using assms by (simp add: unsigned_num_def take_all_digits Let_def)
qed

lemma str_to_num_nat_text:
  assumes "n < 2 ^ 53"
  shows "str_to_num (nat_text n) = num_of_nat n"
proof -
  let ?s = "nat_text n"
  have d: "list_all is_digit ?s" and ne: "?s \<noteq> []" by (simp_all add: nat_text_digits)
  from ne obtain c u where s: "?s = c # u" by (cases ?s) auto
  from d s have c: "c \<noteq> CHR ''-''" "c \<noteq> CHR ''+''" by (auto simp: is_digit_def)
  have t: "take 2 ?s \<notin> {''0x'', ''0X'', ''0o'', ''0O'', ''0b'', ''0B''}"
    using d s by (cases u) (auto simp: is_digit_def)
  have "str_to_num ?s = unsigned_num ?s"
    using c t by (simp add: str_to_num_def trim_digits [OF d] Let_def) (simp add: s)
  with unsigned_digits [OF ne d] assms show ?thesis by (simp add: digits_val_text)
qed


section \<open>Values\<close>

datatype js =
    Undefined
  | Null
  | Bool bool
  | Num jsnum
  | Str string
  | Arr "js list"
  | Obj "(string \<times> js) list"

text \<open>\<open>v.k\<close> on an object, \<open>v?.k\<close> on anything: a missing property reads as \<open>Undefined\<close>.\<close>

definition js_get :: "js \<Rightarrow> string \<Rightarrow> js" where
  "js_get v k = (case v of
      Obj ps \<Rightarrow> (case map_of ps k of Some x \<Rightarrow> x | None \<Rightarrow> Undefined)
    | _ \<Rightarrow> Undefined)"

lemma js_get_simps [simp]:
  "js_get Undefined k = Undefined" "js_get Null k = Undefined" "js_get (Bool b) k = Undefined"
  "js_get (Num n) k = Undefined" "js_get (Str s) k = Undefined" "js_get (Arr xs) k = Undefined"
  "js_get (Obj []) k = Undefined"
  "js_get (Obj ((k', v) # ps)) k = (if k' = k then v else js_get (Obj ps) k)"
  by (simp_all add: js_get_def)

lemma js_get_notin: "k \<notin> fst ` set ps \<Longrightarrow> js_get (Obj ps) k = Undefined"
  by (simp add: js_get_def map_of_eq_None_iff [THEN iffD2])

lemma js_get_append:
  "js_get (Obj (ps @ qs)) k = (if k \<in> fst ` set ps then js_get (Obj ps) k else js_get (Obj qs) k)"
  by (induction ps) (force simp: image_iff)+

text \<open>The type tests \<open>typeof v === "string"\<close> and so on, with the tested value.\<close>

definition is_str :: "js \<Rightarrow> bool" where
  "is_str v = (case v of Str _ \<Rightarrow> True | _ \<Rightarrow> False)"

definition is_num :: "js \<Rightarrow> bool" where
  "is_num v = (case v of Num _ \<Rightarrow> True | _ \<Rightarrow> False)"

definition is_bool :: "js \<Rightarrow> bool" where
  "is_bool v = (case v of Bool _ \<Rightarrow> True | _ \<Rightarrow> False)"

text \<open>\<open>typeof v === "object" && v !== null\<close>: objects and arrays.\<close>

definition is_object :: "js \<Rightarrow> bool" where
  "is_object v = (case v of Obj _ \<Rightarrow> True | Arr _ \<Rightarrow> True | _ \<Rightarrow> False)"

definition the_str :: "js \<Rightarrow> string" where
  "the_str v = (case v of Str s \<Rightarrow> s | _ \<Rightarrow> [])"

definition the_num :: "js \<Rightarrow> jsnum" where
  "the_num v = (case v of Num n \<Rightarrow> n | _ \<Rightarrow> NaN)"

lemma js_tests [simp]:
  "is_str (Str s)" "\<not> is_str Undefined" "\<not> is_str Null" "\<not> is_str (Bool b)" "\<not> is_str (Num n)"
  "\<not> is_str (Arr xs)" "\<not> is_str (Obj ps)"
  "is_num (Num n)" "\<not> is_num Undefined" "\<not> is_num Null" "\<not> is_num (Bool b)" "\<not> is_num (Str s)"
  "\<not> is_num (Arr xs)" "\<not> is_num (Obj ps)"
  "is_bool (Bool b)" "\<not> is_bool Undefined" "\<not> is_bool Null" "\<not> is_bool (Num n)" "\<not> is_bool (Str s)"
  "\<not> is_bool (Arr xs)" "\<not> is_bool (Obj ps)"
  "is_object (Obj ps)" "is_object (Arr xs)" "\<not> is_object Undefined" "\<not> is_object Null"
  "\<not> is_object (Bool b)" "\<not> is_object (Num n)" "\<not> is_object (Str s)"
  "the_str (Str s) = s" "the_num (Num n) = n"
  by (simp_all add: is_str_def is_num_def is_bool_def is_object_def the_str_def the_num_def)

lemma is_strE: "is_str v \<Longrightarrow> (\<And>s. v = Str s \<Longrightarrow> P) \<Longrightarrow> P"
  by (cases v) auto

lemma is_numE: "is_num v \<Longrightarrow> (\<And>n. v = Num n \<Longrightarrow> P) \<Longrightarrow> P"
  by (cases v) auto

lemma is_str_the_str: "is_str v \<Longrightarrow> Str (the_str v) = v"
  by (cases v) auto

lemma is_num_the_num: "is_num v \<Longrightarrow> Num (the_num v) = v"
  by (cases v) auto

fun truthy :: "js \<Rightarrow> bool" where
  "truthy Undefined = False"
| "truthy Null = False"
| "truthy (Bool b) = b"
| "truthy (Num n) = (n \<noteq> NaN \<and> n \<noteq> Fin 0)"
| "truthy (Str s) = (s \<noteq> [])"
| "truthy (Arr xs) = True"
| "truthy (Obj ps) = True"

lemma truthy_object: "is_object v \<Longrightarrow> truthy v"
  by (cases v) auto

text \<open>\<open>a ?? b\<close>.\<close>

definition nullish :: "js \<Rightarrow> js \<Rightarrow> js" where
  "nullish a b = (if a = Undefined \<or> a = Null then b else a)"

lemma nullish_simps [simp]:
  "nullish Undefined b = b" "nullish Null b = b" "nullish (Str s) b = Str s"
  "nullish (Num n) b = Num n" "nullish (Bool c) b = Bool c" "nullish (Obj ps) b = Obj ps"
  "nullish (Arr xs) b = Arr xs"
  by (simp_all add: nullish_def)

text \<open>An optional property in an object literal: \<open>...(c ? { k: v } : {})\<close>.\<close>

definition opt_prop :: "string \<Rightarrow> js option \<Rightarrow> (string \<times> js) list" where
  "opt_prop k v = (case v of None \<Rightarrow> [] | Some x \<Rightarrow> [(k, x)])"

lemma opt_prop_simps [simp]: "opt_prop k None = []" "opt_prop k (Some x) = [(k, x)]"
  by (simp_all add: opt_prop_def)

text \<open>The own enumerable entries of an object (\<open>Object.entries\<close>, spread), arrays by index.\<close>

definition entries :: "js \<Rightarrow> (string \<times> js) list" where
  "entries v = (case v of
      Obj ps \<Rightarrow> ps
    | Arr xs \<Rightarrow> zip (map nat_text [0..<length xs]) xs
    | _ \<Rightarrow> [])"

lemma entries_simps [simp]: "entries (Obj ps) = ps" "entries Undefined = []" "entries Null = []"
  by (simp_all add: entries_def)

text \<open>\<open>{ ...a, ...b }\<close>.\<close>

definition spread :: "(string \<times> js) list \<Rightarrow> (string \<times> js) list \<Rightarrow> (string \<times> js) list" where
  "spread a b = fold (\<lambda>(k, v) acc. AList.update k v acc) b a"

lemma spread_Nil [simp]: "spread a [] = a"
  by (simp add: spread_def)

lemma js_get_spread: "js_get (Obj (spread a b)) k
  = (if k \<in> fst ` set b then js_get (Obj (rev b)) k else js_get (Obj a) k)"
proof (induction b arbitrary: a rule: rev_induct)
  case Nil
  then show ?case by simp
next
  case (snoc p b)
  obtain k' v where p: "p = (k', v)" by (cases p)
  have "js_get (Obj (AList.update k' v m)) k = (if k = k' then v else js_get (Obj m) k)" for m
    by (simp add: js_get_def update_conv')
  with snoc p show ?case by (auto simp: spread_def)
qed


section \<open>Conversion to strings\<close>

fun join :: "string \<Rightarrow> string list \<Rightarrow> string" where
  "join sep [] = []"
| "join sep [s] = s"
| "join sep (s # t # ts) = s @ sep @ join sep (t # ts)"

text \<open>\<open>String(v)\<close>; inside an array \<open>undefined\<close> and \<open>null\<close> print as nothing.\<close>

fun js_String :: "js \<Rightarrow> string" where
  "js_String Undefined = ''undefined''"
| "js_String Null = ''null''"
| "js_String (Bool b) = (if b then ''true'' else ''false'')"
| "js_String (Num n) = num_text n"
| "js_String (Str s) = s"
| "js_String (Arr xs) =
     join '','' (map (\<lambda>x. if x = Undefined \<or> x = Null then [] else js_String x) xs)"
| "js_String (Obj ps) = ''[object Object]''"


section \<open>JSON\<close>

definition hex_char :: "nat \<Rightarrow> char" where
  "hex_char d = ''0123456789abcdef'' ! (d mod 16)"

definition json_escape :: "char \<Rightarrow> string" where
  "json_escape c = (let n = (of_char c :: nat) in
     if n = 34 then [CHR 0x5C, CHR 0x22]
     else if n = 92 then [CHR 0x5C, CHR 0x5C]
     else if n = 8 then [CHR 0x5C, CHR ''b'']
     else if n = 12 then [CHR 0x5C, CHR ''f'']
     else if n = 10 then [CHR 0x5C, CHR ''n'']
     else if n = 13 then [CHR 0x5C, CHR ''r'']
     else if n = 9 then [CHR 0x5C, CHR ''t'']
     else if n < 32 then [CHR 0x5C, CHR ''u'', CHR ''0'', CHR ''0'', hex_char (n div 16), hex_char (n mod 16)]
     else [c])"

definition json_quote :: "string \<Rightarrow> string" where
  "json_quote s = [CHR 0x22] @ concat (map json_escape s) @ [CHR 0x22]"

text \<open>
  \<open>JSON.stringify(v)\<close> of a value other than \<open>undefined\<close>: properties that are \<open>undefined\<close> are left
  out, inside an array they print as \<open>null\<close>, and so do numbers that are not finite.
\<close>

fun stringify :: "js \<Rightarrow> string" where
  "stringify Undefined = ''null''"
| "stringify Null = ''null''"
| "stringify (Bool b) = (if b then ''true'' else ''false'')"
| "stringify (Num n) = (if isFinite n then num_text n else ''null'')"
| "stringify (Str s) = json_quote s"
| "stringify (Arr xs) = ''['' @ join '','' (map stringify xs) @ '']''"
| "stringify (Obj ps) =
     ''{'' @ join '','' (concat (map (\<lambda>(k, v). if v = Undefined then [] else [json_quote k @ '':'' @ stringify v]) ps))
     @ ''}''"

text \<open>What \<open>JSON.parse(JSON.stringify(v))\<close> gives back: the value as the other side sees it.\<close>

fun wire :: "js \<Rightarrow> js" where
  "wire Undefined = Null"
| "wire Null = Null"
| "wire (Bool b) = Bool b"
| "wire (Num n) = (if isFinite n then Num n else Null)"
| "wire (Str s) = Str s"
| "wire (Arr xs) = Arr (map wire xs)"
| "wire (Obj ps) = Obj (concat (map (\<lambda>(k, v). if v = Undefined then [] else [(k, wire v)]) ps))"

lemma wire_not_Undefined [simp]: "wire v \<noteq> Undefined"
  by (cases v) auto

lemma wire_Obj_Nil [wire_simps]: "wire (Obj []) = Obj []"
  by simp

lemma js_get_wire_Obj:
  "distinct (map fst ps) \<Longrightarrow> js_get (wire (Obj ps)) k
     = (if js_get (Obj ps) k = Undefined then Undefined else wire (js_get (Obj ps) k))"
proof (induction ps)
  case Nil
  then show ?case by simp
next
  case (Cons p ps)
  obtain k' v where p: "p = (k', v)" by (cases p)
  show ?case
  proof (cases "k' = k")
    case True
    with Cons.prems p have "k \<notin> fst ` set ps" by auto
    with True p Cons.prems Cons.IH js_get_notin [of k ps] show ?thesis
      by (auto split: if_splits)
  next
    case False
    with p Cons show ?thesis by auto
  qed
qed

lemma wire_idem: "wire (wire v) = wire v"
proof (induction v)
  case (Obj ps)
  then show ?case
    by (induction ps) (auto simp: snds.simps split: if_splits, blast+)
qed (auto)

text \<open>A value that came out of \<open>JSON.parse\<close>: no undefined part, finite numbers.\<close>

definition json_value :: "js \<Rightarrow> bool" where
  "json_value v \<longleftrightarrow> wire v = v"

lemma wire_json_value: "json_value v \<Longrightarrow> wire v = v"
  by (simp add: json_value_def)

lemma json_value_wire [simp]: "json_value (wire v)"
  by (simp add: json_value_def wire_idem)

text \<open>A value no part of which is undefined, as every value \<open>JSON.parse\<close> makes.\<close>

fun json_parsed :: "js \<Rightarrow> bool" where
  "json_parsed Undefined = False"
| "json_parsed (Arr xs) = (\<forall>x \<in> set xs. json_parsed x)"
| "json_parsed (Obj ps) = (\<forall>(k, v) \<in> set ps. json_parsed v)"
| "json_parsed v = True"

lemma json_parsed_get: "json_parsed v \<Longrightarrow> js_get v k \<noteq> Undefined \<Longrightarrow> json_parsed (js_get v k)"
  by (cases v) (auto simp: js_get_def split: option.splits dest!: map_of_SomeD)

lemma js_get_wire_parsed:
  "json_parsed (Obj ps) \<Longrightarrow> js_get (wire (Obj ps)) k
     = (if js_get (Obj ps) k = Undefined then Undefined else wire (js_get (Obj ps) k))"
proof (induction ps)
  case (Cons p ps)
  obtain k' v where p: "p = (k', v)" by (cases p)
  with Cons have "v \<noteq> Undefined" by auto
  with Cons p show ?case by auto
qed simp

lemma json_parsed_wire [simp]: "json_parsed (wire v)"
proof (induction v)
  case (Obj ps)
  then show ?case by (force simp: snds.simps split: if_splits)
qed auto

text \<open>
  The text of a value holds no control character, so no line break: the framing of the event
  stream and of the line oriented log file depends on it.
\<close>

definition printable :: "string \<Rightarrow> bool" where
  "printable s = list_all (\<lambda>c. 32 \<le> (of_char c :: nat)) s"

lemma printable_append [simp]: "printable (s @ t) \<longleftrightarrow> printable s \<and> printable t"
  by (simp add: printable_def)

lemma printable_simps [simp]: "printable []" "printable (c # s) \<longleftrightarrow> 32 \<le> (of_char c :: nat) \<and> printable s"
  by (simp_all add: printable_def)

lemma printable_join: "printable sep \<Longrightarrow> list_all printable ss \<Longrightarrow> printable (join sep ss)"
  by (induction sep ss rule: join.induct) auto

lemma printable_hex: "32 \<le> (of_char (hex_char d) :: nat)"
proof -
  have "hex_char d \<in> set ''0123456789abcdef''"
    unfolding hex_char_def by (rule nth_mem) simp
  moreover have "\<forall>c \<in> set ''0123456789abcdef''. 32 \<le> (of_char c :: nat)"
    by simp
  ultimately show ?thesis by blast
qed

lemma printable_escape: "printable (json_escape c)"
  by (auto simp: json_escape_def Let_def intro!: printable_hex)

lemma printable_quote: "printable (json_quote s)"
proof -
  have "printable (concat (map json_escape s))"
    by (induction s) (auto simp: printable_escape)
  then show ?thesis by (simp add: json_quote_def)
qed

lemma printable_digits: "list_all is_digit s \<Longrightarrow> printable s"
  by (induction s) (auto simp: is_digit_def)

lemma printable_nat_text: "printable (nat_text n)"
  by (rule printable_digits) (rule nat_text_digits)

lemma printable_take: "printable s \<Longrightarrow> printable (take n s)"
  by (auto simp: printable_def list_all_iff dest: in_set_takeD)

lemma printable_drop: "printable s \<Longrightarrow> printable (drop n s)"
  by (auto simp: printable_def list_all_iff dest: in_set_dropD)

lemma printable_strip: "printable s \<Longrightarrow> printable (strip_zeros s)"
  by (auto simp: printable_def strip_zeros_def list_all_iff dest: set_dropWhileD)

lemma printable_replicate: "printable (replicate n CHR ''0'')"
  by (induction n) auto

lemma printable_pos_rat: "printable (pos_rat_text r)"
  by (auto simp: pos_rat_text_def Let_def split: prod.split
      intro!: printable_take printable_drop printable_strip printable_nat_text printable_replicate)

lemma printable_num: "printable (num_text n)"
  by (cases n) (auto simp: printable_pos_rat int_text_def printable_nat_text)

lemma printable_stringify: "printable (stringify v)"
proof (induction v)
  case (Arr xs)
  then show ?case by (auto intro!: printable_join simp: list_all_iff)
next
  case (Obj ps)
  have "printable x" if "x \<in> set (concat (map (\<lambda>(k, v). if v = Undefined then [] else [json_quote k @ '':'' @ stringify v]) ps))" for x
    using that Obj by (fastforce simp: printable_quote snds.simps split: if_splits)
  then show ?case by (auto intro!: printable_join simp: list_all_iff)
qed (auto simp: printable_quote printable_num)


section \<open>Thrown values\<close>

text \<open>
  What a \<open>catch\<close> clause receives: a plain value or an \<open>Error\<close>, whose properties (its message
  first) are read like those of an object. The message of an \<open>Error\<close> is a string.
\<close>

datatype thrown = Thrown js | Exn string "(string \<times> js) list"

definition thrown_view :: "thrown \<Rightarrow> js" where
  "thrown_view t = (case t of Thrown v \<Rightarrow> v | Exn m ps \<Rightarrow> Obj ((''message'', Str m) # ps))"

text \<open>\<open>new Error(m)\<close>.\<close>

definition newError :: "string \<Rightarrow> thrown" where
  "newError m = Exn m []"


section \<open>Sockets\<close>

text \<open>Ready states of a WebSocket, in the order of their numeric codes.\<close>

datatype ready_state = CONNECTING | OPEN | CLOSING | CLOSED

fun ready_code :: "ready_state \<Rightarrow> nat" where
  "ready_code CONNECTING = 0"
| "ready_code OPEN = 1"
| "ready_code CLOSING = 2"
| "ready_code CLOSED = 3"

end
