(* ===== verification/RelayProtocol.thy ===== *)
theory RelayProtocol
  imports JsValue
begin

text \<open>
  The protocol module of the extension, \<open>extension/services/RelayProtocol.ts\<close>: the error
  records, the guards that decide whether a parsed value is one of the protocol's messages, and
  the conversion of anything thrown into an error record and an error response.
\<close>

section \<open>Error records\<close>

text \<open>\<open>ExtensionErrorInfo\<close>: the optional properties are options; \<open>details\<close> is any object.\<close>

record error_info =
  ei_code :: string
  ei_message :: string
  ei_details :: "js option"
  ei_cause :: "string option"

definition isRecord :: "js \<Rightarrow> bool" where
  "isRecord v = is_object v"

definition isExtensionErrorInfo :: "js \<Rightarrow> bool" where
  "isExtensionErrorInfo v = (
     if \<not> isRecord v then False
     else if \<not> is_str (js_get v ''code'') then False
     else if \<not> is_str (js_get v ''message'') then False
     else if js_get v ''details'' \<noteq> Undefined \<and> \<not> isRecord (js_get v ''details'') then False
     else if js_get v ''cause'' \<noteq> Undefined \<and> \<not> is_str (js_get v ''cause'') then False
     else True)"

text \<open>A value that passed the guard, read as the record, and a record as the object it is.\<close>

definition error_info_of_js :: "js \<Rightarrow> error_info" where
  "error_info_of_js v = \<lparr>
     ei_code = the_str (js_get v ''code''),
     ei_message = the_str (js_get v ''message''),
     ei_details = (if js_get v ''details'' = Undefined then None else Some (js_get v ''details'')),
     ei_cause = (if js_get v ''cause'' = Undefined then None else Some (the_str (js_get v ''cause'')))\<rparr>"

definition error_info_js :: "error_info \<Rightarrow> js" where
  "error_info_js e = Obj (
     [(''code'', Str (ei_code e)), (''message'', Str (ei_message e))]
     @ opt_prop ''details'' (ei_details e)
     @ opt_prop ''cause'' (map_option Str (ei_cause e)))"

definition error_info_ok :: "error_info \<Rightarrow> bool" where
  "error_info_ok e \<longleftrightarrow> (case ei_details e of None \<Rightarrow> True | Some d \<Rightarrow> isRecord d)"

lemma isRecord_simps [simp]:
  "isRecord (Obj ps)" "isRecord (Arr xs)" "\<not> isRecord Undefined" "\<not> isRecord Null"
  "\<not> isRecord (Bool b)" "\<not> isRecord (Num n)" "\<not> isRecord (Str s)"
  by (simp_all add: isRecord_def)

lemma js_get_error_info [simp]:
  "js_get (error_info_js e) ''code'' = Str (ei_code e)"
  "js_get (error_info_js e) ''message'' = Str (ei_message e)"
  "js_get (error_info_js e) ''details'' = (case ei_details e of None \<Rightarrow> Undefined | Some d \<Rightarrow> d)"
  "js_get (error_info_js e) ''cause'' = (case ei_cause e of None \<Rightarrow> Undefined | Some s \<Rightarrow> Str s)"
  by (cases "ei_details e"; cases "ei_cause e"; simp add: error_info_js_def)+

lemma isRecord_error_info_js [simp]: "isRecord (error_info_js e)"
  by (simp add: error_info_js_def)

lemma isExtensionErrorInfo_js: "error_info_ok e \<Longrightarrow> isExtensionErrorInfo (error_info_js e)"
  by (auto simp: isExtensionErrorInfo_def error_info_ok_def split: option.split)

lemma error_info_roundtrip: "error_info_ok e \<Longrightarrow> error_info_of_js (error_info_js e) = e"
  by (auto simp: error_info_of_js_def error_info_ok_def split: option.split)

lemma error_info_of_js_ok: "isExtensionErrorInfo v \<Longrightarrow> error_info_ok (error_info_of_js v)"
  by (auto simp: isExtensionErrorInfo_def error_info_ok_def error_info_of_js_def split: if_splits)


section \<open>Errors thrown by the code\<close>

definition isExtensionErrorInfo_thrown :: "thrown \<Rightarrow> bool" where
  "isExtensionErrorInfo_thrown t = isExtensionErrorInfo (thrown_view t)"

text \<open>\<open>errorToMessage\<close>: an error record's message, an \<open>Error\<close>'s message, otherwise \<open>String(error)\<close>.\<close>

definition errorToMessage :: "thrown \<Rightarrow> string" where
  "errorToMessage t = (
     if isExtensionErrorInfo_thrown t then the_str (js_get (thrown_view t) ''message'')
     else case t of Exn m ps \<Rightarrow> m | Thrown v \<Rightarrow> js_String v)"

definition createExtensionErrorInfo ::
  "string \<Rightarrow> string \<Rightarrow> js option \<Rightarrow> thrown option \<Rightarrow> error_info" where
  "createExtensionErrorInfo c msg details cause0 = (
     let cause = map_option errorToMessage
           (case cause0 of None \<Rightarrow> None | Some t \<Rightarrow> if t = Thrown Undefined then None else Some t)
     in \<lparr>ei_code = c,
         ei_message = msg,
         ei_details = details,
         ei_cause = (case cause of None \<Rightarrow> None | Some s \<Rightarrow> if s = [] then None else Some s)\<rparr>)"

lemma createExtensionErrorInfo_simps [simp]:
  "ei_code (createExtensionErrorInfo c m d t) = c"
  "ei_message (createExtensionErrorInfo c m d t) = m"
  "ei_details (createExtensionErrorInfo c m d t) = d"
  "ei_cause (createExtensionErrorInfo c m d None) = None"
  by (simp_all add: createExtensionErrorInfo_def Let_def)

lemma createExtensionErrorInfo_ok:
  "error_info_ok (createExtensionErrorInfo c m d t) \<longleftrightarrow> (case d of None \<Rightarrow> True | Some v \<Rightarrow> isRecord v)"
  by (simp add: error_info_ok_def)

text \<open>A thrown error record.\<close>

definition throw_info :: "error_info \<Rightarrow> thrown" where
  "throw_info e = Thrown (error_info_js e)"

lemma thrown_view_simps [simp]:
  "thrown_view (Thrown v) = v"
  "thrown_view (Exn m ps) = Obj ((''message'', Str m) # ps)"
  "thrown_view (throw_info e) = error_info_js e"
  by (simp_all add: thrown_view_def throw_info_def)

lemma errorToMessage_Error: "errorToMessage (Exn m ps) = m"
  by (simp add: errorToMessage_def)

lemma errorToMessage_info: "error_info_ok e \<Longrightarrow> errorToMessage (throw_info e) = ei_message e"
  by (simp add: errorToMessage_def isExtensionErrorInfo_thrown_def isExtensionErrorInfo_js)


section \<open>Normalising an error for the wire\<close>

record error_fallback =
  fb_code :: "string option"
  fb_message :: "string option"
  fb_details :: "js option"

definition no_fallback :: error_fallback where
  "no_fallback = \<lparr>fb_code = None, fb_message = None, fb_details = None\<rparr>"

text \<open>
  \<open>toExtensionErrorInfo\<close>: an error record keeps its code, message, details and cause, each
  overridden by the fallback where it has one (the details are merged); anything else becomes an
  \<open>UNEXPECTED_ERROR\<close> with itself as the cause.
\<close>

definition toExtensionErrorInfo :: "thrown \<Rightarrow> error_fallback \<Rightarrow> error_info" where
  "toExtensionErrorInfo t fb = (
     if isExtensionErrorInfo_thrown t then
       let e = error_info_of_js (thrown_view t) in
       \<lparr>ei_code = (case fb_code fb of Some c \<Rightarrow> c | None \<Rightarrow> ei_code e),
        ei_message = (case fb_message fb of Some m \<Rightarrow> m | None \<Rightarrow> ei_message e),
        ei_details =
          (if ei_details e \<noteq> None \<or> fb_details fb \<noteq> None then
             Some (Obj (spread
               (spread [] (case ei_details e of None \<Rightarrow> [] | Some d \<Rightarrow> entries d))
               (case fb_details fb of None \<Rightarrow> [] | Some d \<Rightarrow> entries d)))
           else None),
        ei_cause = (case ei_cause e of None \<Rightarrow> None | Some s \<Rightarrow> if s = [] then None else Some s)\<rparr>
     else
       createExtensionErrorInfo
         (case fb_code fb of Some c \<Rightarrow> c | None \<Rightarrow> ''UNEXPECTED_ERROR'')
         (case fb_message fb of Some m \<Rightarrow> m | None \<Rightarrow> errorToMessage t)
         (fb_details fb) (Some t))"

definition toExtensionErrorResponse :: "js \<Rightarrow> thrown \<Rightarrow> error_fallback \<Rightarrow> js" where
  "toExtensionErrorResponse i t fb = (
     let errorInfo = toExtensionErrorInfo t fb in
     Obj [(''id'', i), (''error'', Str (ei_message errorInfo)), (''errorInfo'', error_info_js errorInfo)])"

lemma toExtensionErrorInfo_code:
  "ei_code (toExtensionErrorInfo t fb) = (case fb_code fb of Some c \<Rightarrow> c | None \<Rightarrow>
     if isExtensionErrorInfo_thrown t then the_str (js_get (thrown_view t) ''code'') else ''UNEXPECTED_ERROR'')"
  by (auto simp: toExtensionErrorInfo_def Let_def error_info_of_js_def split: option.split)

lemma toExtensionErrorInfo_message:
  "ei_message (toExtensionErrorInfo t fb) = (case fb_message fb of Some m \<Rightarrow> m | None \<Rightarrow> errorToMessage t)"
  by (auto simp: toExtensionErrorInfo_def Let_def error_info_of_js_def errorToMessage_def split: option.split)

lemma toExtensionErrorInfo_ok:
  "(case fb_details fb of None \<Rightarrow> True | Some d \<Rightarrow> isRecord d) \<Longrightarrow> error_info_ok (toExtensionErrorInfo t fb)"
  by (auto simp: toExtensionErrorInfo_def Let_def error_info_ok_def split: option.split)


section \<open>Guards on inbound messages\<close>

definition isExtensionCommandMessage :: "js \<Rightarrow> bool" where
  "isExtensionCommandMessage v = (
     if \<not> isRecord v then False
     else if \<not> is_num (js_get v ''id'') then False
     else if js_get v ''method'' \<noteq> Str ''cdp'' \<and> js_get v ''method'' \<noteq> Str ''tab'' then False
     else let params = js_get v ''params'' in
       if \<not> isRecord params then False
       else if \<not> is_str (js_get params ''method'') then False
       else if js_get params ''params'' \<noteq> Undefined \<and> \<not> isRecord (js_get params ''params'') then False
       else if js_get params ''targetId'' \<noteq> Undefined \<and> \<not> is_str (js_get params ''targetId'') then False
       else True)"

text \<open>The fields of an accepted command, as the handlers read them.\<close>

record ext_command =
  cmd_id :: js
  cmd_method :: string
  cmd_params_method :: string
  cmd_params_params :: js
  cmd_params_targetId :: "string option"

definition command_of_js :: "js \<Rightarrow> ext_command" where
  "command_of_js v = (let params = js_get v ''params'' in
     \<lparr>cmd_id = js_get v ''id'',
      cmd_method = the_str (js_get v ''method''),
      cmd_params_method = the_str (js_get params ''method''),
      cmd_params_params = js_get params ''params'',
      cmd_params_targetId =
        (if js_get params ''targetId'' = Undefined then None else Some (the_str (js_get params ''targetId'')))\<rparr>)"

lemma isExtensionCommandMessage_iff:
  "isExtensionCommandMessage v \<longleftrightarrow>
     isRecord v \<and> is_num (js_get v ''id'') \<and> js_get v ''method'' \<in> {Str ''cdp'', Str ''tab''}
     \<and> isRecord (js_get v ''params'') \<and> is_str (js_get (js_get v ''params'') ''method'')
     \<and> (js_get (js_get v ''params'') ''params'' = Undefined \<or> isRecord (js_get (js_get v ''params'') ''params''))
     \<and> (js_get (js_get v ''params'') ''targetId'' = Undefined \<or> is_str (js_get (js_get v ''params'') ''targetId''))"
  by (auto simp: isExtensionCommandMessage_def Let_def)

lemma command_of_js_method:
  "isExtensionCommandMessage v \<Longrightarrow> cmd_method (command_of_js v) \<in> {''cdp'', ''tab''}"
  by (auto simp: isExtensionCommandMessage_iff command_of_js_def Let_def)

end
