(* ===== verification/RelayWire.thy ===== *)
theory RelayWire
  imports RelayProtocol
begin

text \<open>
  The stateless part of the relay, \<open>skill/scripts/relay.ts\<close>: its copies of the protocol's
  guards and error helpers (shown to agree with the extension's), the guards only the relay has,
  the table from error codes to HTTP statuses, and the configuration read from the environment.
\<close>

section \<open>Error helpers\<close>

definition relay_isRecord :: "js \<Rightarrow> bool" where
  "relay_isRecord v = is_object v"

definition relay_isExtensionErrorInfo :: "js \<Rightarrow> bool" where
  "relay_isExtensionErrorInfo v = (
     if \<not> relay_isRecord v then False
     else if \<not> is_str (js_get v ''code'') then False
     else if \<not> is_str (js_get v ''message'') then False
     else if js_get v ''details'' \<noteq> Undefined \<and> \<not> relay_isRecord (js_get v ''details'') then False
     else if js_get v ''cause'' \<noteq> Undefined \<and> \<not> is_str (js_get v ''cause'') then False
     else True)"

lemma relay_isRecord_eq [simp]: "relay_isRecord = isRecord"
  by (rule ext) (simp add: relay_isRecord_def isRecord_def)

lemma relay_isExtensionErrorInfo_eq [simp]: "relay_isExtensionErrorInfo = isExtensionErrorInfo"
  by (rule ext) (simp add: relay_isExtensionErrorInfo_def isExtensionErrorInfo_def)

definition relay_errorToMessage :: "thrown \<Rightarrow> string" where
  "relay_errorToMessage t = (
     if relay_isExtensionErrorInfo (thrown_view t) then the_str (js_get (thrown_view t) ''message'')
     else case t of Exn m ps \<Rightarrow> m | Thrown v \<Rightarrow> js_String v)"

definition makeErrorInfo :: "string \<Rightarrow> string \<Rightarrow> js option \<Rightarrow> thrown option \<Rightarrow> error_info" where
  "makeErrorInfo c msg details cause0 = (
     let cause = map_option relay_errorToMessage
           (case cause0 of None \<Rightarrow> None | Some t \<Rightarrow> if t = Thrown Undefined then None else Some t)
     in \<lparr>ei_code = c,
         ei_message = msg,
         ei_details = details,
         ei_cause = (case cause of None \<Rightarrow> None | Some s \<Rightarrow> if s = [] then None else Some s)\<rparr>)"

lemma relay_errorToMessage_eq [simp]: "relay_errorToMessage = errorToMessage"
  by (rule ext) (simp add: relay_errorToMessage_def errorToMessage_def isExtensionErrorInfo_thrown_def)

lemma makeErrorInfo_eq: "makeErrorInfo = createExtensionErrorInfo"
  by (intro ext) (simp add: makeErrorInfo_def createExtensionErrorInfo_def)

lemma makeErrorInfo_simps [simp]:
  "ei_code (makeErrorInfo c m d t) = c"
  "ei_message (makeErrorInfo c m d t) = m"
  "ei_details (makeErrorInfo c m d t) = d"
  "ei_cause (makeErrorInfo c m d None) = None"
  by (simp_all add: makeErrorInfo_eq)

definition formatErrorInfo :: "error_info \<Rightarrow> string" where
  "formatErrorInfo e = join '' | '' (
     [ei_code e @ '': '' @ ei_message e]
     @ (case ei_details e of None \<Rightarrow> []
        | Some d \<Rightarrow> if entries d \<noteq> [] then [''details='' @ stringify d] else [])
     @ (case ei_cause e of None \<Rightarrow> [] | Some s \<Rightarrow> if s \<noteq> [] then [''cause='' @ s] else []))"

text \<open>
  A response is the parsed object itself. Its error record is \<open>errorInfo\<close> when present, or one
  made from a bare \<open>error\<close> string.
\<close>

definition getResponseErrorInfo :: "js \<Rightarrow> error_info option" where
  "getResponseErrorInfo msg = (
     if truthy (js_get msg ''errorInfo'') then Some (error_info_of_js (js_get msg ''errorInfo''))
     else if \<not> is_str (js_get msg ''error'') then None
     else Some (makeErrorInfo ''UNSTRUCTURED_EXTENSION_ERROR'' (the_str (js_get msg ''error'')) None None))"

definition makeErrorResponse :: "jsnum \<Rightarrow> error_info \<Rightarrow> js" where
  "makeErrorResponse i e =
     Obj [(''id'', Num i), (''error'', Str (ei_message e)), (''errorInfo'', error_info_js e)]"

definition errorInfoToJson :: "error_info \<Rightarrow> js" where
  "errorInfoToJson e = Obj (
     [(''code'', Str (ei_code e)), (''message'', Str (ei_message e))]
     @ opt_prop ''details'' (ei_details e)
     @ opt_prop ''cause'' (case ei_cause e of None \<Rightarrow> None | Some s \<Rightarrow> if s = [] then None else Some (Str s)))"

lemma truthy_error_info_js [simp]: "truthy (error_info_js e)"
  by (simp add: error_info_js_def)

lemma makeErrorResponse_get [simp]:
  "js_get (makeErrorResponse i e) ''id'' = Num i"
  "js_get (makeErrorResponse i e) ''error'' = Str (ei_message e)"
  "js_get (makeErrorResponse i e) ''errorInfo'' = error_info_js e"
  "js_get (makeErrorResponse i e) ''result'' = Undefined"
  by (simp_all add: makeErrorResponse_def)

lemma getResponseErrorInfo_make:
  "error_info_ok e \<Longrightarrow> getResponseErrorInfo (makeErrorResponse i e) = Some e"
  by (simp add: getResponseErrorInfo_def error_info_roundtrip)


section \<open>Parsing\<close>

text \<open>
  \<open>JSON.parse\<close> is a parameter of the model: the text of the \<open>SyntaxError\<close> it throws is the
  engine's own. Its result is the error thrown or the value.
\<close>

type_synonym json_parser = "string \<Rightarrow> thrown + js"

definition parseJsonText ::
  "json_parser \<Rightarrow> string \<Rightarrow> string \<Rightarrow> string \<Rightarrow> js option \<Rightarrow> error_info + js" where
  "parseJsonText parse text c msg details = (case parse text of
      Inr v \<Rightarrow> Inr v
    | Inl err \<Rightarrow> Inl (makeErrorInfo c msg
        (Some (Obj (spread (case details of None \<Rightarrow> [] | Some d \<Rightarrow> entries d)
                 [(''textLength'', Num (num_of_nat (length text)))])))
        (Some err)))"


section \<open>Guards\<close>

definition isExtensionMethod :: "js \<Rightarrow> bool" where
  "isExtensionMethod v \<longleftrightarrow> v = Str ''cdp'' \<or> v = Str ''tab''"

definition relay_isExtensionCommandMessage :: "js \<Rightarrow> bool" where
  "relay_isExtensionCommandMessage v = (
     if \<not> relay_isRecord v then False
     else if \<not> is_num (js_get v ''id'') then False
     else if \<not> isExtensionMethod (js_get v ''method'') then False
     else let params = js_get v ''params'' in
       if \<not> relay_isRecord params then False
       else if \<not> is_str (js_get params ''method'') then False
       else if js_get params ''params'' \<noteq> Undefined \<and> \<not> relay_isRecord (js_get params ''params'') then False
       else if js_get params ''targetId'' \<noteq> Undefined \<and> \<not> is_str (js_get params ''targetId'') then False
       else True)"

lemma relay_isExtensionCommandMessage_eq [simp]:
  "relay_isExtensionCommandMessage = isExtensionCommandMessage"
  by (rule ext)
     (auto simp: relay_isExtensionCommandMessage_def isExtensionCommandMessage_def isExtensionMethod_def)

definition isExtensionResponseMessage :: "js \<Rightarrow> bool" where
  "isExtensionResponseMessage v = (
     if \<not> relay_isRecord v then False
     else if \<not> is_num (js_get v ''id'') then False
     else if js_get v ''error'' \<noteq> Undefined \<and> \<not> is_str (js_get v ''error'') then False
     else if js_get v ''errorInfo'' \<noteq> Undefined
             \<and> \<not> relay_isExtensionErrorInfo (js_get v ''errorInfo'') then False
     else True)"

definition isExtensionEventMessage :: "js \<Rightarrow> bool" where
  "isExtensionEventMessage v = (
     if \<not> relay_isRecord v then False
     else if js_get v ''method'' \<noteq> Str ''forwardCDPEvent'' then False
     else let params = js_get v ''params'' in
       if \<not> relay_isRecord params then False
       else if \<not> is_str (js_get params ''method'') then False
       else if js_get params ''params'' \<noteq> Undefined \<and> \<not> relay_isRecord (js_get params ''params'') then False
       else if js_get params ''targetId'' \<noteq> Undefined \<and> \<not> is_str (js_get params ''targetId'') then False
       else True)"

definition isExtensionLogMessage :: "js \<Rightarrow> bool" where
  "isExtensionLogMessage v = (
     if \<not> relay_isRecord v then False
     else if js_get v ''method'' \<noteq> Str ''log'' then False
     else let params = js_get v ''params'' in
       if \<not> relay_isRecord params then False
       else if \<not> is_str (js_get params ''level'') then False
       else (case js_get params ''args'' of Arr args \<Rightarrow> list_all is_str args | _ \<Rightarrow> False))"

definition isClientEnvelope :: "js \<Rightarrow> bool" where
  "isClientEnvelope v = (
     if \<not> relay_isRecord v then False
     else if js_get v ''type'' = Str ''ping'' then True
     else if js_get v ''type'' \<noteq> Str ''command'' then False
     else if js_get v ''id'' \<noteq> Undefined \<and> \<not> is_num (js_get v ''id'') then False
     else if \<not> isExtensionMethod (js_get v ''method'') then False
     else if \<not> relay_isRecord (js_get v ''params'') then False
     else if \<not> is_str (js_get (js_get v ''params'') ''method'') then False
     else True)"

lemma isExtensionResponseMessage_iff:
  "isExtensionResponseMessage v \<longleftrightarrow>
     isRecord v \<and> is_num (js_get v ''id'')
     \<and> (js_get v ''error'' = Undefined \<or> is_str (js_get v ''error''))
     \<and> (js_get v ''errorInfo'' = Undefined \<or> isExtensionErrorInfo (js_get v ''errorInfo''))"
  by (auto simp: isExtensionResponseMessage_def)

lemma makeErrorResponse_guard:
  "error_info_ok e \<Longrightarrow> isExtensionResponseMessage (makeErrorResponse i e)"
  by (simp add: isExtensionResponseMessage_iff isExtensionErrorInfo_js)
     (simp add: makeErrorResponse_def)


section \<open>Configuration\<close>

text \<open>
  \<open>parsePositiveInt\<close>: the number read from the variable, rounded down, or the fallback when it
  is not a finite positive number.
\<close>

definition parsePositiveInt :: "string option \<Rightarrow> jsnum \<Rightarrow> jsnum" where
  "parsePositiveInt rawValue fallback = (
     let parsed = js_Number rawValue in
     if \<not> isFinite parsed \<or> parsed \<le> Fin 0 then fallback else js_floor parsed)"

record relay_config =
  HOST :: string
  PORT :: jsnum
  REQUEST_TIMEOUT_MS :: jsnum
  HEALTH_PROBE_TIMEOUT_MS :: jsnum
  EXTENSION_KEEPALIVE_MS :: jsnum
  SSE_KEEPALIVE_MS :: jsnum

definition read_config :: "(string \<Rightarrow> string option) \<Rightarrow> relay_config" where
  "read_config env = (
     let request_timeout = parsePositiveInt (env ''SKILL_REQUEST_TIMEOUT_MS'') (Fin 15000)
     in \<lparr>HOST = (case env ''SKILL_HOST'' of Some h \<Rightarrow> h | None \<Rightarrow> ''127.0.0.1''),
         PORT = parsePositiveInt (env ''SKILL_PORT'') (Fin 9111),
         REQUEST_TIMEOUT_MS = request_timeout,
         HEALTH_PROBE_TIMEOUT_MS =
           parsePositiveInt (env ''SKILL_HEALTH_PROBE_TIMEOUT_MS'') (js_min (Fin 3000) request_timeout),
         EXTENSION_KEEPALIVE_MS = parsePositiveInt (env ''SKILL_EXTENSION_KEEPALIVE_MS'') (Fin 20000),
         SSE_KEEPALIVE_MS = parsePositiveInt (env ''SKILL_SSE_KEEPALIVE_MS'') (Fin 15000)\<rparr>)"

lemma parsePositiveInt_eq:
  "parsePositiveInt raw fallback = (case js_Number raw of
      Fin r \<Rightarrow> if 0 < r then Fin (of_int \<lfloor>r\<rfloor>) else fallback
    | _ \<Rightarrow> fallback)"
  by (cases "js_Number raw") (auto simp: parsePositiveInt_def Let_def)


section \<open>Timeouts and statuses\<close>

definition TIMEOUT_ERROR_PREFIX :: string where
  "TIMEOUT_ERROR_PREFIX = ''Timeout after''"

definition BLOCKED_EXTENSION_HINT :: string where
  "BLOCKED_EXTENSION_HINT =
     ''The browser extension may be blocked. Manually refresh the extension and retry.''"

definition makeTimeoutError :: "jsnum \<Rightarrow> bool \<Rightarrow> string" where
  "makeTimeoutError timeoutMs includeBlockedHint = (
     let base = TIMEOUT_ERROR_PREFIX @ '' '' @ num_text timeoutMs @ ''ms'' in
     if \<not> includeBlockedHint then base else base @ ''. '' @ BLOCKED_EXTENSION_HINT)"

definition isTimeoutError :: "string option \<Rightarrow> bool" where
  "isTimeoutError err = (case err of
      None \<Rightarrow> False
    | Some s \<Rightarrow> take (length TIMEOUT_ERROR_PREFIX) s = TIMEOUT_ERROR_PREFIX)"

definition makeTimeoutErrorInfo :: "jsnum \<Rightarrow> bool \<Rightarrow> error_info" where
  "makeTimeoutErrorInfo timeoutMs includeBlockedHint =
     makeErrorInfo ''COMMAND_TIMEOUT'' (makeTimeoutError timeoutMs includeBlockedHint)
       (Some (Obj [(''timeoutMs'', Num timeoutMs)])) None"

text \<open>The \<open>switch\<close> on the error code.\<close>

definition code_status :: "string \<Rightarrow> nat" where
  "code_status c = (
     if c \<in> {''INVALID_JSON'', ''INVALID_COMMAND_BODY'', ''INVALID_COMMAND_METHOD'',
             ''INVALID_COMMAND_PARAMS'', ''INVALID_COMMAND_TARGET_ID'', ''MISSING_TARGET_ID'',
             ''INVALID_PORT'', ''INVALID_CREATE_TAB_URL'', ''UNKNOWN_TAB_METHOD''} then 400
     else if c = ''NO_ACTIVE_TAB'' then 404
     else if c = ''PORT_CHANGE_WHILE_ACTIVE'' then 409
     else if c \<in> {''EXTENSION_NOT_CONNECTED'', ''RELAY_NOT_CONNECTED''} then 503
     else if c \<in> {''COMMAND_TIMEOUT'', ''RELAY_CONNECT_TIMEOUT''} then 504
     else 502)"

definition commandErrorToStatus :: "js \<Rightarrow> nat" where
  "commandErrorToStatus msg = (case getResponseErrorInfo msg of
      None \<Rightarrow> 200
    | Some e \<Rightarrow> code_status (ei_code e))"

lemma code_status_error: "code_status c \<in> {400, 404, 409, 502, 503, 504}"
  by (simp add: code_status_def)

lemma code_status_ge: "400 \<le> code_status c"
  using code_status_error [of c] by auto

lemma makeTimeoutErrorInfo_simps [simp]:
  "ei_code (makeTimeoutErrorInfo ms h) = ''COMMAND_TIMEOUT''"
  "ei_message (makeTimeoutErrorInfo ms h) = makeTimeoutError ms h"
  "error_info_ok (makeTimeoutErrorInfo ms h)"
  by (simp_all add: makeTimeoutErrorInfo_def error_info_ok_def)

lemma commandErrorToStatus_make:
  "error_info_ok e \<Longrightarrow> commandErrorToStatus (makeErrorResponse i e) = code_status (ei_code e)"
  by (simp add: commandErrorToStatus_def getResponseErrorInfo_make)

end
