(* ===== verification/ExtState.thy ===== *)
theory ExtState
  imports RelayWire
begin

text \<open>
  The state of the browser extension's background process, shared by its services, and the
  browser it runs in: the storage area, the registry of attached tabs, the cells and queues of
  the connection, its sockets with the handlers installed on them, and what the process does to
  the browser (a trace of effects). The browser answers calls through a record of functions; an
  answer comes with the state the fiber finds when it resumes, so other fibers may act meanwhile.
\<close>

section \<open>State\<close>

datatype conn_event = Connected | Disconnected "string option"

text \<open>
  The handlers on a socket: those of the connection attempt (they resume the waiting fiber and
  hold the attempt's timer, live or cleared) and those installed once the attempt succeeded.
\<close>

datatype handlers = Attempt bool | Installed

record sock =
  sk_ready :: ready_state
  sk_url :: string
  sk_handlers :: handlers

text \<open>Where the fiber of the maintenance loop is: at the loop's head, reading the state, in an attempt,
  asleep, or dead.\<close>

datatype fiber = AtTop | Reading | Connecting nat | Sleeping | Ended

text \<open>What the process does: storage writes, socket operations, and calls to the browser's interfaces.\<close>

datatype ext_effect =
    StorageSet string js
  | StorageRemove string
  | SocketNew nat string
  | SocketSend nat js
  | SocketShut nat
  | CallAttach jsnum
  | CallDetach jsnum
  | CallCommand js string js
  | CallCreate string
  | BadgeSet bool
  | AlarmSet
  | AlarmCleared
  | PopupReply js

record ext =
  storageLocal :: "(string, js) jmap"
  tabsRef :: "(jsnum, js) jmap"
  wsRef :: "nat option"
  maintainRef :: bool
  fiberRef :: "fiber option"
  sockets :: "(nat, sock) jmap"
  nextSocket :: nat
  messagesQ :: "js list"
  eventsQ :: "conn_event list"
  effects :: "ext_effect list"

definition ext_init :: "(string, js) jmap \<Rightarrow> ext" where
  "ext_init stored = \<lparr>storageLocal = stored, tabsRef = [], wsRef = None, maintainRef = False, fiberRef = None,
     sockets = [], nextSocket = 0, messagesQ = [], eventsQ = [], effects = []\<rparr>"

definition perform :: "ext_effect \<Rightarrow> ext \<Rightarrow> ext" where
  "perform e s = s\<lparr>effects := effects s @ [e]\<rparr>"

lemma perform_frame [ext_frame, simp]:
  "storageLocal (perform e s) = storageLocal s" "tabsRef (perform e s) = tabsRef s"
  "wsRef (perform e s) = wsRef s" "maintainRef (perform e s) = maintainRef s"
  "fiberRef (perform e s) = fiberRef s" "sockets (perform e s) = sockets s"
  "nextSocket (perform e s) = nextSocket s" "messagesQ (perform e s) = messagesQ s"
  "eventsQ (perform e s) = eventsQ s" "effects (perform e s) = effects s @ [e]"
  by (simp_all add: perform_def)

type_synonym 'a ext_eff = "(ext, thrown, 'a) eff"


section \<open>The browser\<close>

text \<open>
  The interfaces of the browser and of the \<open>effect\<close> library that the services call:
  \<open>typeError\<close> is what reading a property of \<open>undefined\<close> throws,
  \<open>unknownException\<close> is the error \<open>tryPromise\<close> makes of a rejection it was given no handler
  for, \<open>fiberFailure\<close> what \<open>runPromise\<close> rejects with after a failure or a defect.
\<close>

record browser =
  storage_call :: "ext \<Rightarrow> (thrown + unit) \<times> ext"
  badge_call :: "ext \<Rightarrow> (thrown + unit) \<times> ext"
  debugger_attach :: "jsnum \<Rightarrow> ext \<Rightarrow> (thrown + unit) \<times> ext"
  debugger_detach :: "jsnum \<Rightarrow> ext \<Rightarrow> (thrown + unit) \<times> ext"
  debugger_sendCommand :: "js \<Rightarrow> string \<Rightarrow> js \<Rightarrow> ext \<Rightarrow> (thrown + js) \<times> ext"
  debugger_getTargets :: "ext \<Rightarrow> (thrown + js list) \<times> ext"
  tabs_query :: "js \<Rightarrow> ext \<Rightarrow> (thrown + js list) \<times> ext"
  tabs_create :: "js \<Rightarrow> ext \<Rightarrow> (thrown + js) \<times> ext"
  newWebSocket :: "string \<Rightarrow> thrown option"
  socket_send :: "nat \<Rightarrow> thrown option"
  parse_json :: json_parser
  typeError :: thrown
  unknownException :: "thrown \<Rightarrow> thrown"
  fiberFailure :: "thrown \<Rightarrow> thrown"

text \<open>A call that performs an effect and then awaits the answer.\<close>

definition calling :: "ext_effect \<Rightarrow> (ext \<Rightarrow> (thrown + 'a) \<times> ext) \<Rightarrow> 'a ext_eff" where
  "calling e c = eff_then (eff_modify (perform e)) (eff_call c)"

lemma calling_run: "calling e c s = eff_call c (perform e s)"
  by (simp add: calling_def)

definition fail_info :: "error_info \<Rightarrow> 'a ext_eff" where
  "fail_info e = eff_fail (throw_info e)"

lemma fail_info_run [simp]: "fail_info e s = (Failure (throw_info e), s)"
  by (simp add: fail_info_def)

text \<open>What the browser and the other fibers may do while a fiber waits: keep a given predicate.\<close>

definition polite :: "browser \<Rightarrow> (ext \<Rightarrow> bool) \<Rightarrow> bool" where
  "polite br P \<longleftrightarrow>
     (\<forall>s. P s \<longrightarrow> P (snd (storage_call br s)) \<and> P (snd (badge_call br s)) \<and> P (snd (debugger_getTargets br s)))
     \<and> (\<forall>t s. P s \<longrightarrow> P (snd (debugger_attach br t s)) \<and> P (snd (debugger_detach br t s)))
     \<and> (\<forall>d m p s. P s \<longrightarrow> P (snd (debugger_sendCommand br d m p s)))
     \<and> (\<forall>q s. P s \<longrightarrow> P (snd (tabs_query br q s)) \<and> P (snd (tabs_create br q s)))"

lemma keeps_calling:
  "(\<And>s. P s \<Longrightarrow> P (perform e s)) \<Longrightarrow> (\<And>s. P s \<Longrightarrow> P (snd (c s))) \<Longrightarrow> keeps P (calling e c)"
  unfolding calling_def by (intro keeps_then keeps_modify keeps_call) auto

lemma keeps_fail_info [intro, simp]: "keeps P (fail_info e)"
  by (simp add: fail_info_def)

end
