(* ===== verification/StateManager.thy ===== *)
theory StateManager
  imports ExtState
begin

text \<open>
  The state store of the extension, \<open>extension/services/StateManager.ts\<close>: the activity flag and the
  port kept in the browser's storage area, with the migration of states written by older versions.
\<close>

section \<open>The store\<close>

definition STORAGE_KEY :: string where
  "STORAGE_KEY = ''vibeBrowserActiveState''"

definition LEGACY_STORAGE_KEY :: string where
  "LEGACY_STORAGE_KEY = ''devBrowserActiveState''"

definition DEFAULT_PORT :: jsnum where
  "DEFAULT_PORT = Fin 9111"

text \<open>\<open>ActiveState\<close>; what the storage holds is not checked beyond the port, so the fields are values.\<close>

record active_state =
  st_isActive :: js
  st_port :: js

definition active_state_js :: "active_state \<Rightarrow> js" where
  "active_state_js st = Obj [(''isActive'', st_isActive st), (''port'', st_port st)]"

definition active_state_of_js :: "js \<Rightarrow> active_state" where
  "active_state_of_js v = \<lparr>st_isActive = js_get v ''isActive'', st_port = js_get v ''port''\<rparr>"

lemma active_state_roundtrip [simp]: "active_state_of_js (active_state_js st) = st"
  by (simp add: active_state_of_js_def active_state_js_def)

definition stored :: "string \<Rightarrow> ext \<Rightarrow> js" where
  "stored k s = (case mapGet (storageLocal s) k of None \<Rightarrow> Undefined | Some v \<Rightarrow> v)"

definition storage_set :: "browser \<Rightarrow> string \<Rightarrow> js \<Rightarrow> unit ext_eff" where
  "storage_set br k v = eff_then (calling (StorageSet k v) (storage_call br))
     (eff_modify (\<lambda>s. s\<lparr>storageLocal := mapSet (storageLocal s) k v\<rparr>))"

definition storage_remove :: "browser \<Rightarrow> string \<Rightarrow> unit ext_eff" where
  "storage_remove br k = eff_then (calling (StorageRemove k) (storage_call br))
     (eff_modify (\<lambda>s. s\<lparr>storageLocal := mapDelete (storageLocal s) k\<rparr>))"

definition state_get :: "browser \<Rightarrow> active_state ext_eff" where
  "state_get br = eff_mapError (unknownException br)
     (eff_bind (eff_call (storage_call br)) (\<lambda>_.
      eff_bind (eff_gets (\<lambda>s. (stored STORAGE_KEY s, stored LEGACY_STORAGE_KEY s))) (\<lambda>(state, legacyState).
        if truthy state then
          if is_num (js_get state ''port'') then eff_succeed (active_state_of_js state)
          else
            let migratedState = \<lparr>st_isActive = js_get state ''isActive'', st_port = Num DEFAULT_PORT\<rparr>
            in eff_then (storage_set br STORAGE_KEY (active_state_js migratedState)) (eff_succeed migratedState)
        else if truthy legacyState then
          let migratedState = \<lparr>st_isActive = js_get legacyState ''isActive'',
                st_port = (if is_num (js_get legacyState ''port'') then js_get legacyState ''port''
                           else Num DEFAULT_PORT)\<rparr>
          in eff_then (storage_set br STORAGE_KEY (active_state_js migratedState))
               (eff_then (storage_remove br LEGACY_STORAGE_KEY) (eff_succeed migratedState))
        else eff_succeed \<lparr>st_isActive = Bool False, st_port = Num DEFAULT_PORT\<rparr>)))"

definition state_set :: "browser \<Rightarrow> active_state \<Rightarrow> unit ext_eff" where
  "state_set br st = eff_mapError (unknownException br) (storage_set br STORAGE_KEY (active_state_js st))"


section \<open>Laws\<close>

text \<open>The storage area answers every call, and no other fiber runs meanwhile.\<close>

definition storage_ok :: "browser \<Rightarrow> bool" where
  "storage_ok br \<longleftrightarrow> (\<forall>s. storage_call br s = (Inr (), s))"

lemma stored_perform [simp]: "stored k (perform e s) = stored k s"
  by (simp add: stored_def)

lemma stored_set [simp]:
  "stored k (s\<lparr>storageLocal := mapSet m k' v\<rparr>) = (if k = k' then v else stored k (s\<lparr>storageLocal := m\<rparr>))"
  "stored k (s\<lparr>storageLocal := mapDelete m k'\<rparr>) = (if k = k' then Undefined else stored k (s\<lparr>storageLocal := m\<rparr>))"
  by (simp_all add: stored_def)

lemma stored_same [simp]: "stored k (s\<lparr>storageLocal := storageLocal s'\<rparr>) = stored k s'"
  by (simp add: stored_def)

lemma storage_set_run:
  "storage_ok br \<Longrightarrow> storage_set br k v s =
     (Success (), (perform (StorageSet k v) s)\<lparr>storageLocal := mapSet (storageLocal s) k v\<rparr>)"
  by (simp add: storage_set_def calling_run storage_ok_def eff_call_run eff_then_def eff_bind_run)

lemma storage_remove_run:
  "storage_ok br \<Longrightarrow> storage_remove br k s =
     (Success (), (perform (StorageRemove k) s)\<lparr>storageLocal := mapDelete (storageLocal s) k\<rparr>)"
  by (simp add: storage_remove_def calling_run storage_ok_def eff_call_run eff_then_def eff_bind_run)

lemma keys_distinct [simp]: "STORAGE_KEY \<noteq> LEGACY_STORAGE_KEY" "LEGACY_STORAGE_KEY \<noteq> STORAGE_KEY"
  by (simp_all add: STORAGE_KEY_def LEGACY_STORAGE_KEY_def)

text \<open>A state in the current format is read back as it is, without touching the storage.\<close>

lemma state_get_current:
  assumes "storage_ok br" "truthy (stored STORAGE_KEY s)" "is_num (js_get (stored STORAGE_KEY s) ''port'')"
  shows "state_get br s = (Success (active_state_of_js (stored STORAGE_KEY s)), s)"
  using assms by (simp add: state_get_def storage_ok_def eff_mapError_def eff_catch_run eff_bind_run eff_call_run)

lemma state_set_run:
  "storage_ok br \<Longrightarrow> state_set br st s = (Success (), (perform (StorageSet STORAGE_KEY (active_state_js st)) s)
     \<lparr>storageLocal := mapSet (storageLocal s) STORAGE_KEY (active_state_js st)\<rparr>)"
  by (simp add: state_set_def storage_set_run)

lemma active_state_js_simps [simp]:
  "truthy (active_state_js st)" "js_get (active_state_js st) ''port'' = st_port st"
  "js_get (active_state_js st) ''isActive'' = st_isActive st"
  by (simp_all add: active_state_js_def)

text \<open>The flag and the port a read gives, by what the storage holds.\<close>

definition migrated :: "ext \<Rightarrow> active_state" where
  "migrated s = (
     let port = (\<lambda>v. if is_num (js_get v ''port'') then js_get v ''port'' else Num DEFAULT_PORT) in
     if truthy (stored STORAGE_KEY s) then
       \<lparr>st_isActive = js_get (stored STORAGE_KEY s) ''isActive'', st_port = port (stored STORAGE_KEY s)\<rparr>
     else if truthy (stored LEGACY_STORAGE_KEY s) then
       \<lparr>st_isActive = js_get (stored LEGACY_STORAGE_KEY s) ''isActive'', st_port = port (stored LEGACY_STORAGE_KEY s)\<rparr>
     else \<lparr>st_isActive = Bool False, st_port = Num DEFAULT_PORT\<rparr>)"

lemma migrated_num: "is_num (st_port (migrated s))"
  by (simp add: migrated_def Let_def)

text \<open>Whatever the storage held, a read succeeds with a port that is a number.\<close>

lemma state_get_total:
  assumes "storage_ok br"
  obtains s' where "state_get br s = (Success (migrated s), s')"
    "stored STORAGE_KEY s' = active_state_js (migrated s) \<or> s' = s"
    "wsRef s' = wsRef s \<and> fiberRef s' = fiberRef s \<and> maintainRef s' = maintainRef s \<and> sockets s' = sockets s
      \<and> nextSocket s' = nextSocket s \<and> eventsQ s' = eventsQ s \<and> messagesQ s' = messagesQ s \<and> tabsRef s' = tabsRef s"
proof -
  have call: "storage_call br s = (Inr (), s)" using assms by (simp add: storage_ok_def)
  note runs = state_get_def eff_mapError_def eff_catch_run eff_bind_run eff_call_run call eff_then_def
    storage_set_run [OF assms] storage_remove_run [OF assms] migrated_def active_state_of_js_def Let_def
  show ?thesis
  proof (cases "truthy (stored STORAGE_KEY s)")
    case True
    show ?thesis
    proof (cases "is_num (js_get (stored STORAGE_KEY s) ''port'')")
      case num: True
      from True num show ?thesis by (intro that [of s]) (simp_all add: runs)
    next
      case False
      with True show ?thesis by (intro that) (simp add: runs, simp_all add: runs)
    qed
  next
    case no: False
    show ?thesis
    proof (cases "truthy (stored LEGACY_STORAGE_KEY s)")
      case True
      with no show ?thesis by (intro that) (simp add: runs, simp_all add: runs)
    next
      case False
      with no show ?thesis by (intro that [of s]) (simp_all add: runs)
    qed
  qed
qed

lemma keeps_state_get:
  assumes "polite br P" "\<And>k v s. P s \<Longrightarrow> P (perform (StorageSet k v) s)"
    "\<And>k s. P s \<Longrightarrow> P (perform (StorageRemove k) s)" "\<And>m s. P s \<Longrightarrow> P (s\<lparr>storageLocal := m\<rparr>)"
  shows "keeps P (state_get br)" "keeps P (state_set br st)"
proof -
  have c: "P s \<Longrightarrow> P (snd (storage_call br s))" for s using assms(1) by (simp add: polite_def)
  have set: "keeps P (storage_set br k v)" for k v
    unfolding storage_set_def by (intro keeps_then keeps_calling keeps_modify) (auto simp: assms c)
  have rem: "keeps P (storage_remove br k)" for k
    unfolding storage_remove_def by (intro keeps_then keeps_calling keeps_modify) (auto simp: assms c)
  show "keeps P (state_get br)"
    unfolding state_get_def Let_def case_prod_beta
    by (intro keeps_mapError keeps_bind keeps_call) (auto simp: c intro!: keeps_then set rem)
  show "keeps P (state_set br st)"
    unfolding state_set_def by (intro keeps_mapError set)
qed


section \<open>Properties of the store\<close>

text \<open>A browser whose calls all succeed at once and in which nothing else runs.\<close>

definition quiet_browser :: browser where
  "quiet_browser = \<lparr>storage_call = Pair (Inr ()), badge_call = Pair (Inr ()), debugger_attach = (\<lambda>_. Pair (Inr ())),
     debugger_detach = (\<lambda>_. Pair (Inr ())),
     debugger_sendCommand = (\<lambda>_ _ _. Pair (Inr (Obj [(''targetInfo'', Obj [(''targetId'', Str ''T7'')])]))),
     debugger_getTargets = Pair (Inr []), tabs_query = (\<lambda>_. Pair (Inr [Obj [(''id'', Num (Fin 7))]])),
     tabs_create = (\<lambda>_. Pair (Inr (Obj [(''id'', Num (Fin 7))]))), newWebSocket = (\<lambda>_. None), socket_send = (\<lambda>_. None),
     parse_json = (\<lambda>_. Inl (newError ''bad'')), typeError = newError ''type error'', unknownException = (\<lambda>_. newError ''unknown''),
     fiberFailure = (\<lambda>_. newError ''failed'')\<rparr>"

lemma quiet_storage: "storage_ok quiet_browser"
  by (simp add: storage_ok_def quiet_browser_def)

text \<open>
  C32. What was stored is read back: after a state with a numeric port is set, the next read gives
  that state, and reading it changes nothing.
\<close>
theorem state_get_after_set:
  assumes "storage_ok br" "is_num (st_port st)" "state_set br st s = (x, s')"
  shows "x = Success () \<and> state_get br s' = (Success st, s')"
proof -
  from assms(1,3) have x: "x = Success ()" and s': "stored STORAGE_KEY s' = active_state_js st"
    by (auto simp: state_set_run)
  with state_get_current [OF assms(1), of s'] assms(2) show ?thesis by simp
qed

theorem state_get_after_set_witness:
  "state_get quiet_browser (snd (state_set quiet_browser \<lparr>st_isActive = Bool True, st_port = Num (Fin 80)\<rparr> (ext_init [])))
     = (Success \<lparr>st_isActive = Bool True, st_port = Num (Fin 80)\<rparr>,
        snd (state_set quiet_browser \<lparr>st_isActive = Bool True, st_port = Num (Fin 80)\<rparr> (ext_init [])))"
  using state_get_after_set [OF quiet_storage, of "\<lparr>st_isActive = Bool True, st_port = Num (Fin 80)\<rparr>" "ext_init []"
      "fst (state_set quiet_browser \<lparr>st_isActive = Bool True, st_port = Num (Fin 80)\<rparr> (ext_init []))"] by simp



end
