(* ===== verification/ConnectionManager.thy ===== *)
theory ConnectionManager
  imports StateManager
begin

text \<open>
  The extension's connection to the relay, \<open>extension/services/ConnectionManager.ts\<close>: sending,
  the fiber that keeps the connection up, one attempt to connect with its three ways to fail, the
  handlers on the sockets, and disconnecting. The service is a machine over the fiber's steps, the
  events of its sockets and the calls of the background script.
\<close>

section \<open>Sending\<close>

definition getRelayUrl :: "js \<Rightarrow> string" where
  "getRelayUrl port = ''ws://127.0.0.1:'' @ js_String port @ ''/extension''"

definition ready_of :: "ext \<Rightarrow> nat \<Rightarrow> ready_state" where
  "ready_of s w = (case mapGet (sockets s) w of None \<Rightarrow> CLOSED | Some k \<Rightarrow> sk_ready k)"

definition isConnected :: "ext \<Rightarrow> bool" where
  "isConnected s = (case wsRef s of None \<Rightarrow> False | Some w \<Rightarrow> ready_of s w = OPEN)"

definition checkConnection :: "ext \<Rightarrow> bool" where
  "checkConnection s = isConnected s"

definition rawSend :: "browser \<Rightarrow> nat \<Rightarrow> js \<Rightarrow> ext \<Rightarrow> error_info option \<times> ext" where
  "rawSend br w message s = (case socket_send br w of
      None \<Rightarrow> (None, perform (SocketSend w message) s)
    | Some err \<Rightarrow> (Some (createExtensionErrorInfo ''WS_SEND_FAILED'' ''Failed to send message to relay''
        (Some (Obj [(''readyState'', Num (num_of_nat (ready_code (ready_of s w))))])) None), s))"

definition conn_send :: "browser \<Rightarrow> js \<Rightarrow> unit ext_eff" where
  "conn_send br message = eff_bind (eff_gets (\<lambda>s. (wsRef s, isConnected s))) (\<lambda>(ws, ok).
     case ws of
       None \<Rightarrow> fail_info (createExtensionErrorInfo ''RELAY_NOT_CONNECTED'' ''Relay connection is not open'' None None)
     | Some w \<Rightarrow>
         if \<not> ok then
           fail_info (createExtensionErrorInfo ''RELAY_NOT_CONNECTED'' ''Relay connection is not open'' None None)
         else (\<lambda>s. case rawSend br w message s of
             (None, s') \<Rightarrow> (Success (), s')
           | (Some e, s') \<Rightarrow> (Failure (throw_info e), s')))"


section \<open>Connecting\<close>

definition offer :: "conn_event \<Rightarrow> ext \<Rightarrow> ext" where
  "offer e s = s\<lparr>eventsQ := eventsQ s @ [e]\<rparr>"

definition set_ready :: "nat \<Rightarrow> ready_state \<Rightarrow> ext \<Rightarrow> ext" where
  "set_ready w r s = (case mapGet (sockets s) w of
      None \<Rightarrow> s
    | Some k \<Rightarrow> s\<lparr>sockets := mapSet (sockets s) w (k\<lparr>sk_ready := r\<rparr>)\<rparr>)"

definition set_handlers :: "nat \<Rightarrow> handlers \<Rightarrow> ext \<Rightarrow> ext" where
  "set_handlers w h s = (case mapGet (sockets s) w of
      None \<Rightarrow> s
    | Some k \<Rightarrow> s\<lparr>sockets := mapSet (sockets s) w (k\<lparr>sk_handlers := h\<rparr>)\<rparr>)"

text \<open>\<open>ws.close()\<close>: an open or connecting socket starts to close; a second call does nothing.\<close>

definition socket_close :: "nat \<Rightarrow> ext \<Rightarrow> ext" where
  "socket_close w s = perform (SocketShut w)
     (if ready_of s w = CONNECTING \<or> ready_of s w = OPEN then set_ready w CLOSING s else s)"

definition closeSocket :: "ext \<Rightarrow> ext" where
  "closeSocket s = (case wsRef s of None \<Rightarrow> s | Some w \<Rightarrow> socket_close w s)\<lparr>wsRef := None\<rparr>"

text \<open>The fiber moves on, unless it has been interrupted.\<close>

definition goto :: "fiber \<Rightarrow> ext \<Rightarrow> ext" where
  "goto f s = (case fiberRef s of None \<Rightarrow> s | Some g \<Rightarrow> s\<lparr>fiberRef := Some f\<rparr>)"

text \<open>The loop's \<open>catchAll\<close> around an attempt, then its sleep.\<close>

definition attempt_failed :: "thrown \<Rightarrow> ext \<Rightarrow> ext" where
  "attempt_failed e s = goto Sleeping (offer (Disconnected (Some (errorToMessage e))) s)"

text \<open>From the state read on: the socket and its timer. A constructor that throws kills the fiber.\<close>

definition open_attempt :: "browser \<Rightarrow> active_state \<Rightarrow> ext \<Rightarrow> ext" where
  "open_attempt br st s = (
     let relayUrl = getRelayUrl (st_port st) in
     case newWebSocket br relayUrl of
       Some e \<Rightarrow> goto Ended s
     | None \<Rightarrow>
         let w = nextSocket s;
             s1 = perform (SocketNew w relayUrl) s;
             s2 = s1\<lparr>sockets := mapSet (sockets s1) w
                     \<lparr>sk_ready = CONNECTING, sk_url = relayUrl, sk_handlers = Attempt True\<rparr>,
                   nextSocket := Suc w\<rparr>
         in goto (Connecting w) s2)"

text \<open>One step of the maintenance fiber, up to the next point where it waits.\<close>

definition maintainLoop :: "browser \<Rightarrow> ext \<Rightarrow> ext" where
  "maintainLoop br s = (case fiberRef s of
      Some AtTop \<Rightarrow>
        if \<not> maintainRef s then goto Ended s
        else if isConnected s then goto Sleeping s
        else goto Reading s
    | Some Reading \<Rightarrow> (case state_get br s of
          (Success currentState, s1) \<Rightarrow> open_attempt br currentState s1
        | (Failure e, s1) \<Rightarrow> attempt_failed e s1
        | (Defect e, s1) \<Rightarrow> goto Ended s1)
    | Some Sleeping \<Rightarrow> goto AtTop s
    | _ \<Rightarrow> s)"

definition startMaintaining :: "ext \<Rightarrow> ext" where
  "startMaintaining s0 = (
     let s = s0\<lparr>maintainRef := True\<rparr>
     in case fiberRef s of None \<Rightarrow> s\<lparr>fiberRef := Some AtTop\<rparr> | Some f \<Rightarrow> s)"

definition disconnect :: "ext \<Rightarrow> ext" where
  "disconnect s = offer (Disconnected (Some ''manual''))
     (closeSocket (s\<lparr>maintainRef := False, fiberRef := None\<rparr>))"


section \<open>Handlers of a socket\<close>

text \<open>
  \<open>resume\<close> of the attempt on socket \<open>w\<close>: only the first one counts, and only while the fiber still
  waits for this attempt.
\<close>

definition resume_failure :: "nat \<Rightarrow> error_info \<Rightarrow> ext \<Rightarrow> ext" where
  "resume_failure w e s =
     (if fiberRef s = Some (Connecting w) then attempt_failed (throw_info e) s else s)"

text \<open>The rest of \<open>tryConnectOnce\<close> after the socket has opened.\<close>

definition resume_open :: "nat \<Rightarrow> ext \<Rightarrow> ext" where
  "resume_open w s = (
     if fiberRef s = Some (Connecting w) then
       goto Sleeping (offer Connected ((set_handlers w Installed s)\<lparr>wsRef := Some w\<rparr>))
     else s)"

definition url_of :: "ext \<Rightarrow> nat \<Rightarrow> string" where
  "url_of s w = (case mapGet (sockets s) w of None \<Rightarrow> [] | Some k \<Rightarrow> sk_url k)"

definition handlers_of :: "ext \<Rightarrow> nat \<Rightarrow> handlers option" where
  "handlers_of s w = map_option sk_handlers (mapGet (sockets s) w)"

definition on_open :: "nat \<Rightarrow> ext \<Rightarrow> ext" where
  "on_open w s0 = (
     if ready_of s0 w \<noteq> CONNECTING then s0
     else let s = set_ready w OPEN s0 in
       case handlers_of s w of
         Some (Attempt live) \<Rightarrow> resume_open w (set_handlers w (Attempt False) s)
       | _ \<Rightarrow> s)"

definition on_error :: "nat \<Rightarrow> ext \<Rightarrow> ext" where
  "on_error w s = (case handlers_of s w of
      Some (Attempt live) \<Rightarrow> resume_failure w
        (createExtensionErrorInfo ''RELAY_CONNECT_FAILED'' (''WebSocket connection failed for '' @ url_of s w)
          (Some (Obj [(''relayUrl'', Str (url_of s w))])) None)
        (set_handlers w (Attempt False) s)
    | _ \<Rightarrow> s)"

definition on_timeout :: "nat \<Rightarrow> ext \<Rightarrow> ext" where
  "on_timeout w s = (
     if handlers_of s w \<noteq> Some (Attempt True) then s
     else resume_failure w
        (createExtensionErrorInfo ''RELAY_CONNECT_TIMEOUT'' (''Timed out connecting to relay at '' @ url_of s w)
          (Some (Obj [(''relayUrl'', Str (url_of s w)), (''timeoutMs'', Num (Fin 5000))])) None)
        (socket_close w (set_handlers w (Attempt False) s)))"

definition on_close :: "nat \<Rightarrow> nat \<Rightarrow> string \<Rightarrow> ext \<Rightarrow> ext" where
  "on_close w c reason s0 = (
     if ready_of s0 w = CLOSED then s0
     else let s = set_ready w CLOSED s0 in
       case handlers_of s w of
         Some (Attempt live) \<Rightarrow> resume_failure w
           (createExtensionErrorInfo ''RELAY_CONNECT_CLOSED''
             (''WebSocket closed while connecting to '' @ url_of s w)
             (Some (Obj [(''relayUrl'', Str (url_of s w)), (''closeCode'', Num (num_of_nat c)),
                (''closeReason'', Str reason)])) None)
           (set_handlers w (Attempt False) s)
       | Some Installed \<Rightarrow>
           offer (Disconnected (Some (if reason \<noteq> [] then reason else nat_text c))) (s\<lparr>wsRef := None\<rparr>)
       | None \<Rightarrow> s)"

text \<open>A socket in an attempt has no message handler; a frame that arrives then is lost.\<close>

definition on_message :: "browser \<Rightarrow> nat \<Rightarrow> string \<Rightarrow> ext \<Rightarrow> ext" where
  "on_message br w dat s = (case handlers_of s w of
      Some Installed \<Rightarrow> (case parse_json br dat of
          Inr parsed \<Rightarrow>
            if isExtensionCommandMessage parsed then s\<lparr>messagesQ := messagesQ s @ [parsed]\<rparr> else s
        | Inl err \<Rightarrow> snd (rawSend br w (Obj [(''method'', Str ''log''),
            (''params'', Obj [(''level'', Str ''error''),
               (''args'', Arr [Str (''Received invalid JSON from relay: '' @ errorToMessage err)])])]) s))
    | _ \<Rightarrow> s)"

datatype conn_input =
    Start
  | Disconnect
  | FiberRuns
  | SockOpens nat
  | SockErrors nat
  | SockTimesOut nat
  | SockCloses nat nat string
  | SockMessage nat string

fun conn_step :: "browser \<Rightarrow> conn_input \<Rightarrow> ext \<Rightarrow> ext" where
  "conn_step br Start s = startMaintaining s"
| "conn_step br Disconnect s = disconnect s"
| "conn_step br FiberRuns s = maintainLoop br s"
| "conn_step br (SockOpens w) s = on_open w s"
| "conn_step br (SockErrors w) s = on_error w s"
| "conn_step br (SockTimesOut w) s = on_timeout w s"
| "conn_step br (SockCloses w c reason) s = on_close w c reason s"
| "conn_step br (SockMessage w dat) s = on_message br w dat s"

end
