(* ===== verification/ConnectionInvariant.thy ===== *)
theory ConnectionInvariant
  imports ConnectionManager
begin

text \<open>
  The invariant of the connection along every sequence of its inputs, its properties, and the
  interface of a message channel that the services above rely on.
\<close>

section \<open>Frames\<close>

lemma offer_frame [conn_frame, simp]:
  "storageLocal (offer e s) = storageLocal s" "tabsRef (offer e s) = tabsRef s" "wsRef (offer e s) = wsRef s"
  "maintainRef (offer e s) = maintainRef s" "fiberRef (offer e s) = fiberRef s" "sockets (offer e s) = sockets s"
  "nextSocket (offer e s) = nextSocket s" "messagesQ (offer e s) = messagesQ s"
  "eventsQ (offer e s) = eventsQ s @ [e]" "effects (offer e s) = effects s"
  by (simp_all add: offer_def)

lemma goto_frame [conn_frame, simp]:
  "storageLocal (goto f s) = storageLocal s" "tabsRef (goto f s) = tabsRef s" "wsRef (goto f s) = wsRef s"
  "maintainRef (goto f s) = maintainRef s" "fiberRef (goto f s) = map_option (\<lambda>_. f) (fiberRef s)"
  "sockets (goto f s) = sockets s" "nextSocket (goto f s) = nextSocket s" "messagesQ (goto f s) = messagesQ s"
  "eventsQ (goto f s) = eventsQ s" "effects (goto f s) = effects s"
  by (simp_all add: goto_def split: option.split)

lemma set_ready_frame [conn_frame, simp]:
  "storageLocal (set_ready w r s) = storageLocal s" "tabsRef (set_ready w r s) = tabsRef s"
  "wsRef (set_ready w r s) = wsRef s" "maintainRef (set_ready w r s) = maintainRef s"
  "fiberRef (set_ready w r s) = fiberRef s" "nextSocket (set_ready w r s) = nextSocket s"
  "messagesQ (set_ready w r s) = messagesQ s" "eventsQ (set_ready w r s) = eventsQ s"
  "effects (set_ready w r s) = effects s"
  by (simp_all add: set_ready_def split: option.split)

lemma set_handlers_frame [conn_frame, simp]:
  "storageLocal (set_handlers w h s) = storageLocal s" "tabsRef (set_handlers w h s) = tabsRef s"
  "wsRef (set_handlers w h s) = wsRef s" "maintainRef (set_handlers w h s) = maintainRef s"
  "fiberRef (set_handlers w h s) = fiberRef s" "nextSocket (set_handlers w h s) = nextSocket s"
  "messagesQ (set_handlers w h s) = messagesQ s" "eventsQ (set_handlers w h s) = eventsQ s"
  "effects (set_handlers w h s) = effects s"
  by (simp_all add: set_handlers_def split: option.split)

lemma socket_close_frame [conn_frame, simp]:
  "storageLocal (socket_close w s) = storageLocal s" "tabsRef (socket_close w s) = tabsRef s"
  "wsRef (socket_close w s) = wsRef s" "maintainRef (socket_close w s) = maintainRef s"
  "fiberRef (socket_close w s) = fiberRef s" "nextSocket (socket_close w s) = nextSocket s"
  "messagesQ (socket_close w s) = messagesQ s" "eventsQ (socket_close w s) = eventsQ s"
  by (simp_all add: socket_close_def)

text \<open>What the socket table reads as after an update; it is read through these three functions only.\<close>

definition exists_socket :: "ext \<Rightarrow> nat \<Rightarrow> bool" where
  "exists_socket s w \<longleftrightarrow> mapGet (sockets s) w \<noteq> None"

lemma exists_handlers: "exists_socket s w \<longleftrightarrow> handlers_of s w \<noteq> None"
  by (auto simp: exists_socket_def handlers_of_def)

lemma sockets_read [simp]:
  "exists_socket (set_ready w r s) v = exists_socket s v"
  "exists_socket (set_handlers w h s) v = exists_socket s v"
  "exists_socket (socket_close w s) v = exists_socket s v"
  "handlers_of (set_ready w r s) v = handlers_of s v"
  "handlers_of (set_handlers w h s) v = (if v = w \<and> exists_socket s w then Some h else handlers_of s v)"
  "handlers_of (socket_close w s) v = handlers_of s v"
  "ready_of (set_ready w r s) v = (if v = w \<and> exists_socket s w then r else ready_of s v)"
  "ready_of (set_handlers w h s) v = ready_of s v"
proof -
  show a: "exists_socket (set_ready w r s) v = exists_socket s v"
    "handlers_of (set_ready w r s) v = handlers_of s v" for w r s v
    by (simp_all add: exists_socket_def handlers_of_def set_ready_def split: option.split)
  show "exists_socket (set_handlers w h s) v = exists_socket s v"
    "handlers_of (set_handlers w h s) v = (if v = w \<and> exists_socket s w then Some h else handlers_of s v)"
    "ready_of (set_ready w r s) v = (if v = w \<and> exists_socket s w then r else ready_of s v)"
    "ready_of (set_handlers w h s) v = ready_of s v"
    by (auto simp: exists_socket_def handlers_of_def ready_of_def set_handlers_def set_ready_def split: option.split)
  have p: "exists_socket (perform e s) v = exists_socket s v" "handlers_of (perform e s) v = handlers_of s v" for e s v
    by (simp_all add: exists_socket_def handlers_of_def)
  show "exists_socket (socket_close w s) v = exists_socket s v" "handlers_of (socket_close w s) v = handlers_of s v"
    by (simp_all add: socket_close_def p a)
qed

lemma sockets_same:
  assumes "sockets s' = sockets s"
  shows "handlers_of s' w = handlers_of s w" "ready_of s' w = ready_of s w" "exists_socket s' w = exists_socket s w"
  using assms by (simp_all add: handlers_of_def ready_of_def exists_socket_def)

lemma handlers_of_same [simp]:
  "handlers_of (perform e s) w = handlers_of s w" "handlers_of (offer v s) w = handlers_of s w"
  "handlers_of (goto f s) w = handlers_of s w" "handlers_of (s\<lparr>wsRef := x\<rparr>) w = handlers_of s w"
  "handlers_of (s\<lparr>maintainRef := b\<rparr>) w = handlers_of s w" "handlers_of (s\<lparr>fiberRef := g\<rparr>) w = handlers_of s w"
  "handlers_of (s\<lparr>messagesQ := q\<rparr>) w = handlers_of s w"
  by (rule sockets_same; simp)+

lemma ready_of_same [simp]:
  "ready_of (perform e s) w = ready_of s w" "ready_of (offer v s) w = ready_of s w"
  "ready_of (goto f s) w = ready_of s w" "ready_of (s\<lparr>wsRef := x\<rparr>) w = ready_of s w"
  "ready_of (s\<lparr>maintainRef := b\<rparr>) w = ready_of s w" "ready_of (s\<lparr>fiberRef := g\<rparr>) w = ready_of s w"
  "ready_of (s\<lparr>messagesQ := q\<rparr>) w = ready_of s w"
  by (rule sockets_same; simp)+

lemma exists_socket_same [simp]:
  "exists_socket (perform e s) w = exists_socket s w" "exists_socket (offer v s) w = exists_socket s w"
  "exists_socket (goto f s) w = exists_socket s w" "exists_socket (s\<lparr>wsRef := x\<rparr>) w = exists_socket s w"
  "exists_socket (s\<lparr>maintainRef := b\<rparr>) w = exists_socket s w" "exists_socket (s\<lparr>fiberRef := g\<rparr>) w = exists_socket s w"
  "exists_socket (s\<lparr>messagesQ := q\<rparr>) w = exists_socket s w"
  by (rule sockets_same; simp)+

lemma ready_socket_close:
  "ready_of (socket_close w s) v = (if v = w \<and> ready_of s w \<in> {CONNECTING, OPEN} then CLOSING else ready_of s v)"
proof -
  have "ready_of s w \<in> {CONNECTING, OPEN} \<Longrightarrow> exists_socket s w"
    by (auto simp: ready_of_def exists_socket_def split: option.splits)
  then show ?thesis by (auto simp: socket_close_def)
qed


section \<open>The invariant\<close>

text \<open>
  The loop's fiber exists exactly while the connection is maintained. The current socket has the
  permanent handlers; a socket the fiber waits for has those of the attempt, with the timer
  running; permanent handlers are on opened sockets only. Only commands that passed the guard are
  queued.
\<close>

definition conn_inv :: "ext \<Rightarrow> bool" where
  "conn_inv s \<longleftrightarrow>
     (fiberRef s = None \<longleftrightarrow> \<not> maintainRef s)
     \<and> (\<forall>w. wsRef s = Some w \<longrightarrow> handlers_of s w = Some Installed)
     \<and> (\<forall>w. fiberRef s = Some (Connecting w) \<longrightarrow> handlers_of s w = Some (Attempt True))
     \<and> (\<forall>w. handlers_of s w = Some Installed \<longrightarrow> ready_of s w \<noteq> CONNECTING)
     \<and> (\<forall>w. exists_socket s w \<longrightarrow> w < nextSocket s)
     \<and> (\<forall>m \<in> set (messagesQ s). isExtensionCommandMessage m)"

lemma conn_inv_init: "conn_inv (ext_init st0)"
  by (simp add: conn_inv_def ext_init_def handlers_of_def exists_socket_def)

lemma conn_inv_cong:
  assumes "fiberRef s' = fiberRef s" "maintainRef s' = maintainRef s" "wsRef s' = wsRef s"
    "sockets s' = sockets s" "nextSocket s' = nextSocket s" "messagesQ s' = messagesQ s"
  shows "conn_inv s' = conn_inv s"
  unfolding conn_inv_def sockets_same [OF assms(4)] assms ..

lemma conn_inv_perform [simp]: "conn_inv (perform e s) = conn_inv s"
  by (rule conn_inv_cong) simp_all

lemma conn_inv_offer [simp]: "conn_inv (offer e s) = conn_inv s"
  by (rule conn_inv_cong) simp_all

lemma conn_inv_storage [simp]: "conn_inv (s\<lparr>storageLocal := m\<rparr>) = conn_inv s"
  by (rule conn_inv_cong) simp_all

lemma conn_inv_tabs [simp]: "conn_inv (s\<lparr>tabsRef := m\<rparr>) = conn_inv s"
  by (rule conn_inv_cong) simp_all

lemma conn_inv_goto:
  assumes "conn_inv s" "\<And>w. f = Connecting w \<Longrightarrow> handlers_of s w = Some (Attempt True)"
  shows "conn_inv (goto f s)"
  using assms by (auto simp: conn_inv_def)

lemma conn_inv_goto_idle [simp]:
  "conn_inv s \<Longrightarrow> conn_inv (goto AtTop s)" "conn_inv s \<Longrightarrow> conn_inv (goto Reading s)"
  "conn_inv s \<Longrightarrow> conn_inv (goto Sleeping s)" "conn_inv s \<Longrightarrow> conn_inv (goto Ended s)"
  by (erule conn_inv_goto; simp)+

lemma conn_inv_failed: "conn_inv s \<Longrightarrow> conn_inv (attempt_failed e s)"
  by (simp add: attempt_failed_def conn_inv_goto)

lemma conn_inv_open_attempt: "conn_inv s \<Longrightarrow> conn_inv (open_attempt br st s)"
proof -
  assume inv: "conn_inv s"
  show ?thesis
  proof (cases "newWebSocket br (getRelayUrl (st_port st))")
    case (Some e)
    with inv show ?thesis by (simp add: open_attempt_def conn_inv_goto)
  next
    case None
    let ?w = "nextSocket s"
    let ?k = "\<lparr>sk_ready = CONNECTING, sk_url = getRelayUrl (st_port st), sk_handlers = Attempt True\<rparr>"
    let ?s1 = "perform (SocketNew ?w (getRelayUrl (st_port st))) s"
    let ?s2 = "?s1\<lparr>sockets := mapSet (sockets ?s1) ?w ?k, nextSocket := Suc ?w\<rparr>"
    have e: "open_attempt br st s = goto (Connecting ?w) ?s2"
      by (simp add: open_attempt_def None Let_def)
    have h: "handlers_of ?s2 v = (if v = ?w then Some (Attempt True) else handlers_of s v)"
      "ready_of ?s2 v = (if v = ?w then CONNECTING else ready_of s v)"
      "exists_socket ?s2 v \<longleftrightarrow> v = ?w \<or> exists_socket s v" for v
      by (simp_all add: handlers_of_def ready_of_def exists_socket_def)
    from inv have new: "\<not> exists_socket s ?w" by (auto simp: conn_inv_def)
    then have "handlers_of s ?w = None" by (simp add: exists_handlers)
    with inv have "conn_inv ?s2" unfolding conn_inv_def h by (auto simp: less_Suc_eq)
    then show ?thesis unfolding e using h(1) [of ?w] by (intro conn_inv_goto) auto
  qed
qed

lemma conn_inv_state_get: "polite br conn_inv \<Longrightarrow> keeps conn_inv (state_get br)"
  by (rule keeps_state_get) simp_all

lemma conn_inv_loop:
  assumes "polite br conn_inv" "conn_inv s"
  shows "conn_inv (maintainLoop br s)"
proof (cases "fiberRef s")
  case None
  with assms show ?thesis by (simp add: maintainLoop_def)
next
  case (Some f)
  show ?thesis
  proof (cases f)
    case Reading
    obtain x s1 where run: "state_get br s = (x, s1)" by (cases "state_get br s") auto
    have "conn_inv s1" by (rule keepsD [OF conn_inv_state_get [OF assms(1)] assms(2) run])
    with Some Reading run show ?thesis
      by (cases x) (simp_all add: maintainLoop_def conn_inv_open_attempt conn_inv_failed conn_inv_goto)
  qed (use Some assms in \<open>simp_all add: maintainLoop_def conn_inv_goto\<close>)
qed

lemma conn_inv_resume_failure: "conn_inv s \<Longrightarrow> conn_inv (resume_failure w e s)"
  by (simp add: resume_failure_def conn_inv_failed)

lemma conn_inv_expired: "conn_inv s \<Longrightarrow> fiberRef s \<noteq> Some (Connecting w) \<Longrightarrow> handlers_of s w = Some (Attempt b) \<Longrightarrow>
    conn_inv (set_handlers w (Attempt False) s)"
  unfolding conn_inv_def by auto

lemma conn_inv_set_ready:
  assumes "conn_inv s" "r = CONNECTING \<Longrightarrow> handlers_of s w \<noteq> Some Installed"
  shows "conn_inv (set_ready w r s)"
  using assms unfolding conn_inv_def by auto

lemma conn_inv_set_ready_simps [simp]:
  "conn_inv s \<Longrightarrow> conn_inv (set_ready w OPEN s)" "conn_inv s \<Longrightarrow> conn_inv (set_ready w CLOSING s)"
  "conn_inv s \<Longrightarrow> conn_inv (set_ready w CLOSED s)"
  by (erule conn_inv_set_ready; simp)+

lemma conn_inv_socket_close: "conn_inv s \<Longrightarrow> conn_inv (socket_close w s)"
  unfolding socket_close_def by simp

lemma set_ready_set_handlers: "set_ready w r (set_handlers w h s) = set_handlers w h (set_ready w r s)"
proof (cases "mapGet (sockets s) w")
  case None
  then show ?thesis by (simp add: set_ready_def set_handlers_def)
next
  case (Some k)
  have eq: "k\<lparr>sk_handlers := h, sk_ready := r\<rparr> = k\<lparr>sk_ready := r, sk_handlers := h\<rparr>" by (rule sock.equality) simp_all
  from Some have "set_ready w r (set_handlers w h s)
      = s\<lparr>sockets := mapSet (sockets s) w (k\<lparr>sk_handlers := h, sk_ready := r\<rparr>)\<rparr>"
    by (simp add: set_ready_def set_handlers_def)
  also have "\<dots> = s\<lparr>sockets := mapSet (sockets s) w (k\<lparr>sk_ready := r, sk_handlers := h\<rparr>)\<rparr>" by (simp only: eq)
  also from Some have "\<dots> = set_handlers w h (set_ready w r s)" by (simp add: set_ready_def set_handlers_def)
  finally show ?thesis .
qed

lemma perform_set_handlers: "perform e (set_handlers w h s) = set_handlers w h (perform e s)"
  by (simp add: set_handlers_def perform_def split: option.split)

lemma socket_close_set_handlers: "socket_close w (set_handlers w h s) = set_handlers w h (socket_close w s)"
  by (simp add: socket_close_def set_ready_set_handlers perform_set_handlers)

text \<open>An attempt that ends: its handlers are spent, and its fiber, if it still waits, is released.\<close>

lemma resume_failure_eq:
  "resume_failure w e (set_handlers w h s) =
     (if fiberRef s = Some (Connecting w) then set_handlers w h (attempt_failed (throw_info e) s) else set_handlers w h s)"
  by (auto simp: resume_failure_def attempt_failed_def offer_def goto_def set_handlers_def split: option.split)

lemma conn_inv_end_attempt:
  assumes "conn_inv s" "handlers_of s w = Some (Attempt b)"
  shows "conn_inv (resume_failure w e (set_handlers w (Attempt False) s))"
proof -
  let ?s = "if fiberRef s = Some (Connecting w) then attempt_failed (throw_info e) s else s"
  have "conn_inv ?s" using assms(1) by (simp add: conn_inv_failed)
  moreover have "fiberRef ?s \<noteq> Some (Connecting w)" "handlers_of ?s w = Some (Attempt b)"
    using assms(2) by (simp_all add: attempt_failed_def)
  ultimately have "conn_inv (set_handlers w (Attempt False) ?s)" by (rule conn_inv_expired)
  then show ?thesis by (cases "fiberRef s = Some (Connecting w)") (simp_all add: resume_failure_eq)
qed

lemma conn_inv_on_error: "conn_inv s \<Longrightarrow> conn_inv (on_error w s)"
  by (auto simp: on_error_def intro: conn_inv_end_attempt split: option.split handlers.split)

lemma conn_inv_on_timeout:
  assumes "conn_inv s"
  shows "conn_inv (on_timeout w s)"
proof (cases "handlers_of s w = Some (Attempt True)")
  case True
  have swap: "socket_close w (set_handlers w h s) = set_handlers w h (socket_close w s)" for h
    by (rule socket_close_set_handlers)
  have "conn_inv (resume_failure w e (set_handlers w (Attempt False) (socket_close w s)))" for e
    by (rule conn_inv_end_attempt [OF conn_inv_socket_close [OF assms]]) (simp add: True)
  with True show ?thesis by (simp add: on_timeout_def swap)
next
  case False
  with assms show ?thesis by (simp add: on_timeout_def)
qed

lemma conn_inv_on_close:
  assumes "conn_inv s"
  shows "conn_inv (on_close w c reason s)"
proof -
  have r: "conn_inv (set_ready w CLOSED s)" using assms by simp
  have d: "conn_inv s \<Longrightarrow> conn_inv (s\<lparr>wsRef := None\<rparr>)" for s by (simp add: conn_inv_def)
  from r show ?thesis
    by (auto simp: on_close_def Let_def assms d intro!: conn_inv_end_attempt split: option.split handlers.split)
qed

lemma conn_inv_on_open:
  assumes inv: "conn_inv s"
  shows "conn_inv (on_open w s)"
proof (cases "ready_of s w = CONNECTING")
  case False
  with inv show ?thesis by (simp add: on_open_def)
next
  case True
  let ?s = "set_ready w OPEN s"
  have r: "conn_inv ?s" using inv by simp
  from True have ex: "exists_socket s w"
    by (auto simp: ready_of_def exists_socket_def split: option.splits)
  show ?thesis
  proof (cases "handlers_of s w")
    case None
    with True r show ?thesis by (simp add: on_open_def Let_def)
  next
    case (Some h)
    show ?thesis
    proof (cases h)
      case (Attempt b)
      show ?thesis
      proof (cases "fiberRef s = Some (Connecting w)")
        case True
        with \<open>ready_of s w = CONNECTING\<close> Some Attempt
        have e: "on_open w s = goto Sleeping (offer Connected
            ((set_handlers w Installed (set_handlers w (Attempt False) ?s))\<lparr>wsRef := Some w\<rparr>))"
          by (simp add: on_open_def Let_def resume_open_def)
        from r True ex show ?thesis unfolding e conn_inv_def by auto
      next
        case False
        with \<open>ready_of s w = CONNECTING\<close> Some Attempt r conn_inv_expired [of ?s w b] show ?thesis
          by (simp add: on_open_def Let_def resume_open_def)
      qed
    next
      case Installed
      with True Some r show ?thesis by (simp add: on_open_def Let_def)
    qed
  qed
qed

lemma conn_inv_on_message: "conn_inv s \<Longrightarrow> conn_inv (on_message br w dat s)"
  by (auto simp: on_message_def rawSend_def conn_inv_def split: option.split handlers.split sum.split)

lemma conn_inv_start: "conn_inv s \<Longrightarrow> conn_inv (startMaintaining s)"
  by (auto simp: startMaintaining_def conn_inv_def split: option.split)

lemma conn_inv_disconnect:
  assumes "conn_inv s"
  shows "conn_inv (disconnect s)"
proof -
  let ?s = "s\<lparr>maintainRef := False, fiberRef := None\<rparr>"
  from assms have "conn_inv ?s" by (simp add: conn_inv_def)
  then have "conn_inv (case wsRef ?s of None \<Rightarrow> ?s | Some w \<Rightarrow> socket_close w ?s)"
    by (simp add: conn_inv_socket_close split: option.split)
  then have "conn_inv (closeSocket ?s)" by (simp add: closeSocket_def conn_inv_def)
  then show ?thesis by (simp add: disconnect_def)
qed

lemma conn_inv_step: "polite br conn_inv \<Longrightarrow> conn_inv s \<Longrightarrow> conn_inv (conn_step br i s)"
  by (cases i) (simp_all add: conn_inv_start conn_inv_disconnect conn_inv_loop conn_inv_on_open conn_inv_on_error
      conn_inv_on_timeout conn_inv_on_close conn_inv_on_message)

end
