(* ===== verification/ConnectionProperties.thy ===== *)
theory ConnectionProperties
  imports ConnectionInvariant
begin

text \<open>
  The connection as the channel the other services send on, and its properties: what a send does,
  how attempts end, that the loop reconnects, that disconnecting is final until the next start, and
  two behaviours of sockets that outlive their attempt or their successor.
\<close>

section \<open>The channel\<close>

text \<open>What the services above rely on: a message is handed over once, or the sender is told.\<close>

locale message_channel =
  fixes send :: "'m \<Rightarrow> ('s, 'e, unit) eff"
    and up :: "'s \<Rightarrow> bool"
    and sent :: "'s \<Rightarrow> 'm list"
  assumes send_up: "up s \<Longrightarrow> \<exists>s'. send m s = (Success (), s') \<and> sent s' = sent s @ [m] \<and> up s'"
    and send_down: "\<not> up s \<Longrightarrow> \<exists>e. send m s = (Failure e, s)"
begin

text \<open>A handler that computes a message, sends it and swallows every failure.\<close>

lemma reply_once:
  assumes "m s = (Success r, s')" "up s'"
  shows "\<exists>s''. eff_catch (eff_bind m send) (\<lambda>_. eff_succeed ()) s = (Success (), s'') \<and> sent s'' = sent s' @ [r]"
proof -
  from send_up [OF assms(2), of r] obtain s'' where "send r s' = (Success (), s'')" "sent s'' = sent s' @ [r]" by blast
  with assms(1) show ?thesis by simp
qed

lemma reply_lost:
  assumes "m s = (Success r, s')" "\<not> up s'"
  shows "eff_catch (eff_bind m send) (\<lambda>_. eff_succeed ()) s = (Success (), s')"
proof -
  from send_down [OF assms(2), of r] obtain e where "send r s' = (Failure e, s')" by blast
  with assms(1) show ?thesis by simp
qed

lemma send_outcomes:
  obtains s' where "send m s = (Success (), s')" "sent s' = sent s @ [m]" "up s"
  | e where "send m s = (Failure e, s)" "\<not> up s"
  using send_up [of s m] send_down [of s m] by (cases "up s") blast+

end

definition sent_messages :: "ext \<Rightarrow> js list" where
  "sent_messages s = concat (map (\<lambda>e. case e of SocketSend w m \<Rightarrow> [m] | _ \<Rightarrow> []) (effects s))"

definition can_send :: "browser \<Rightarrow> ext \<Rightarrow> bool" where
  "can_send br s \<longleftrightarrow> isConnected s \<and> socket_send br (the (wsRef s)) = None"

lemma isConnected_perform [simp]: "isConnected (perform e s) = isConnected s"
  by (simp add: isConnected_def split: option.split)

lemma can_send_perform [simp]: "can_send br (perform e s) = can_send br s"
  by (simp add: can_send_def)

lemma sent_messages_perform [simp]:
  "sent_messages (perform e s) = sent_messages s @ (case e of SocketSend w m \<Rightarrow> [m] | _ \<Rightarrow> [])"
  by (simp add: sent_messages_def)

lemma conn_send_up:
  assumes "can_send br s"
  shows "conn_send br m s = (Success (), perform (SocketSend (the (wsRef s)) m) s)"
proof -
  from assms obtain w where "wsRef s = Some w" "isConnected s" "socket_send br w = None"
    by (auto simp: can_send_def isConnected_def split: option.splits)
  then show ?thesis by (simp add: conn_send_def eff_bind_run rawSend_def)
qed

lemma conn_send_down:
  assumes "\<not> can_send br s"
  shows "\<exists>e. conn_send br m s = (Failure e, s)"
  using assms by (auto simp: can_send_def conn_send_def eff_bind_run rawSend_def isConnected_def split: option.split)

interpretation conn: message_channel "conn_send br" "can_send br" sent_messages for br
  by unfold_locales (simp_all add: conn_send_up conn_send_down)

interpretation conn_machine: machine "conn_step br" "\<lambda>s. \<exists>st0. s = ext_init st0"
    "\<lambda>s. polite br conn_inv \<longrightarrow> conn_inv s" for br
  by unfold_locales (auto simp: conn_inv_init conn_inv_step)

definition conn_run :: "browser \<Rightarrow> (string, js) jmap \<Rightarrow> conn_input list \<Rightarrow> ext" where
  "conn_run br st0 ins = run_events (conn_step br) ins (ext_init st0)"

lemma conn_run_inv: "polite br conn_inv \<Longrightarrow> conn_inv (conn_run br st0 ins)"
  using conn_machine.inv_reachable [of "ext_init st0" br ins] by (auto simp: conn_run_def)

lemma quiet_polite: "polite quiet_browser P"
  by (simp add: polite_def quiet_browser_def)


section \<open>Properties\<close>




lemma exists_connecting: "ready_of s w = CONNECTING \<Longrightarrow> exists_socket s w"
  by (auto simp: ready_of_def exists_socket_def split: option.splits)

lemma url_of_same [simp]:
  "url_of (set_ready v r s) w = url_of s w" "url_of (set_handlers v h s) w = url_of s w"
  by (simp_all add: url_of_def set_ready_def set_handlers_def split: option.split)

lemma info_message [simp]: "errorToMessage (throw_info (createExtensionErrorInfo c m (Some (Obj ps)) None)) = m"
  by (subst errorToMessage_info) (simp_all add: createExtensionErrorInfo_ok)

text \<open>
  C21. However an attempt ends, the loop goes on: each of the four events of the socket the fiber
  waits for (open, error, timeout, close) releases it to its sleep. An opening makes the socket the
  current one, with the permanent handlers, and reports \<open>Connected\<close>; the others leave the current
  socket alone and report \<open>Disconnected\<close> with the message of their error; a timeout also closes the
  socket.
\<close>
theorem attempt_always_ends:
  assumes "fiberRef s = Some (Connecting w)" "handlers_of s w = Some (Attempt True)" "ready_of s w = CONNECTING"
  shows "(let s' = on_open w s in fiberRef s' = Some Sleeping \<and> wsRef s' = Some w \<and> isConnected s'
        \<and> handlers_of s' w = Some Installed \<and> eventsQ s' = eventsQ s @ [Connected])
    \<and> (let s' = on_error w s in fiberRef s' = Some Sleeping \<and> wsRef s' = wsRef s
        \<and> eventsQ s' = eventsQ s @ [Disconnected (Some (''WebSocket connection failed for '' @ url_of s w))])
    \<and> (let s' = on_timeout w s in fiberRef s' = Some Sleeping \<and> wsRef s' = wsRef s \<and> ready_of s' w = CLOSING
        \<and> eventsQ s' = eventsQ s @ [Disconnected (Some (''Timed out connecting to relay at '' @ url_of s w))])
    \<and> (let s' = on_close w c reason s in fiberRef s' = Some Sleeping \<and> wsRef s' = wsRef s
        \<and> eventsQ s' = eventsQ s @ [Disconnected (Some (''WebSocket closed while connecting to '' @ url_of s w))])"
proof (intro conjI)
  note ex = exists_connecting [OF assms(3)]
  show "let s' = on_open w s in fiberRef s' = Some Sleeping \<and> wsRef s' = Some w \<and> isConnected s'
        \<and> handlers_of s' w = Some Installed \<and> eventsQ s' = eventsQ s @ [Connected]"
    using assms ex by (simp add: on_open_def resume_open_def isConnected_def Let_def)
  show "let s' = on_error w s in fiberRef s' = Some Sleeping \<and> wsRef s' = wsRef s
        \<and> eventsQ s' = eventsQ s @ [Disconnected (Some (''WebSocket connection failed for '' @ url_of s w))]"
    using assms by (simp add: on_error_def resume_failure_def attempt_failed_def Let_def)
  show "let s' = on_timeout w s in fiberRef s' = Some Sleeping \<and> wsRef s' = wsRef s \<and> ready_of s' w = CLOSING
        \<and> eventsQ s' = eventsQ s @ [Disconnected (Some (''Timed out connecting to relay at '' @ url_of s w))]"
    using assms by (simp add: on_timeout_def resume_failure_def attempt_failed_def ready_socket_close Let_def)
  show "let s' = on_close w c reason s in fiberRef s' = Some Sleeping \<and> wsRef s' = wsRef s
        \<and> eventsQ s' = eventsQ s @ [Disconnected (Some (''WebSocket closed while connecting to '' @ url_of s w))]"
    using assms by (simp add: on_close_def resume_failure_def attempt_failed_def Let_def)
qed

lemmas demo_conn = ext_init_def conn_run_def startMaintaining_def maintainLoop_def open_attempt_def goto_def
  perform_def isConnected_def Let_def

lemma demo_attempt:
  "conn_run quiet_browser [] [Start, FiberRuns, FiberRuns] = \<lparr>storageLocal = [], tabsRef = [], wsRef = None,
     maintainRef = True, fiberRef = Some (Connecting 0),
     sockets = [(0, \<lparr>sk_ready = CONNECTING, sk_url = ''ws://127.0.0.1:9111/extension'', sk_handlers = Attempt True\<rparr>)],
     nextSocket = 1, messagesQ = [], eventsQ = [], effects = [SocketNew 0 ''ws://127.0.0.1:9111/extension'']\<rparr>"
proof -
  have g: "state_get quiet_browser ((ext_init [])\<lparr>maintainRef := True, fiberRef := Some Reading\<rparr>)
      = (Success \<lparr>st_isActive = Bool False, st_port = Num (Fin 9111)\<rparr>,
         (ext_init [])\<lparr>maintainRef := True, fiberRef := Some Reading\<rparr>)"
    by (simp add: state_get_def quiet_browser_def eff_mapError_def eff_catch_run eff_bind_run eff_call_run
        stored_def ext_init_def DEFAULT_PORT_def)
  have u: "getRelayUrl (Num (Fin 9111)) = ''ws://127.0.0.1:9111/extension''"
    by (simp add: getRelayUrl_def int_text_def num_eval)
  have n: "newWebSocket quiet_browser x = None" for x by (simp add: quiet_browser_def)
  show ?thesis
    using g u n by (simp add: demo_conn mapSet_def)
qed

theorem attempt_always_ends_witness:
  "isConnected (on_open 0 (conn_run quiet_browser [] [Start, FiberRuns, FiberRuns]))"
  using attempt_always_ends [of "conn_run quiet_browser [] [Start, FiberRuns, FiberRuns]" 0]
  by (simp add: demo_attempt handlers_of_def ready_of_def mapGet_def Let_def)

lemma migrated_cong: "storageLocal s' = storageLocal s \<Longrightarrow> migrated s' = migrated s"
  by (simp add: migrated_def stored_def)

lemma url_of_new:
  "url_of (s\<lparr>sockets := mapSet m w \<lparr>sk_ready = r, sk_url = u, sk_handlers = h\<rparr>, nextSocket := n\<rparr>) w = u"
  by (simp add: url_of_def)

text \<open>
  C20. The loop reconnects: while the connection is maintained and down, the sleeping fiber's next
  three steps open a socket to the port the storage holds, and when that socket opens the
  connection is up again on it, and has said so.
\<close>
theorem loop_reconnects:
  assumes br: "storage_ok br" "\<forall>u. newWebSocket br u = None"
    and s: "fiberRef s = Some Sleeping" "maintainRef s" "\<not> isConnected s"
  shows "let w = nextSocket s; s' = run_events (conn_step br) [FiberRuns, FiberRuns, FiberRuns, SockOpens w] s
    in isConnected s' \<and> wsRef s' = Some w \<and> url_of s' w = getRelayUrl (st_port (migrated s))
      \<and> fiberRef s' = Some Sleeping \<and> eventsQ s' = eventsQ s @ [Connected]"
proof -
  let ?w = "nextSocket s" and ?s2 = "s\<lparr>fiberRef := Some Reading\<rparr>"
  have 1: "maintainLoop br s = s\<lparr>fiberRef := Some AtTop\<rparr>" using s by (simp add: maintainLoop_def goto_def)
  have "isConnected (s\<lparr>fiberRef := Some AtTop\<rparr>) = isConnected s" by (simp add: isConnected_def split: option.split)
  then have 2: "maintainLoop br (s\<lparr>fiberRef := Some AtTop\<rparr>) = ?s2" using s by (simp add: maintainLoop_def goto_def)
  obtain s' where g: "state_get br ?s2 = (Success (migrated ?s2), s')" "fiberRef s' = Some Reading"
    "nextSocket s' = ?w" "eventsQ s' = eventsQ s" "wsRef s' = wsRef s" "sockets s' = sockets s"
    by (rule state_get_total [OF br(1), of ?s2]) simp
  have m: "migrated ?s2 = migrated s" by (rule migrated_cong) simp
  let ?url = "getRelayUrl (st_port (migrated s))"
  let ?k = "\<lparr>sk_ready = CONNECTING, sk_url = ?url, sk_handlers = Attempt True\<rparr>"
  define s3 where "s3 = maintainLoop br ?s2"
  have s3: "s3 = (perform (SocketNew ?w ?url) s')
      \<lparr>sockets := mapSet (sockets s') ?w ?k, nextSocket := Suc ?w, fiberRef := Some (Connecting ?w)\<rparr>"
    using g br(2) by (simp add: s3_def maintainLoop_def open_attempt_def m goto_def Let_def)
  have f: "fiberRef s3 = Some (Connecting ?w)" "handlers_of s3 ?w = Some (Attempt True)" "ready_of s3 ?w = CONNECTING"
    "exists_socket s3 ?w" "url_of s3 ?w = ?url" "eventsQ s3 = eventsQ s"
    by (simp_all add: s3 handlers_of_def ready_of_def exists_socket_def url_of_def g)
  have "run_events (conn_step br) [FiberRuns, FiberRuns, FiberRuns, SockOpens ?w] s = on_open ?w s3"
    by (simp add: 1 2 s3_def)
  moreover have "on_open ?w s3 = goto Sleeping (offer Connected
      ((set_handlers ?w Installed (set_handlers ?w (Attempt False) (set_ready ?w OPEN s3)))\<lparr>wsRef := Some ?w\<rparr>))"
    using f by (simp add: on_open_def resume_open_def Let_def)
  moreover have "url_of (goto g (offer e (t\<lparr>wsRef := x\<rparr>))) v = url_of t v" for g e t x v
    by (simp add: url_of_def)
  ultimately show ?thesis
    using f by (simp add: Let_def isConnected_def)
qed

theorem loop_reconnects_witness:
  "isConnected (run_events (conn_step quiet_browser) [FiberRuns, FiberRuns, FiberRuns, SockOpens 0]
     ((ext_init [])\<lparr>fiberRef := Some Sleeping, maintainRef := True\<rparr>))"
proof -
  let ?s = "(ext_init [])\<lparr>fiberRef := Some Sleeping, maintainRef := True\<rparr>"
  have q: "\<forall>u. newWebSocket quiet_browser u = None" by (simp add: quiet_browser_def)
  have f: "fiberRef ?s = Some Sleeping" "maintainRef ?s" "\<not> isConnected ?s" "nextSocket ?s = 0"
    by (simp_all add: ext_init_def isConnected_def)
  from loop_reconnects [OF quiet_storage q f(1-3)] show ?thesis unfolding Let_def f(4) by blast
qed

text \<open>No loop, no socket: the state a disconnect leaves.\<close>

definition idle :: "ext \<Rightarrow> bool" where
  "idle s \<longleftrightarrow> wsRef s = None \<and> fiberRef s = None \<and> \<not> maintainRef s"

lemma resume_failure_idle [simp]: "fiberRef s = None \<Longrightarrow> resume_failure w e s = s"
  by (simp add: resume_failure_def)

lemma idle_step: "idle s \<Longrightarrow> i \<noteq> Start \<Longrightarrow> idle (conn_step br i s) \<and> nextSocket (conn_step br i s) = nextSocket s"
  by (cases i)
     (auto simp: idle_def disconnect_def closeSocket_def maintainLoop_def on_open_def on_error_def on_timeout_def
        on_close_def on_message_def resume_open_def rawSend_def Let_def split: option.split handlers.split sum.split)

lemma idle_run: "idle s \<Longrightarrow> Start \<notin> set ins \<Longrightarrow>
    idle (run_events (conn_step br) ins s) \<and> nextSocket (run_events (conn_step br) ins s) = nextSocket s"
proof (induction ins arbitrary: s)
  case (Cons i ins)
  then have "idle (conn_step br i s)" "nextSocket (conn_step br i s) = nextSocket s"
    using idle_step [of s i br] by auto
  with Cons show ?case by simp
qed simp

text \<open>
  C19. Disconnecting is complete and final. At once: the loop's fiber is gone, the current socket has
  been closed and let go, and a \<open>Disconnected\<close> event with reason \<open>manual\<close> is queued. From then on,
  whatever the sockets still do (an attempt under way may yet open), nothing reconnects: until the
  next start there is no current socket and no new one is made.
\<close>
theorem disconnect_is_final:
  assumes "Start \<notin> set ins"
  shows "eventsQ (disconnect s) = eventsQ s @ [Disconnected (Some ''manual'')]
    \<and> (\<forall>w. wsRef s = Some w \<longrightarrow> ready_of (disconnect s) w \<notin> {CONNECTING, OPEN}
          \<and> effects (disconnect s) = effects s @ [SocketShut w])
    \<and> (let s' = run_events (conn_step br) ins (disconnect s) in
        \<not> isConnected s' \<and> wsRef s' = None \<and> fiberRef s' = None \<and> \<not> maintainRef s' \<and> nextSocket s' = nextSocket s)"
proof -
  have "idle (disconnect s)" "nextSocket (disconnect s) = nextSocket s"
    by (auto simp: idle_def disconnect_def closeSocket_def split: option.split)
  with idle_run [OF _ assms, of "disconnect s" br]
  have "let s' = run_events (conn_step br) ins (disconnect s) in
        \<not> isConnected s' \<and> wsRef s' = None \<and> fiberRef s' = None \<and> \<not> maintainRef s' \<and> nextSocket s' = nextSocket s"
    by (simp add: idle_def isConnected_def Let_def)
  moreover have "eventsQ (disconnect s) = eventsQ s @ [Disconnected (Some ''manual'')]"
    by (simp add: disconnect_def closeSocket_def split: option.split)
  moreover have "ready_of (disconnect s) w \<notin> {CONNECTING, OPEN} \<and> effects (disconnect s) = effects s @ [SocketShut w]"
    if "wsRef s = Some w" for w
    using that by (auto simp: disconnect_def closeSocket_def ready_socket_close) (auto simp: socket_close_def)
  ultimately show ?thesis by blast
qed

theorem disconnect_is_final_witness:
  "\<not> isConnected (run_events (conn_step quiet_browser) [FiberRuns, SockOpens 0]
      (disconnect (conn_run quiet_browser [] [Start, FiberRuns, FiberRuns])))"
  using disconnect_is_final [of "[FiberRuns, SockOpens 0]" "conn_run quiet_browser [] [Start, FiberRuns, FiberRuns]"
      quiet_browser]
  by (simp add: Let_def)

lemma conn_run_append: "conn_run br st0 (xs @ ys) = run_events (conn_step br) ys (conn_run br st0 xs)"
  by (simp add: conn_run_def run_events_append)

text \<open>
  The close handler does not ask whether its socket is still the current one: when a socket that
  was replaced closes late, the connection forgets the newer socket although that one is open, and
  reports \<open>Disconnected\<close>; sends fail from then on.
\<close>
theorem stale_close_drops_current:
  assumes "wsRef s = Some w" "ready_of s w = OPEN" "handlers_of s v = Some Installed" "v \<noteq> w" "ready_of s v \<noteq> CLOSED"
  shows "let s' = on_close v c reason s in
    ready_of s' w = OPEN \<and> handlers_of s' w = handlers_of s w \<and> wsRef s' = None \<and> \<not> isConnected s'
    \<and> eventsQ s' = eventsQ s @ [Disconnected (Some (if reason \<noteq> [] then reason else nat_text c))]
    \<and> (\<exists>e. conn_send br m s' = (Failure e, s'))"
proof -
  let ?s' = "on_close v c reason s"
  have "ready_of ?s' w = OPEN" "handlers_of ?s' w = handlers_of s w" "wsRef ?s' = None"
    "eventsQ ?s' = eventsQ s @ [Disconnected (Some (if reason \<noteq> [] then reason else nat_text c))]"
    using assms by (simp_all add: on_close_def Let_def)
  moreover from this(3) have d: "\<not> isConnected ?s'" by (simp add: isConnected_def)
  moreover from d have "\<exists>e. conn_send br m ?s' = (Failure e, ?s')" by (intro conn_send_down) (simp add: can_send_def)
  ultimately show ?thesis by (simp add: Let_def)
qed

text \<open>A run that switches the extension off and on again before the first socket has closed.\<close>

definition demo_replaced :: ext where
  "demo_replaced = conn_run quiet_browser []
     ([Start, FiberRuns, FiberRuns] @ [SockOpens 0, Disconnect, Start, FiberRuns, FiberRuns, SockOpens 1])"

lemma demo_replaced_state:
  "wsRef demo_replaced = Some 1" "ready_of demo_replaced 1 = OPEN" "handlers_of demo_replaced 0 = Some Installed"
  "ready_of demo_replaced 0 = CLOSING" "tabsRef demo_replaced = []"
proof -
  have g: "state_get quiet_browser s = (Success \<lparr>st_isActive = Bool False, st_port = Num (Fin 9111)\<rparr>, s)"
    if "storageLocal s = []" for s
    using that by (simp add: state_get_def quiet_browser_def eff_mapError_def eff_catch_run eff_bind_run eff_call_run
        stored_def DEFAULT_PORT_def)
  have n: "newWebSocket quiet_browser x = None" for x by (simp add: quiet_browser_def)
  note e = demo_replaced_def [unfolded conn_run_append demo_attempt]
  note defs = on_open_def resume_open_def handlers_of_def ready_of_def
    mapGet_def set_ready_def set_handlers_def mapSet_def goto_def offer_def disconnect_def closeSocket_def
    socket_close_def startMaintaining_def maintainLoop_def isConnected_def open_attempt_def perform_def g n Let_def
  show "wsRef demo_replaced = Some 1" "ready_of demo_replaced 1 = OPEN" "handlers_of demo_replaced 0 = Some Installed"
    "ready_of demo_replaced 0 = CLOSING" "tabsRef demo_replaced = []"
    unfolding e by (simp_all add: defs)
qed

theorem stale_close_drops_current_witness:
  "wsRef (on_close 0 1005 [] demo_replaced) = None \<and> ready_of (on_close 0 1005 [] demo_replaced) 1 = OPEN"
proof -
  have "(0::nat) \<noteq> 1" "ready_of demo_replaced 0 \<noteq> CLOSED" by (simp_all add: demo_replaced_state)
  from stale_close_drops_current [OF demo_replaced_state(1,2,3) this, of 1005 "[]"] show ?thesis
    by (simp add: Let_def)
qed

text \<open>
  Interrupting an attempt does not close its socket: when a disconnect interrupts the fiber while
  the socket is still connecting and the socket opens later, it stays open, it is nobody's current
  socket, and every frame that arrives on it is dropped without an answer.
\<close>
theorem interrupted_attempt_leaves_socket:
  assumes "ready_of s w = CONNECTING" "handlers_of s w = Some (Attempt b)" "wsRef s \<noteq> Some w"
  shows "let s' = on_open w (disconnect s) in
    ready_of s' w = OPEN \<and> wsRef s' = None \<and> handlers_of s' w = Some (Attempt False)
    \<and> on_message br w dat s' = s' \<and> on_timeout w s' = s'"
proof -
  let ?d = "disconnect s"
  have d: "ready_of ?d w = CONNECTING" "handlers_of ?d w = Some (Attempt b)" "wsRef ?d = None" "fiberRef ?d = None"
    using assms by (auto simp: disconnect_def closeSocket_def ready_socket_close split: option.split)
  note ex = exists_connecting [OF d(1)]
  have o: "on_open w ?d = set_handlers w (Attempt False) (set_ready w OPEN ?d)"
    using d by (simp add: on_open_def resume_open_def Let_def)
  have "handlers_of (on_open w ?d) w = Some (Attempt False)" using ex by (simp add: o)
  then show ?thesis
    using d ex by (simp add: o Let_def on_message_def on_timeout_def)
qed

theorem interrupted_attempt_leaves_socket_witness:
  "ready_of (on_open 0 (disconnect (conn_run quiet_browser [] [Start, FiberRuns, FiberRuns]))) 0 = OPEN"
  using interrupted_attempt_leaves_socket [of "conn_run quiet_browser [] [Start, FiberRuns, FiberRuns]" 0 True
      quiet_browser "[]"]
  by (simp add: demo_attempt handlers_of_def ready_of_def mapGet_def Let_def)

end
