(* ===== verification/TabRegistry.thy ===== *)
theory TabRegistry
  imports ConnectionProperties
begin

text \<open>
  The tab registry of the extension, \<open>extension/services/tab.ts\<close>: which tabs the debugger is
  attached to, attaching and detaching with the events the relay is told, finding and creating
  tabs, and the dispatch of the relay's tab commands.
\<close>

section \<open>The registry\<close>

definition tab_get :: "(jsnum, js) jmap \<Rightarrow> jsnum \<Rightarrow> js" where
  "tab_get tabs tabId = (case mapGet tabs tabId of None \<Rightarrow> Undefined | Some v \<Rightarrow> v)"

definition setTargetId :: "jsnum \<Rightarrow> js \<Rightarrow> unit ext_eff" where
  "setTargetId tabId targetId = eff_modify (\<lambda>s. s\<lparr>tabsRef := mapSet (tabsRef s) tabId targetId\<rparr>)"

definition deleteTab :: "jsnum \<Rightarrow> unit ext_eff" where
  "deleteTab tabId = eff_modify (\<lambda>s. s\<lparr>tabsRef := mapDelete (tabsRef s) tabId\<rparr>)"

definition getTargetId :: "jsnum \<Rightarrow> js ext_eff" where
  "getTargetId tabId = eff_gets (\<lambda>s. tab_get (tabsRef s) tabId)"

definition has_tab :: "jsnum \<Rightarrow> bool ext_eff" where
  "has_tab tabId = eff_gets (\<lambda>s. mapHas (tabsRef s) tabId)"

definition tab_details :: "jsnum \<Rightarrow> js option" where
  "tab_details tabId = Some (Obj [(''tabId'', Num tabId)])"

definition attached_event :: "js \<Rightarrow> js \<Rightarrow> js" where
  "attached_event targetId targetInfo = Obj [(''method'', Str ''forwardCDPEvent''), (''params'', Obj [
     (''targetId'', targetId), (''method'', Str ''Target.attachedToTarget''),
     (''params'', Obj [(''targetInfo'', targetInfo), (''waitingForDebugger'', Bool False)])])]"

definition detached_event :: "js \<Rightarrow> js" where
  "detached_event targetId = Obj [(''method'', Str ''forwardCDPEvent''), (''params'', Obj [
     (''method'', Str ''Target.detachedFromTarget''), (''targetId'', targetId),
     (''params'', Obj [(''targetId'', targetId)])])]"

definition debuggee :: "jsnum \<Rightarrow> js" where
  "debuggee tabId = Obj [(''tabId'', Num tabId)]"

text \<open>\<open>attach\<close>; its result is the target info (the source wraps it in an object of one property).\<close>

definition attach :: "browser \<Rightarrow> jsnum \<Rightarrow> js ext_eff" where
  "attach br tabId =
     eff_then (eff_mapError (\<lambda>error. throw_info (createExtensionErrorInfo ''DEBUGGER_ATTACH_FAILED''
         (''Failed to attach debugger to tab '' @ num_text tabId) (tab_details tabId) (Some error)))
       (calling (CallAttach tabId) (debugger_attach br tabId)))
     (eff_bind (eff_mapError (\<lambda>error. throw_info (createExtensionErrorInfo ''TARGET_INFO_LOOKUP_FAILED''
         (''Failed to get TargetInfo for tab '' @ num_text tabId) (tab_details tabId) (Some error)))
       (calling (CallCommand (debuggee tabId) ''Target.getTargetInfo'' Undefined)
          (debugger_sendCommand br (debuggee tabId) ''Target.getTargetInfo'' Undefined))) (\<lambda>result.
      if result = Undefined \<or> result = Null then eff_die (typeError br)
      else
        let targetInfo = js_get result ''targetInfo''; targetId = js_get targetInfo ''targetId'' in
        if \<not> is_str targetId \<or> the_str targetId = [] then
          fail_info (createExtensionErrorInfo ''INVALID_TARGET_INFO''
            (''Target.getTargetInfo returned no targetId for tab '' @ num_text tabId) (tab_details tabId) None)
        else
          eff_then (setTargetId tabId targetId)
          (eff_then (conn_send br (attached_event targetId
              (Obj (spread (spread [] (entries targetInfo)) [(''attached'', Bool True)]))))
            (eff_succeed targetInfo))))"

definition countOpenTabs :: "browser \<Rightarrow> js ext_eff" where
  "countOpenTabs br = eff_mapError (unknownException br)
     (eff_map (\<lambda>tabs. Num (num_of_nat (length tabs))) (eff_call (tabs_query br (Obj []))))"

definition getActiveTabId :: "browser \<Rightarrow> jsnum ext_eff" where
  "getActiveTabId br = eff_bind
     (eff_mapError (\<lambda>e. newError (''Failed to query active tab: '' @ errorToMessage e))
       (eff_call (tabs_query br (Obj [(''active'', Bool True), (''lastFocusedWindow'', Bool True)]))))
     (\<lambda>activeTabs. case activeTabs of
         activeTab # _ \<Rightarrow>
           if truthy activeTab \<and> is_num (js_get activeTab ''id'') then eff_succeed (the_num (js_get activeTab ''id''))
           else fail_info (createExtensionErrorInfo ''NO_ACTIVE_TAB'' ''No active tab found'' None None)
       | [] \<Rightarrow> fail_info (createExtensionErrorInfo ''NO_ACTIVE_TAB'' ''No active tab found'' None None))"

text \<open>\<open>ActiveTarget\<close>.\<close>

definition active_target :: "jsnum \<Rightarrow> js \<Rightarrow> js" where
  "active_target tabId targetId = Obj [(''tabId'', Num tabId), (''targetId'', targetId)]"

definition attached_target :: "jsnum \<Rightarrow> js \<Rightarrow> bool" where
  "attached_target tabId t \<longleftrightarrow> tabId \<noteq> NaN \<and> js_get t ''tabId'' = Num tabId \<and> truthy (js_get t ''attached'')"

text \<open>A target the debugger is already attached to is registered and announced.\<close>

definition adopt_target :: "browser \<Rightarrow> jsnum \<Rightarrow> js \<Rightarrow> js ext_eff" where
  "adopt_target br tabId existing = (
     let targetId = js_get existing ''id'';
         targetInfo = Obj [(''targetId'', targetId), (''type'', js_get existing ''type''),
           (''title'', js_get existing ''title''), (''url'', js_get existing ''url''), (''attached'', Bool True)]
     in eff_then (setTargetId tabId targetId)
        (eff_then (conn_send br (attached_event targetId targetInfo))
          (eff_succeed (active_target tabId targetId))))"

definition ensureAttached :: "browser \<Rightarrow> jsnum \<Rightarrow> js ext_eff" where
  "ensureAttached br tabId = eff_bind (getTargetId tabId) (\<lambda>existingTargetId.
     if truthy existingTargetId then eff_succeed (active_target tabId existingTargetId)
     else eff_bind (eff_mapError (\<lambda>e. newError (''Failed to query debugger targets: '' @ errorToMessage e))
         (eff_call (debugger_getTargets br))) (\<lambda>targets.
       case find (attached_target tabId) targets of
         Some existing \<Rightarrow> adopt_target br tabId existing
       | None \<Rightarrow> eff_map (\<lambda>targetInfo. active_target tabId (js_get targetInfo ''targetId'')) (attach br tabId)))"

definition getActiveTargetId :: "browser \<Rightarrow> js ext_eff" where
  "getActiveTargetId br = eff_bind (getActiveTabId br) (ensureAttached br)"

text \<open>A debugger detach whose failure is ignored.\<close>

definition detach_debugger :: "browser \<Rightarrow> jsnum \<Rightarrow> unit ext_eff" where
  "detach_debugger br tabId = eff_catch
     (eff_mapError (unknownException br) (calling (CallDetach tabId) (debugger_detach br tabId)))
     (\<lambda>_. eff_succeed ())"

definition detach :: "browser \<Rightarrow> jsnum \<Rightarrow> bool \<Rightarrow> unit ext_eff" where
  "detach br tabId shouldDetachDebugger = eff_bind (getTargetId tabId) (\<lambda>targetId.
     if \<not> truthy targetId then eff_succeed ()
     else eff_then (conn_send br (detached_event targetId))
       (eff_then (deleteTab tabId)
         (if shouldDetachDebugger then detach_debugger br tabId else eff_succeed ())))"

definition handleDebuggerDetach :: "jsnum \<Rightarrow> unit ext_eff" where
  "handleDebuggerDetach tabId = eff_bind (getTargetId tabId) (\<lambda>targetId.
     if \<not> truthy targetId then eff_succeed () else deleteTab tabId)"

text \<open>A created tab without an id is thrown inside the generator: a defect, not a failure.\<close>

definition createTab :: "browser \<Rightarrow> string \<Rightarrow> js ext_eff" where
  "createTab br url = eff_bind
     (eff_mapError (\<lambda>e. newError (''Failed to create tab: '' @ errorToMessage e))
       (calling (CallCreate url) (tabs_create br (Obj [(''url'', Str url), (''active'', Bool False)]))))
     (\<lambda>tab. if tab = Undefined \<or> tab = Null then eff_die (typeError br)
        else if \<not> is_num (js_get tab ''id'') then eff_die (newError ''Created tab has no id'')
        else ensureAttached br (the_num (js_get tab ''id'')))"

fun detach_each :: "browser \<Rightarrow> jsnum list \<Rightarrow> unit ext_eff" where
  "detach_each br [] = eff_succeed ()"
| "detach_each br (tabId # tabIds) = eff_then (detach_debugger br tabId) (detach_each br tabIds)"

definition detachAll :: "browser \<Rightarrow> unit ext_eff" where
  "detachAll br = eff_bind (eff_gets (\<lambda>s. mapKeys (tabsRef s))) (\<lambda>tabIds.
     eff_then (detach_each br tabIds) (eff_modify (\<lambda>s. s\<lparr>tabsRef := []\<rparr>)))"

definition tab_handleCommand :: "browser \<Rightarrow> ext_command \<Rightarrow> js ext_eff" where
  "tab_handleCommand br msg = (
     let method = cmd_params_method msg in
     if cmd_method msg \<noteq> ''tab'' then eff_succeed Undefined
     else if method = ''countTabs'' \<or> method = ''tab.countTabs'' then countOpenTabs br
     else if method = ''getActiveTargetId'' \<or> method = ''tab.getActiveTargetId'' then
       eff_map (\<lambda>result. js_get result ''targetId'') (getActiveTargetId br)
     else if method = ''getActiveTarget'' \<or> method = ''tab.getActiveTarget'' then getActiveTargetId br
     else if method = ''createTab'' \<or> method = ''tab.createTab'' then
       let url = js_get (cmd_params_params msg) ''url'' in
       if is_str url \<and> the_str url \<noteq> [] then createTab br (the_str url)
       else fail_info (createExtensionErrorInfo ''INVALID_CREATE_TAB_URL''
              (''tab.createTab requires a non-empty '' @ [CHR 0x27] @ ''url'' @ [CHR 0x27] @ '' param'') None None)
     else fail_info (createExtensionErrorInfo ''UNKNOWN_TAB_METHOD'' (''Unknown tab method: '' @ method)
            (Some (Obj [(''method'', Str method)])) None))"

end
