(* ===== verification/CdpRouter.thy ===== *)
theory CdpRouter
  imports TabRegistry
begin

text \<open>
  The CDP router of the extension, \<open>extension/services/cdp.ts\<close>: commands go to the debugger of the
  target they name, debugger events go to the relay under the target they belong to.
\<close>

definition target_info_js :: "js \<Rightarrow> js" where
  "target_info_js t = Obj [(''targetId'', js_get t ''id''), (''type'', js_get t ''type''),
     (''title'', js_get t ''title''), (''url'', js_get t ''url''), (''attached'', js_get t ''attached'')]"

definition cdp_handleCommand :: "browser \<Rightarrow> ext_command \<Rightarrow> js ext_eff" where
  "cdp_handleCommand br msg = (
     let method = cmd_params_method msg in
     if cmd_method msg \<noteq> ''cdp'' then eff_succeed Undefined
     else if method = ''Target.getTargets'' then
       eff_map (\<lambda>targets. Obj [(''targetInfos'', Arr (map target_info_js targets))])
         (eff_mapError (\<lambda>error. throw_info (createExtensionErrorInfo ''CDP_GET_TARGETS_FAILED''
             ''Failed to query Chrome debugger targets'' None (Some error)))
           (eff_call (debugger_getTargets br)))
     else case cmd_params_targetId msg of
         None \<Rightarrow> fail_info (createExtensionErrorInfo ''MISSING_TARGET_ID''
             (''CDP method '' @ method @ '' requires a targetId'') (Some (Obj [(''method'', Str method)])) None)
       | Some targetId \<Rightarrow>
           if targetId = [] then fail_info (createExtensionErrorInfo ''MISSING_TARGET_ID''
             (''CDP method '' @ method @ '' requires a targetId'') (Some (Obj [(''method'', Str method)])) None)
           else
             eff_mapError (\<lambda>error. throw_info (createExtensionErrorInfo ''CDP_COMMAND_FAILED''
                 (''CDP command '' @ method @ '' failed for target '' @ targetId)
                 (Some (Obj [(''method'', Str method), (''targetId'', Str targetId)])) (Some error)))
               (calling (CallCommand (Obj [(''targetId'', Str targetId)]) method (cmd_params_params msg))
                 (debugger_sendCommand br (Obj [(''targetId'', Str targetId)]) method (cmd_params_params msg))))"

definition cdp_event :: "js \<Rightarrow> string \<Rightarrow> js \<Rightarrow> js" where
  "cdp_event targetId method params = Obj [(''method'', Str ''forwardCDPEvent''), (''params'', Obj [
     (''targetId'', targetId), (''method'', Str method), (''params'', params)])]"

definition handleDebuggerEvent :: "browser \<Rightarrow> js \<Rightarrow> string \<Rightarrow> js \<Rightarrow> unit ext_eff" where
  "handleDebuggerEvent br source method params = eff_bind
     (if truthy (js_get source ''tabId'') then getTargetId (the_num (js_get source ''tabId''))
      else eff_succeed Undefined) (\<lambda>tabTargetId.
     let effectiveTargetId = nullish (js_get source ''targetId'') tabTargetId in
     if \<not> truthy effectiveTargetId then eff_succeed ()
     else conn_send br (cdp_event effectiveTargetId method params))"

end
