(* ===== verification/Background.thy ===== *)
theory Background
  imports CdpRouter
begin

text \<open>
  The background script of the extension, \<open>extension/entrypoints/background.ts\<close>: requests of the
  popup, switching the extension on and off, the relay's commands and the answers to them, the
  browser's tab and debugger events, the keepalive alarm and the start of the service worker. The
  whole process is a machine over these events and the inputs of the connection.
\<close>

section \<open>Answers to the popup\<close>

text \<open>\<open>StateResponse\<close>.\<close>

record state_response =
  sr_isActive :: js
  sr_isConnected :: bool
  sr_port :: js
  sr_error :: "string option"
  sr_errorInfo :: "error_info option"

definition fallbackStateResponse :: state_response where
  "fallbackStateResponse = \<lparr>sr_isActive = Bool False, sr_isConnected = False, sr_port = Num DEFAULT_PORT,
     sr_error = None, sr_errorInfo = None\<rparr>"

definition readStateResponse :: "browser \<Rightarrow> state_response ext_eff" where
  "readStateResponse br = eff_bind (state_get br) (\<lambda>current.
     eff_bind (eff_gets checkConnection) (\<lambda>isConnected.
       eff_succeed \<lparr>sr_isActive = st_isActive current, sr_isConnected = isConnected, sr_port = st_port current,
         sr_error = None, sr_errorInfo = None\<rparr>))"

definition stateResponseWithError :: "thrown \<Rightarrow> state_response option \<Rightarrow> state_response" where
  "stateResponseWithError error baseState = (
     let errorInfo = toExtensionErrorInfo error (no_fallback\<lparr>fb_code := Some ''BACKGROUND_MESSAGE_FAILED''\<rparr>)
     in (case baseState of Some b \<Rightarrow> b | None \<Rightarrow> fallbackStateResponse)
          \<lparr>sr_error := Some (ei_message errorInfo), sr_errorInfo := Some errorInfo\<rparr>)"

definition sendStateErrorResponse :: "browser \<Rightarrow> thrown \<Rightarrow> ext \<Rightarrow> state_response \<times> ext" where
  "sendStateErrorResponse br error s = (case readStateResponse br s of
      (Success currentState, s') \<Rightarrow> (stateResponseWithError error (Some currentState), s')
    | (_, s') \<Rightarrow> (stateResponseWithError error None, s'))"

text \<open>\<open>runPromise\<close> rejects with the library's own error around the cause.\<close>

definition runStateRequest :: "browser \<Rightarrow> state_response ext_eff \<Rightarrow> ext \<Rightarrow> state_response \<times> ext" where
  "runStateRequest br effect s = (case effect s of
      (Success response, s') \<Rightarrow> (response, s')
    | (Failure e, s') \<Rightarrow> sendStateErrorResponse br (fiberFailure br e) s'
    | (Defect e, s') \<Rightarrow> sendStateErrorResponse br (fiberFailure br e) s')"


section \<open>On and off\<close>

definition updateBadge :: "browser \<Rightarrow> js \<Rightarrow> unit ext_eff" where
  "updateBadge br isActive = eff_mapError (unknownException br) (calling (BadgeSet (truthy isActive)) (badge_call br))"

definition createKeepAliveAlarm :: "unit ext_eff" where
  "createKeepAliveAlarm = eff_modify (perform AlarmSet)"

definition clearKeepAliveAlarm :: "unit ext_eff" where
  "clearKeepAliveAlarm = eff_modify (perform AlarmCleared)"

definition handleStateChange :: "browser \<Rightarrow> js \<Rightarrow> unit ext_eff" where
  "handleStateChange br isActive = eff_bind (state_get br) (\<lambda>current.
     eff_then (state_set br \<lparr>st_isActive = isActive, st_port = st_port current\<rparr>)
     (eff_then (if truthy isActive then eff_then createKeepAliveAlarm (eff_modify startMaintaining)
                else eff_then clearKeepAliveAlarm (eff_modify disconnect))
       (updateBadge br isActive)))"

definition set_port :: "browser \<Rightarrow> js \<Rightarrow> state_response ext_eff" where
  "set_port br port = eff_bind (state_get br) (\<lambda>current.
     if \<not> (is_num port \<and> isInteger (the_num port)) \<or> the_num port < Fin 1 \<or> the_num port > Fin 65535 then
       fail_info (createExtensionErrorInfo ''INVALID_PORT'' ''Port must be an integer between 1 and 65535''
         (Some (Obj [(''port'', port)])) None)
     else if truthy (st_isActive current) then
       fail_info (createExtensionErrorInfo ''PORT_CHANGE_WHILE_ACTIVE''
         ''Cannot change the relay port while the extension is active''
         (Some (Obj [(''currentPort'', st_port current)])) None)
     else eff_then (state_set br \<lparr>st_isActive = st_isActive current, st_port = port\<rparr>) (readStateResponse br))"

text \<open>The message listener: the answer given to the popup, if any.\<close>

definition on_popup_message :: "browser \<Rightarrow> js \<Rightarrow> ext \<Rightarrow> state_response option \<times> ext" where
  "on_popup_message br message s = (
     let request = (\<lambda>effect. map_prod Some id (runStateRequest br effect s)) in
     if js_get message ''type'' = Str ''getState'' then request (readStateResponse br)
     else if js_get message ''type'' = Str ''setState'' then
       request (eff_then (handleStateChange br (js_get message ''isActive'')) (readStateResponse br))
     else if js_get message ''type'' = Str ''setPort'' then request (set_port br (js_get message ''port''))
     else (None, s))"


section \<open>Commands of the relay\<close>

definition command_result :: "browser \<Rightarrow> ext_command \<Rightarrow> js ext_eff" where
  "command_result br message =
     (if cmd_method message = ''cdp'' then cdp_handleCommand br message else tab_handleCommand br message)"

definition success_response :: "js \<Rightarrow> js \<Rightarrow> js" where
  "success_response i result = Obj [(''id'', i), (''result'', result)]"

definition handleMessage :: "browser \<Rightarrow> ext_command \<Rightarrow> unit ext_eff" where
  "handleMessage br message = eff_catch
     (eff_bind
       (eff_catch (eff_map (success_response (cmd_id message)) (command_result br message))
          (\<lambda>error. eff_succeed (toExtensionErrorResponse (cmd_id message) error no_fallback)))
       (conn_send br))
     (\<lambda>_. eff_succeed ())"

text \<open>A daemon takes the next queued command and forks its handler.\<close>

definition processMessages :: "browser \<Rightarrow> ext \<Rightarrow> ext" where
  "processMessages br s = (case messagesQ s of
      [] \<Rightarrow> s
    | message # rest \<Rightarrow> snd (handleMessage br (command_of_js message) (s\<lparr>messagesQ := rest\<rparr>)))"

text \<open>Another takes the connection's events; a lost connection empties the registry.\<close>

definition processEvents :: "browser \<Rightarrow> ext \<Rightarrow> ext" where
  "processEvents br s = (case eventsQ s of
      [] \<Rightarrow> s
    | event # rest \<Rightarrow> (case event of
          Disconnected reason \<Rightarrow> snd (eff_catch (detachAll br) (\<lambda>_. eff_succeed ()) (s\<lparr>eventsQ := rest\<rparr>))
        | Connected \<Rightarrow> s\<lparr>eventsQ := rest\<rparr>))"


section \<open>Events of the browser\<close>

definition onDebuggerEvent :: "browser \<Rightarrow> js \<Rightarrow> string \<Rightarrow> js \<Rightarrow> ext \<Rightarrow> ext" where
  "onDebuggerEvent br source method params s = snd (handleDebuggerEvent br source method params s)"

definition onDebuggerDetach :: "js \<Rightarrow> ext \<Rightarrow> ext" where
  "onDebuggerDetach source s = (
     if \<not> truthy (js_get source ''tabId'') then s
     else snd (handleDebuggerDetach (the_num (js_get source ''tabId'')) s))"

definition on_tab_removed :: "browser \<Rightarrow> jsnum \<Rightarrow> ext \<Rightarrow> ext" where
  "on_tab_removed br tabId s = snd (eff_bind (has_tab tabId) (\<lambda>tracked.
     if \<not> tracked then eff_succeed () else detach br tabId False) s)"

text \<open>Stale debugger sessions of an earlier worker are detached at the start.\<close>

definition reset_debuggers :: "browser \<Rightarrow> unit ext_eff" where
  "reset_debuggers br = eff_bind (eff_mapError (unknownException br) (eff_call (debugger_getTargets br))) (\<lambda>targets.
     let attached = filter (\<lambda>t. truthy (js_get t ''tabId'') \<and> truthy (js_get t ''attached'')) targets
     in detach_each br (map (\<lambda>t. the_num (js_get t ''tabId'')) attached))"

definition KEEPALIVE_ALARM :: string where
  "KEEPALIVE_ALARM = ''keepAlive''"

definition on_alarm :: "browser \<Rightarrow> string \<Rightarrow> ext \<Rightarrow> ext" where
  "on_alarm br alarm s = (
     if alarm \<noteq> KEEPALIVE_ALARM then s
     else snd (eff_bind (state_get br) (\<lambda>current.
       if \<not> truthy (st_isActive current) then clearKeepAliveAlarm
       else eff_bind (eff_gets isConnected) (\<lambda>connected.
         if \<not> connected then eff_modify startMaintaining else eff_succeed ())) s))"

definition on_start :: "browser \<Rightarrow> unit ext_eff" where
  "on_start br = eff_bind (state_get br) (\<lambda>current.
     eff_then (updateBadge br (st_isActive current))
       (if truthy (st_isActive current) then eff_then createKeepAliveAlarm (eff_modify startMaintaining)
        else clearKeepAliveAlarm))"

datatype bg_event =
    ConnectionInput conn_input
  | PopupMessage js
  | CommandQueued
  | ConnectionEventQueued
  | DebuggerEvent js string js
  | DebuggerDetach js
  | TabRemoved jsnum
  | AlarmFires string
  | WorkerStarts
  | DebuggersReset

fun bg_step :: "browser \<Rightarrow> bg_event \<Rightarrow> ext \<Rightarrow> ext" where
  "bg_step br (ConnectionInput i) s = conn_step br i s"
| "bg_step br (PopupMessage message) s = snd (on_popup_message br message s)"
| "bg_step br CommandQueued s = processMessages br s"
| "bg_step br ConnectionEventQueued s = processEvents br s"
| "bg_step br (DebuggerEvent source method params) s = onDebuggerEvent br source method params s"
| "bg_step br (DebuggerDetach source) s = onDebuggerDetach source s"
| "bg_step br (TabRemoved tabId) s = on_tab_removed br tabId s"
| "bg_step br (AlarmFires alarm) s = on_alarm br alarm s"
| "bg_step br WorkerStarts s = snd (on_start br s)"
| "bg_step br DebuggersReset s = snd (reset_debuggers br s)"

end
