(* ===== verification/ServiceContract.thy ===== *)
theory ServiceContract
  imports Background
begin

text \<open>
  What the background script asks of a predicate on its state: a contract between the services that
  provide the state (connection, store, registry) and the script that composes them. A predicate the
  services keep is kept by every event of the whole process.
\<close>

lemma polite_calls:
  assumes "polite br P" "P s"
  shows "P (snd (storage_call br s))" "P (snd (badge_call br s))" "P (snd (debugger_getTargets br s))"
    "P (snd (debugger_attach br t s))" "P (snd (debugger_detach br t s))"
    "P (snd (debugger_sendCommand br d m p s))" "P (snd (tabs_query br q s))" "P (snd (tabs_create br q s))"
  using assms by (simp_all add: polite_def)

lemma keeps_if [intro]: "keeps P m \<Longrightarrow> keeps P n \<Longrightarrow> keeps P (if b then m else n)"
  by simp

lemma keeps_snd: "keeps P m \<Longrightarrow> P s \<Longrightarrow> P (snd (m s))"
  by (simp add: keeps_def)

text \<open>A sequence whose second part relies on the result of the first.\<close>

lemma keeps_bind_result:
  "keeps P m \<Longrightarrow> (\<And>a s s'. P s \<Longrightarrow> m s = (Success a, s') \<Longrightarrow> keeps P (f a)) \<Longrightarrow> keeps P (eff_bind m f)"
  unfolding keeps_def eff_bind_def by (auto split: prod.split exit.split)

text \<open>The popup may ask for any state whose flag is acceptable.\<close>

definition ok_event :: "(js \<Rightarrow> bool) \<Rightarrow> bg_event \<Rightarrow> bool" where
  "ok_event ok_flag e = (case e of
      PopupMessage m \<Rightarrow> js_get m ''type'' = Str ''setState'' \<longrightarrow> ok_flag (js_get m ''isActive'')
    | _ \<Rightarrow> True)"

text \<open>The response a command's outcome is turned into; a defect is not turned into any.\<close>

fun response_of :: "js \<Rightarrow> (thrown, js) exit \<Rightarrow> js option" where
  "response_of i (Success r) = Some (success_response i r)"
| "response_of i (Failure e) = Some (toExtensionErrorResponse i e no_fallback)"
| "response_of i (Defect e) = None"

lemma handleMessage_inner:
  assumes "command_result br c s = (x, s')"
  shows "eff_catch (eff_map (success_response (cmd_id c)) (command_result br c))
      (\<lambda>error. eff_succeed (toExtensionErrorResponse (cmd_id c) error no_fallback)) s
    = (case response_of (cmd_id c) x of Some r \<Rightarrow> (Success r, s') | None \<Rightarrow> (Defect (case x of Defect e \<Rightarrow> e), s'))"
  using assms by (cases x) simp_all

text \<open>
  The predicate may also say what is sent and what is queued: \<open>ok_send\<close> are the messages the process
  may send, \<open>ok_command\<close> the commands it may find in its queue, \<open>ok_input\<close> what may reach the connection.
\<close>

locale service_contract =
  fixes br :: browser and P :: "ext \<Rightarrow> bool" and ok_state :: "active_state \<Rightarrow> bool" and ok_flag :: "js \<Rightarrow> bool"
    and ok_send :: "js \<Rightarrow> bool" and ok_command :: "js \<Rightarrow> bool" and ok_input :: "conn_input \<Rightarrow> bool"
  assumes calls: "polite br P"
    and effect: "P s \<Longrightarrow> (\<And>w m. e = SocketSend w m \<Longrightarrow> ok_send m) \<Longrightarrow> P (perform e s)"
    and events_sent: "ok_send (attached_event t info)" "ok_send (detached_event t)" "ok_send (cdp_event t method info)"
    and response_sent: "P s \<Longrightarrow> ok_command c \<Longrightarrow> command_result br (command_of_js c) s = (x, s') \<Longrightarrow>
      response_of (cmd_id (command_of_js c)) x = Some r \<Longrightarrow> ok_send r"
    and switch_inputs: "ok_input Start" "ok_input Disconnect"
    and registry: "P s \<Longrightarrow> P (s\<lparr>tabsRef := m\<rparr>)"
    and command_taken: "P s \<Longrightarrow> messagesQ s = c # q \<Longrightarrow> P (s\<lparr>messagesQ := q\<rparr>) \<and> ok_command c"
    and event_taken: "P s \<Longrightarrow> P (s\<lparr>eventsQ := es\<rparr>)"
    and connection: "P s \<Longrightarrow> ok_input i \<Longrightarrow> P (conn_step br i s)"
    and read: "keeps P (state_get br)"
    and read_ok: "P s \<Longrightarrow> state_get br s = (Success st, s') \<Longrightarrow> ok_state st"
    and store: "ok_state st \<Longrightarrow> keeps P (state_set br st)"
    and new_flag: "ok_state st \<Longrightarrow> ok_flag v \<Longrightarrow> ok_state \<lparr>st_isActive = v, st_port = st_port st\<rparr>"
    and new_port: "ok_state st \<Longrightarrow> isInteger n \<Longrightarrow> \<not> n < Fin 1 \<Longrightarrow> \<not> n > Fin 65535 \<Longrightarrow>
      ok_state \<lparr>st_isActive = st_isActive st, st_port = Num n\<rparr>"
begin

lemma keeps_send: "ok_send m \<Longrightarrow> keeps P (conn_send br m)"
proof (rule keepsI)
  fix s assume "ok_send m" "P s"
  then show "P (snd (conn_send br m s))"
    using conn_send_down [of br s m] by (cases "can_send br s") (auto simp: conn_send_up intro!: effect)
qed

lemma keeps_cell: "keeps P (setTargetId t v)" "keeps P (deleteTab t)" "keeps P (getTargetId t)" "keeps P (has_tab t)"
  by (auto simp: setTargetId_def deleteTab_def getTargetId_def has_tab_def intro!: keeps_modify registry)

text \<open>Calls to the browser, whose effects send nothing to the relay.\<close>

lemma keeps_calls:
  assumes e: "\<forall>w m. e \<noteq> SocketSend w m"
  shows "keeps P (calling e (debugger_attach br t))" "keeps P (calling e (debugger_detach br t))"
    "keeps P (calling e (debugger_sendCommand br d m p))" "keeps P (calling e (tabs_create br q))"
    "keeps P (calling e (badge_call br))"
proof -
  have "P (perform e s)" if "P s" for s using that by (rule effect) (use e in auto)
  then show "keeps P (calling e (debugger_attach br t))" "keeps P (calling e (debugger_detach br t))"
    "keeps P (calling e (debugger_sendCommand br d m p))" "keeps P (calling e (tabs_create br q))"
    "keeps P (calling e (badge_call br))"
    by (auto intro!: keeps_calling polite_calls [OF calls])
qed

lemma keeps_queries: "keeps P (eff_call (debugger_getTargets br))" "keeps P (eff_call (tabs_query br q))"
  by (rule keeps_call; simp add: polite_calls [OF calls])+

lemma keeps_attach: "keeps P (attach br t)"
  unfolding attach_def Let_def
  by (intro keeps_then keeps_bind keeps_mapError keeps_calls keeps_queries keeps_if keeps_cell keeps_send events_sent keeps_fail_info) auto

lemma keeps_ensure: "keeps P (ensureAttached br t)"
  unfolding ensureAttached_def adopt_target_def Let_def
  by (auto intro!: keeps_bind keeps_then keeps_mapError keeps_map keeps_calls keeps_queries keeps_cell keeps_send events_sent keeps_attach
      split: option.split)

lemma keeps_detach_debugger: "keeps P (detach_debugger br t)"
  unfolding detach_debugger_def by (intro keeps_catch keeps_mapError keeps_calls keeps_queries) auto

lemma keeps_detach_each: "keeps P (detach_each br ts)"
  by (induction ts) (simp_all only: detach_each.simps keeps_basic keeps_then keeps_detach_debugger)

lemma keeps_tab_ops:
  "keeps P (detach br t b)" "keeps P (handleDebuggerDetach t)" "keeps P (detachAll br)"
  "keeps P (getActiveTargetId br)" "keeps P (createTab br url)" "keeps P (countOpenTabs br)"
proof -
  show "keeps P (detach br t b)"
    unfolding detach_def by (intro keeps_bind keeps_if keeps_then keeps_cell keeps_send events_sent keeps_detach_debugger) auto
  show "keeps P (handleDebuggerDetach t)"
    unfolding handleDebuggerDetach_def by (intro keeps_bind keeps_if keeps_cell) auto
  show "keeps P (detachAll br)"
    unfolding detachAll_def by (intro keeps_bind keeps_then keeps_detach_each keeps_modify registry) auto
  show "keeps P (getActiveTargetId br)"
    unfolding getActiveTargetId_def getActiveTabId_def
    by (intro keeps_bind keeps_mapError keeps_calls keeps_queries keeps_ensure) (auto split: list.split)
  show "keeps P (createTab br url)"
    unfolding createTab_def by (intro keeps_bind keeps_mapError keeps_calls keeps_queries keeps_if keeps_ensure) auto
  show "keeps P (countOpenTabs br)"
    unfolding countOpenTabs_def by (intro keeps_mapError keeps_map keeps_queries)
qed

lemma keeps_commands: "keeps P (command_result br c)"
  unfolding command_result_def cdp_handleCommand_def tab_handleCommand_def Let_def
  by (auto intro!: keeps_tab_ops keeps_map keeps_mapError keeps_calls keeps_queries split: option.split)

lemma keeps_handleMessage:
  assumes c: "ok_command c"
  shows "keeps P (handleMessage br (command_of_js c))"
proof -
  let ?c = "command_of_js c"
  let ?answer = "eff_catch (eff_map (success_response (cmd_id ?c)) (command_result br ?c))
      (\<lambda>error. eff_succeed (toExtensionErrorResponse (cmd_id ?c) error no_fallback))"
  have "keeps P (conn_send br r)" if "P s" "?answer s = (Success r, s')" for r s s'
  proof -
    obtain x s'' where x: "command_result br ?c s = (x, s'')" by (cases "command_result br ?c s")
    from that(2) have "response_of (cmd_id ?c) x = Some r"
      unfolding handleMessage_inner [OF x] by (simp split: option.splits)
    with that(1) c x show ?thesis by (intro keeps_send response_sent)
  qed
  then have "keeps P (eff_bind ?answer (conn_send br))"
    by (intro keeps_bind_result keeps_catch keeps_map keeps_commands) auto
  then show ?thesis unfolding handleMessage_def by (intro keeps_catch) auto
qed

lemma keeps_switches:
  "keeps P createKeepAliveAlarm" "keeps P clearKeepAliveAlarm"
  "keeps P (eff_modify startMaintaining)" "keeps P (eff_modify disconnect)"
  using connection [OF _ switch_inputs(1)] connection [OF _ switch_inputs(2)]
  by (auto simp: createKeepAliveAlarm_def clearKeepAliveAlarm_def intro!: keeps_modify effect)

lemma keeps_updateBadge: "keeps P (updateBadge br v)"
  unfolding updateBadge_def by (intro keeps_mapError keeps_calls) simp

lemma keeps_readStateResponse: "keeps P (readStateResponse br)"
  unfolding readStateResponse_def by (intro keeps_bind read) auto

lemma keeps_handleStateChange: "ok_flag v \<Longrightarrow> keeps P (handleStateChange br v)"
  unfolding handleStateChange_def
  by (rule keeps_bind_result [OF read], intro keeps_then keeps_if keeps_switches keeps_updateBadge store new_flag)
     (erule (1) read_ok)

lemma keeps_set_port: "keeps P (set_port br v)"
  unfolding set_port_def
proof (rule keeps_bind_result [OF read])
  fix st s s'
  assume "P s" "state_get br s = (Success st, s')"
  then have st: "ok_state st" by (rule read_ok)
  have "keeps P (state_set br \<lparr>st_isActive = st_isActive st, st_port = v\<rparr>)"
    if "is_num v" "isInteger (the_num v)" "\<not> the_num v < Fin 1" "\<not> the_num v > Fin 65535"
  proof -
    from that(1) have "v = Num (the_num v)" by (cases v) (auto simp: is_num_def the_num_def)
    with new_port [OF st that(2-4)] show ?thesis by (simp add: store)
  qed
  then show "keeps P (if \<not> (is_num v \<and> isInteger (the_num v)) \<or> the_num v < Fin 1 \<or> Fin 65535 < the_num v then
       fail_info (createExtensionErrorInfo ''INVALID_PORT'' ''Port must be an integer between 1 and 65535''
         (Some (Obj [(''port'', v)])) None)
     else if truthy (st_isActive st) then
       fail_info (createExtensionErrorInfo ''PORT_CHANGE_WHILE_ACTIVE''
         ''Cannot change the relay port while the extension is active''
         (Some (Obj [(''currentPort'', st_port st)])) None)
     else eff_then (state_set br \<lparr>st_isActive = st_isActive st, st_port = v\<rparr>) (readStateResponse br))"
    by (auto intro!: keeps_fail_info keeps_then keeps_readStateResponse)
qed

lemma kept_request: "keeps P m \<Longrightarrow> P s \<Longrightarrow> P (snd (runStateRequest br m s))"
proof -
  assume "keeps P m" "P s"
  have err: "P (snd (sendStateErrorResponse br e t))" if "P t" for e t
    using keeps_snd [OF keeps_readStateResponse that]
    by (auto simp: sendStateErrorResponse_def split: prod.split exit.split)
  from keeps_snd [OF \<open>keeps P m\<close> \<open>P s\<close>] show ?thesis
    by (auto simp: runStateRequest_def err split: prod.split exit.split)
qed

lemma kept_bg_step:
  assumes inv: "P s" and ok: "ok_event ok_flag e" and input: "\<And>i. e = ConnectionInput i \<Longrightarrow> ok_input i"
  shows "P (bg_step br e s)"
proof (cases e)
  case (ConnectionInput i)
  with inv input show ?thesis by (simp add: connection)
next
  case (PopupMessage m)
  have "keeps P (eff_then (handleStateChange br (js_get m ''isActive'')) (readStateResponse br))"
    if "js_get m ''type'' = Str ''setState''"
    using ok that PopupMessage by (intro keeps_then keeps_handleStateChange keeps_readStateResponse) (simp add: ok_event_def)
  with PopupMessage inv show ?thesis
    by (simp add: on_popup_message_def Let_def kept_request keeps_readStateResponse keeps_set_port)
next
  case CommandQueued
  show ?thesis
    using CommandQueued inv command_taken [OF inv] keeps_snd [OF keeps_handleMessage]
    by (simp add: processMessages_def split: list.split)
next
  case ConnectionEventQueued
  have "keeps P (eff_catch (detachAll br) (\<lambda>_. eff_succeed ()))" by (intro keeps_catch keeps_tab_ops) auto
  with ConnectionEventQueued inv show ?thesis
    by (simp add: processEvents_def keeps_snd event_taken split: list.split conn_event.split)
next
  case (DebuggerEvent source m p)
  have "keeps P (handleDebuggerEvent br source m p)"
    unfolding handleDebuggerEvent_def Let_def by (intro keeps_bind keeps_if keeps_cell keeps_send events_sent) auto
  with DebuggerEvent inv show ?thesis by (simp add: onDebuggerEvent_def keeps_snd)
next
  case (DebuggerDetach source)
  with inv show ?thesis by (simp add: onDebuggerDetach_def keeps_snd keeps_tab_ops)
next
  case (TabRemoved t)
  have "keeps P (eff_bind (has_tab t) (\<lambda>tracked. if \<not> tracked then eff_succeed () else detach br t False))"
    by (intro keeps_bind keeps_if keeps_cell keeps_tab_ops) auto
  with TabRemoved inv show ?thesis by (simp add: on_tab_removed_def keeps_snd)
next
  case (AlarmFires a)
  have "keeps P (eff_bind (state_get br) (\<lambda>current.
       if \<not> truthy (st_isActive current) then clearKeepAliveAlarm
       else eff_bind (eff_gets isConnected) (\<lambda>connected.
         if \<not> connected then eff_modify startMaintaining else eff_succeed ())))"
    by (intro keeps_bind keeps_if keeps_switches read) auto
  with AlarmFires inv show ?thesis by (simp add: on_alarm_def keeps_snd)
next
  case WorkerStarts
  have "keeps P (on_start br)"
    unfolding on_start_def by (intro keeps_bind keeps_then keeps_if keeps_switches read keeps_updateBadge)
  with WorkerStarts inv show ?thesis by (simp add: keeps_snd)
next
  case DebuggersReset
  have "keeps P (reset_debuggers br)"
    unfolding reset_debuggers_def Let_def by (intro keeps_bind keeps_mapError keeps_calls keeps_queries keeps_detach_each)
  with DebuggersReset inv show ?thesis by (simp add: keeps_snd)
qed

lemma kept_run:
  "P s \<Longrightarrow> list_all (ok_event ok_flag) es \<Longrightarrow> (\<And>i. ConnectionInput i \<in> set es \<Longrightarrow> ok_input i) \<Longrightarrow>
     P (run_events (bg_step br) es s)"
  by (induction es arbitrary: s) (auto intro: kept_bg_step)

end

end
