(* ===== verification/RelayState.thy ===== *)
theory RelayState
  imports RelayWire
begin

text \<open>
  The relay's mutable state and the operations on it, \<open>skill/scripts/relay.ts\<close>: the table of
  pending commands with their timers, the keepalive timer of the extension socket, the set of
  event stream clients, and what the process does to the outside (a trace of effects).
\<close>

section \<open>State and environment\<close>

text \<open>
  The environment as one handler sees it: ready state of each socket, what \<open>ws.send\<close> throws if
  it throws, whether the socket has a \<open>ping\<close> method, whether a stream controller refuses data,
  and the clock.
\<close>

record net =
  ready :: "nat \<Rightarrow> ready_state"
  send_error :: "nat \<Rightarrow> thrown option"
  has_ping :: "nat \<Rightarrow> bool"
  enqueue_error :: "nat \<Rightarrow> bool"
  clock :: string

text \<open>The promise of a command is awaited by one HTTP request, a command or a health check.\<close>

datatype waiter = CommandWaiter nat | HealthWaiter nat

text \<open>A command made for the extension: \<open>{ method, params, id }\<close>.\<close>

record relay_command =
  rc_id :: nat
  rc_method :: js
  rc_params :: js

definition command_js :: "relay_command \<Rightarrow> js" where
  "command_js c = Obj [(''method'', rc_method c), (''params'', rc_params c), (''id'', Num (num_of_nat (rc_id c)))]"

text \<open>The callbacks that wait in the timer table.\<close>

datatype task =
    CommandTimeout jsnum jsnum bool
  | ExtensionKeepalive nat
  | SseKeepalive nat

datatype http_body = Json js | Text string | NoBody | EventStream

record http_response =
  hr_status :: nat
  hr_body :: http_body

datatype effect =
    Awaiting waiter relay_command
  | Resolved waiter js
  | WsSend nat js
  | WsPing nat
  | WsClose nat nat string
  | SseData nat string
  | SseComment nat string
  | SseClosed nat
  | Replied nat http_response
  | Logged string "js list"

record pending_entry =
  pe_resolve :: waiter
  pe_timeout :: nat

text \<open>
  The object \<open>state\<close> of the source, the runtime's timer table (live timers by id), the closure
  variables of the open event streams (stream id to its keepalive timer), the next request and
  timer ids of the runtime, and the trace of effects, newest last.
\<close>

record relay =
  extension :: "nat option"
  nextId :: nat
  pending :: "(jsnum, pending_entry) jmap"
  extensionKeepaliveId :: "nat option"
  sseClients :: "(nat, unit) jmap"
  timers :: "(nat, task \<times> jsnum) jmap"
  streams :: "(nat, nat option) jmap"
  nextTimer :: nat
  nextReq :: nat
  trace :: "effect list"

definition relay_init :: relay where
  "relay_init = \<lparr>extension = None, nextId = 1, pending = [], extensionKeepaliveId = None,
     sseClients = [], timers = [], streams = [], nextTimer = 0, nextReq = 0, trace = []\<rparr>"

definition emit :: "effect \<Rightarrow> relay \<Rightarrow> relay" where
  "emit e st = st\<lparr>trace := trace st @ [e]\<rparr>"

text \<open>A line of the log: the console method the level selects and the arguments it gets.\<close>

definition log_line :: "string \<Rightarrow> js list \<Rightarrow> effect" where
  "log_line level args = Logged
     (if level = ''error'' then ''error'' else if level = ''warn'' then ''warn'' else ''log'')
     (Str (''[skill]['' @ level @ '']'') # args)"

definition relay_log :: "string \<Rightarrow> js list \<Rightarrow> relay \<Rightarrow> relay" where
  "relay_log level args st = emit (log_line level args) st"

text \<open>\<open>setTimeout\<close>, \<open>setInterval\<close> and \<open>clearTimeout\<close>, \<open>clearInterval\<close> of the runtime.\<close>

definition setTimer :: "task \<Rightarrow> jsnum \<Rightarrow> relay \<Rightarrow> nat \<times> relay" where
  "setTimer k ms st =
     (nextTimer st, st\<lparr>timers := mapSet (timers st) (nextTimer st) (k, ms), nextTimer := Suc (nextTimer st)\<rparr>)"

definition clearTimer :: "nat \<Rightarrow> relay \<Rightarrow> relay" where
  "clearTimer t st = st\<lparr>timers := mapDelete (timers st) t\<rparr>"

definition is_open :: "net \<Rightarrow> nat option \<Rightarrow> bool" where
  "is_open net ws \<longleftrightarrow> (case ws of None \<Rightarrow> False | Some w \<Rightarrow> ready net w = OPEN)"


section \<open>Sending and broadcasting\<close>

definition wsSendJson :: "net \<Rightarrow> nat \<Rightarrow> js \<Rightarrow> relay \<Rightarrow> error_info option \<times> relay" where
  "wsSendJson net ws message st = (
     if ready net ws \<noteq> OPEN then
       (Some (makeErrorInfo ''EXTENSION_NOT_CONNECTED'' ''Extension is not connected'' None None), st)
     else case send_error net ws of
         None \<Rightarrow> (None, emit (WsSend ws message) st)
       | Some err \<Rightarrow>
           (Some (makeErrorInfo ''WS_SEND_FAILED'' ''Failed to send command to extension'' None (Some err)), st))"

text \<open>One message of the event stream: a \<open>data:\<close> line and the blank line that ends it.\<close>

definition newline :: string where
  "newline = [CHR 0x0A]"

definition sse_frame :: "js \<Rightarrow> string" where
  "sse_frame message = ''data: '' @ stringify message @ newline @ newline"

fun broadcast_to :: "net \<Rightarrow> string \<Rightarrow> nat list \<Rightarrow> relay \<Rightarrow> relay" where
  "broadcast_to net payload [] st = st"
| "broadcast_to net payload (c # cs) st = broadcast_to net payload cs
     (if enqueue_error net c then st\<lparr>sseClients := mapDelete (sseClients st) c\<rparr>
      else emit (SseData c payload) st)"

definition sseBroadcast :: "net \<Rightarrow> js \<Rightarrow> relay \<Rightarrow> relay" where
  "sseBroadcast net message st = broadcast_to net (sse_frame message) (mapKeys (sseClients st)) st"


section \<open>Pending commands\<close>

definition resolve :: "waiter \<Rightarrow> js \<Rightarrow> relay \<Rightarrow> relay" where
  "resolve w msg st = emit (Resolved w msg) st"

definition respondPending :: "jsnum \<Rightarrow> js \<Rightarrow> relay \<Rightarrow> relay" where
  "respondPending pendingId msg st = (case mapGet (pending st) pendingId of
      None \<Rightarrow> st
    | Some p \<Rightarrow>
        let st1 = clearTimer (pe_timeout p) st;
            st2 = st1\<lparr>pending := mapDelete (pending st1) pendingId\<rparr>
        in resolve (pe_resolve p) msg st2)"

fun fail_entries :: "error_info \<Rightarrow> (jsnum \<times> pending_entry) list \<Rightarrow> relay \<Rightarrow> relay" where
  "fail_entries e [] st = st"
| "fail_entries e ((pendingId, p) # rest) st =
     (let st1 = clearTimer (pe_timeout p) st;
          st2 = st1\<lparr>pending := mapDelete (pending st1) pendingId\<rparr>
      in fail_entries e rest (resolve (pe_resolve p) (makeErrorResponse pendingId e) st2))"

text \<open>Deleting the entry a \<open>Map\<close> iteration is at is safe: the loop visits each entry once.\<close>

definition failAllPending :: "error_info \<Rightarrow> relay \<Rightarrow> relay" where
  "failAllPending e st = fail_entries e (pending st) st"

definition sendCommandToExtension ::
  "net \<Rightarrow> relay_command \<Rightarrow> waiter \<Rightarrow> jsnum \<Rightarrow> bool \<Rightarrow> relay \<Rightarrow> relay" where
  "sendCommandToExtension net command w timeoutMs includeBlockedHint st0 = (
     let cid = num_of_nat (rc_id command);
         st = emit (Awaiting w command) st0
     in case extension st of
        None \<Rightarrow> resolve w (makeErrorResponse cid
                  (makeErrorInfo ''EXTENSION_NOT_CONNECTED'' ''Extension is not connected'' None None)) st
      | Some ext \<Rightarrow>
          if ready net ext \<noteq> OPEN then
            resolve w (makeErrorResponse cid
              (makeErrorInfo ''EXTENSION_NOT_CONNECTED'' ''Extension is not connected'' None None)) st
          else
            let (timeoutId, st1) = setTimer (CommandTimeout cid timeoutMs includeBlockedHint) timeoutMs st;
                st2 = st1\<lparr>pending := mapSet (pending st1) cid \<lparr>pe_resolve = w, pe_timeout = timeoutId\<rparr>\<rparr>;
                (sendError, st3) = wsSendJson net ext (command_js command) st2
            in case sendError of
                 None \<Rightarrow> st3
               | Some e \<Rightarrow> respondPending cid (makeErrorResponse cid e) st3)"

definition makeCommand :: "js \<Rightarrow> js \<Rightarrow> relay \<Rightarrow> relay_command \<times> relay" where
  "makeCommand method params st =
     (\<lparr>rc_id = nextId st, rc_method = method, rc_params = params\<rparr>, st\<lparr>nextId := js_inc (nextId st)\<rparr>)"


section \<open>Keepalive of the extension socket\<close>

definition stopExtensionKeepalive :: "relay \<Rightarrow> relay" where
  "stopExtensionKeepalive st = (case extensionKeepaliveId st of
      None \<Rightarrow> st
    | Some t \<Rightarrow> (clearTimer t st)\<lparr>extensionKeepaliveId := None\<rparr>)"

definition startExtensionKeepalive :: "relay_config \<Rightarrow> nat \<Rightarrow> relay \<Rightarrow> relay" where
  "startExtensionKeepalive cfg ws st0 = (
     let st = stopExtensionKeepalive st0;
         (t, st1) = setTimer (ExtensionKeepalive ws) (EXTENSION_KEEPALIVE_MS cfg) st
     in st1\<lparr>extensionKeepaliveId := Some t\<rparr>)"

text \<open>The interval's callback: a protocol ping, or a ping message when the socket has none.\<close>

definition extension_keepalive_tick :: "net \<Rightarrow> nat \<Rightarrow> relay \<Rightarrow> relay" where
  "extension_keepalive_tick net ws st = (
     if ready net ws \<noteq> OPEN then st
     else if has_ping net ws then emit (WsPing ws) st
     else snd (wsSendJson net ws (Obj [(''type'', Str ''ping'')]) st))"

end
