(* ===== verification/RelayHttp.thy ===== *)
theory RelayHttp
  imports RelayState
begin

text \<open>
  The HTTP side of the relay, \<open>skill/scripts/relay.ts\<close>: from a request body to a command, the
  health probe, the answers a settled promise turns into, the event stream of one client, and the
  routing of \<open>fetch\<close>.
\<close>

section \<open>From a request body to a command\<close>

definition parseHttpCommandBody :: "js \<Rightarrow> relay \<Rightarrow> (error_info + relay_command) \<times> relay" where
  "parseHttpCommandBody body st = (
     if \<not> relay_isRecord body then
       (Inl (makeErrorInfo ''INVALID_COMMAND_BODY'' ''Command body must be a JSON object'' None None), st)
     else if relay_isExtensionCommandMessage body then
       map_prod Inr id (makeCommand (js_get body ''method'') (js_get body ''params'') st)
     else if isClientEnvelope body then
       if js_get body ''type'' \<noteq> Str ''command'' then
         (Inl (makeErrorInfo ''INVALID_COMMAND_BODY'' ''Ping envelopes cannot be sent to /command'' None None), st)
       else map_prod Inr id (makeCommand (js_get body ''method'') (js_get body ''params'') st)
     else
       let method = js_get body ''method''; params = js_get body ''params'' in
       if \<not> isExtensionMethod method then
         (Inl (makeErrorInfo ''INVALID_COMMAND_METHOD'' (''Command method must be '' @ [CHR 0x27] @ ''cdp''
            @ [CHR 0x27] @ '' or '' @ [CHR 0x27] @ ''tab'' @ [CHR 0x27]) None None), st)
       else if \<not> relay_isRecord params then
         (Inl (makeErrorInfo ''INVALID_COMMAND_PARAMS'' ''Command params must be an object'' None None), st)
       else if \<not> is_str (js_get params ''method'') then
         (Inl (makeErrorInfo ''INVALID_COMMAND_PARAMS'' ''Command params.method must be a string'' None None), st)
       else if js_get params ''params'' \<noteq> Undefined \<and> \<not> relay_isRecord (js_get params ''params'') then
         (Inl (makeErrorInfo ''INVALID_COMMAND_PARAMS''
            ''Command params.params must be an object when provided'' None None), st)
       else if js_get params ''targetId'' \<noteq> Undefined \<and> \<not> is_str (js_get params ''targetId'') then
         (Inl (makeErrorInfo ''INVALID_COMMAND_TARGET_ID''
            ''Command params.targetId must be a string when provided'' None None), st)
       else
         map_prod Inr id (makeCommand method
           (Obj [(''method'', js_get params ''method''),
                 (''params'', if js_get params ''params'' \<noteq> Undefined then js_get params ''params'' else Undefined),
                 (''targetId'', if is_str (js_get params ''targetId'') then js_get params ''targetId'' else Undefined)])
           st))"


section \<open>Health\<close>

record health_probe =
  hp_ok :: bool
  hp_browserResponsive :: bool
  hp_browserBlocked :: bool
  hp_message :: string

text \<open>The rest of \<open>runActiveTargetHealthProbe\<close>, from the response on.\<close>

definition probe_of_response :: "js \<Rightarrow> health_probe" where
  "probe_of_response response = (case getResponseErrorInfo response of
      Some e \<Rightarrow>
        let blocked = (ei_code e = ''COMMAND_TIMEOUT''); message = formatErrorInfo e
        in \<lparr>hp_ok = False, hp_browserResponsive = False, hp_browserBlocked = blocked,
            hp_message = (if blocked then message @ ''. '' @ BLOCKED_EXTENSION_HINT else message)\<rparr>
    | None \<Rightarrow>
        let result = js_get response ''result'';
            targetId = (if relay_isRecord result then js_get result ''targetId'' else Null)
        in if \<not> is_str targetId \<or> the_str targetId = [] then
             \<lparr>hp_ok = False, hp_browserResponsive = False, hp_browserBlocked = False,
              hp_message = ''tab.getActiveTarget returned no active target. Keep a normal tab focused and retry.''\<rparr>
           else
             \<lparr>hp_ok = True, hp_browserResponsive = True, hp_browserBlocked = False,
              hp_message = ''tab.getActiveTarget succeeded.''\<rparr>)"

definition runActiveTargetHealthProbe :: "relay_config \<Rightarrow> net \<Rightarrow> nat \<Rightarrow> relay \<Rightarrow> relay" where
  "runActiveTargetHealthProbe cfg net req st = (
     let (command, st1) = makeCommand (Str ''tab'') (Obj [(''method'', Str ''tab.getActiveTarget'')]) st
     in sendCommandToExtension net command (HealthWaiter req) (HEALTH_PROBE_TIMEOUT_MS cfg) False st1)"

definition disconnected_health_reply :: "relay_config \<Rightarrow> string \<Rightarrow> http_response" where
  "disconnected_health_reply cfg now = \<lparr>hr_status = 503, hr_body = Json (Obj [
     (''ok'', Bool False), (''relayReachable'', Bool True), (''extensionConnected'', Bool False),
     (''browserResponsive'', Null), (''browserBlocked'', Null), (''checkedAt'', Str now),
     (''checks'', Obj [(''activeTargetProbe'', Obj [(''ok'', Bool False),
        (''timeoutMs'', Num (HEALTH_PROBE_TIMEOUT_MS cfg)),
        (''message'', Str ''Skipped because extension is not connected.'')])]),
     (''action'', Str ''Open the extension popup, switch it to Active, then retry.'')])\<rparr>"

definition health_reply :: "relay_config \<Rightarrow> string \<Rightarrow> health_probe \<Rightarrow> http_response" where
  "health_reply cfg now probe = (
     let healthy = hp_ok probe in
     \<lparr>hr_status = (if healthy then 200 else 503), hr_body = Json (Obj [
       (''ok'', Bool healthy), (''relayReachable'', Bool True), (''extensionConnected'', Bool True),
       (''browserResponsive'', Bool (hp_browserResponsive probe)),
       (''browserBlocked'', Bool (hp_browserBlocked probe)), (''checkedAt'', Str now),
       (''checks'', Obj [(''activeTargetProbe'', Obj [(''ok'', Bool (hp_ok probe)),
          (''timeoutMs'', Num (HEALTH_PROBE_TIMEOUT_MS cfg)),
          (''message'', Str (hp_message probe))])]),
       (''action'', if hp_browserBlocked probe
          then Str ''Browser extension appears blocked. Manually refresh the extension, then retry.''
          else if healthy then Null else Str ''Keep a normal browser tab focused, then retry.'')])\<rparr>)"

definition reply :: "nat \<Rightarrow> http_response \<Rightarrow> relay \<Rightarrow> relay" where
  "reply req r st = emit (Replied req r) st"

definition handleHealth :: "relay_config \<Rightarrow> net \<Rightarrow> string \<Rightarrow> nat \<Rightarrow> relay \<Rightarrow> relay" where
  "handleHealth cfg net http_method req st = (
     if http_method \<noteq> ''GET'' then reply req \<lparr>hr_status = 405, hr_body = NoBody\<rparr> st
     else if \<not> is_open net (extension st) then reply req (disconnected_health_reply cfg (clock net)) st
     else runActiveTargetHealthProbe cfg net req st)"


section \<open>Commands\<close>

text \<open>The answer to a body that is not a command.\<close>

definition bad_request :: "error_info \<Rightarrow> http_response" where
  "bad_request e = \<lparr>hr_status = 400, hr_body = Json (Obj [
     (''ok'', Bool False), (''result'', Null), (''error'', Str (ei_message e)),
     (''errorInfo'', errorInfoToJson e)])\<rparr>"

text \<open>The answer to a command whose promise settled with \<open>msg\<close>.\<close>

definition command_reply :: "js \<Rightarrow> http_response" where
  "command_reply msg = \<lparr>hr_status = commandErrorToStatus msg, hr_body = Json (Obj [
     (''ok'', Bool (\<not> truthy (js_get msg ''error''))),
     (''result'', nullish (js_get msg ''result'') Null),
     (''error'', nullish (js_get msg ''error'') Null),
     (''errorInfo'', if truthy (js_get msg ''errorInfo'')
        then errorInfoToJson (error_info_of_js (js_get msg ''errorInfo'')) else Null)])\<rparr>"

definition handleHttpCommand ::
  "relay_config \<Rightarrow> json_parser \<Rightarrow> net \<Rightarrow> string \<Rightarrow> nat \<Rightarrow> relay \<Rightarrow> relay" where
  "handleHttpCommand cfg parse net bodyText req st = (
     case parseJsonText parse bodyText ''INVALID_JSON'' ''Request body is not valid JSON''
            (Some (Obj [(''endpoint'', Str ''/command'')])) of
       Inl e \<Rightarrow> reply req (bad_request e) st
     | Inr body \<Rightarrow> (case parseHttpCommandBody body st of
           (Inl e, st1) \<Rightarrow> reply req (bad_request e) st1
         | (Inr command, st1) \<Rightarrow>
             sendCommandToExtension net command (CommandWaiter req) (REQUEST_TIMEOUT_MS cfg) True st1))"

text \<open>What the request that awaits a promise answers once the promise has settled.\<close>

fun waiter_req :: "waiter \<Rightarrow> nat" where
  "waiter_req (CommandWaiter r) = r"
| "waiter_req (HealthWaiter r) = r"

fun reply_of :: "relay_config \<Rightarrow> string \<Rightarrow> waiter \<Rightarrow> js \<Rightarrow> http_response" where
  "reply_of cfg now (CommandWaiter r) msg = command_reply msg"
| "reply_of cfg now (HealthWaiter r) msg = health_reply cfg now (probe_of_response msg)"


section \<open>Event streams\<close>

definition stream_cleanup :: "nat \<Rightarrow> relay \<Rightarrow> relay" where
  "stream_cleanup c st = (case mapGet (streams st) c of
      None \<Rightarrow> st
    | Some keepaliveIdRef \<Rightarrow>
        let st1 = (case keepaliveIdRef of None \<Rightarrow> st | Some t \<Rightarrow> clearTimer t st);
            st2 = st1\<lparr>sseClients := mapDelete (sseClients st1) c, streams := mapDelete (streams st1) c\<rparr>
        in emit (SseClosed c) st2)"

definition stream_start :: "relay_config \<Rightarrow> net \<Rightarrow> bool \<Rightarrow> nat \<Rightarrow> relay \<Rightarrow> relay" where
  "stream_start cfg net aborted c st = (
     let st1 = st\<lparr>streams := mapSet (streams st) c None, sseClients := mapSet (sseClients st) c ()\<rparr>;
         hello = sse_frame (Obj [(''type'', Str ''hello''),
                   (''extensionConnected'', Bool (is_open net (extension st1)))]);
         st2 = (if enqueue_error net c then st1 else emit (SseData c hello) st1);
         (keepaliveId, st3) = setTimer (SseKeepalive c) (SSE_KEEPALIVE_MS cfg) st2;
         st4 = st3\<lparr>streams := mapSet (streams st3) c (Some keepaliveId)\<rparr>
     in if aborted then stream_cleanup c st4 else st4)"

definition stream_keepalive_tick :: "net \<Rightarrow> nat \<Rightarrow> relay \<Rightarrow> relay" where
  "stream_keepalive_tick net c st = (if enqueue_error net c then st
     else emit (SseComment c ('': keepalive'' @ newline @ newline)) st)"


section \<open>Routing\<close>

record http_request =
  rq_path :: string
  rq_method :: string
  rq_body :: string
  rq_aborted :: bool
  rq_upgraded :: bool

text \<open>
  \<open>fetch\<close>. The body of a command is read asynchronously before anything else happens; the
  request is taken at the moment its text is there. \<open>rq_upgraded\<close> is what
  \<open>bunServer.upgrade\<close> answers.
\<close>

definition fetch :: "relay_config \<Rightarrow> json_parser \<Rightarrow> net \<Rightarrow> http_request \<Rightarrow> relay \<Rightarrow> relay" where
  "fetch cfg parse net rq st0 = (
     let req = nextReq st0; st = st0\<lparr>nextReq := Suc (nextReq st0)\<rparr> in
     if rq_path rq = ''/health'' then handleHealth cfg net (rq_method rq) req st
     else if rq_path rq = ''/command'' \<and> rq_method rq = ''POST'' then
       handleHttpCommand cfg parse net (rq_body rq) req st
     else if rq_path rq = ''/events'' \<and> rq_method rq = ''GET'' then
       reply req \<lparr>hr_status = 200, hr_body = EventStream\<rparr> (stream_start cfg net (rq_aborted rq) req st)
     else if rq_path rq = ''/extension'' then
       if rq_upgraded rq then reply req \<lparr>hr_status = 101, hr_body = NoBody\<rparr> st
       else reply req \<lparr>hr_status = 426, hr_body = Text ''Upgrade required''\<rparr> st
     else reply req \<lparr>hr_status = 404, hr_body = Text ''Not found''\<rparr> st)"

end
