(* ===== verification/RelayServer.thy ===== *)
theory RelayServer
  imports RelayHttp
begin

text \<open>
  The WebSocket handlers of the relay, \<open>skill/scripts/relay.ts\<close>, and the whole process as a
  machine over events: HTTP requests, socket events, timers and cancelled streams.
\<close>

section \<open>WebSocket handlers\<close>

datatype ws_role = ExtensionRole | ClientRole

definition status_message :: "bool \<Rightarrow> js" where
  "status_message b = Obj [(''type'', Str ''status''), (''extensionConnected'', Bool b)]"

definition ws_open :: "relay_config \<Rightarrow> net \<Rightarrow> ws_role \<Rightarrow> nat \<Rightarrow> relay \<Rightarrow> relay" where
  "ws_open cfg net role ws st = (
     if role = ExtensionRole then
       let st1 = (case extension st of
             None \<Rightarrow> st
           | Some old \<Rightarrow>
               if ready net old = OPEN then
                 emit (WsClose old 1012 ''Replaced'')
                   (relay_log ''warn'' [Str ''Replacing existing extension connection'']
                     (failAllPending (makeErrorInfo ''EXTENSION_RECONNECTED''
                        ''Extension reconnected; previous in-flight commands were canceled.'' None None) st))
               else st);
           st2 = st1\<lparr>extension := Some ws\<rparr>;
           st3 = relay_log ''info'' [Str ''Extension connected''] st2;
           st4 = startExtensionKeepalive cfg ws st3
       in sseBroadcast net (status_message True) st4
     else st)"

definition ws_message :: "json_parser \<Rightarrow> net \<Rightarrow> ws_role \<Rightarrow> string \<Rightarrow> relay \<Rightarrow> relay" where
  "ws_message parse net role text st = (
     case parseJsonText parse text ''INVALID_EXTENSION_MESSAGE''
            ''Received invalid JSON from extension websocket'' None of
       Inl e \<Rightarrow> sseBroadcast net (Obj [(''type'', Str ''extension-message-parse-error''),
                  (''error'', Str (ei_message e)), (''errorInfo'', error_info_js e), (''raw'', Str text)]) st
     | Inr parsed \<Rightarrow>
         if role = ExtensionRole then
           if isExtensionResponseMessage parsed then
             if mapHas (pending st) (the_num (js_get parsed ''id''))
             then respondPending (the_num (js_get parsed ''id'')) parsed st
             else sseBroadcast net (Obj [(''type'', Str ''orphan-response''),
                    (''result'', nullish (js_get parsed ''result'') Null),
                    (''error'', nullish (js_get parsed ''error'') Null),
                    (''errorInfo'', nullish (js_get parsed ''errorInfo'') Null)]) st
           else if isExtensionEventMessage parsed \<or> isExtensionLogMessage parsed then
             sseBroadcast net parsed st
           else sseBroadcast net (Obj [(''type'', Str ''unknown-from-extension''), (''raw'', parsed)]) st
         else st)"

definition ws_close :: "net \<Rightarrow> ws_role \<Rightarrow> nat \<Rightarrow> nat \<Rightarrow> string \<Rightarrow> relay \<Rightarrow> relay" where
  "ws_close net role ws c reason st = (
     if role = ExtensionRole then
       if extension st \<noteq> Some ws then relay_log ''warn'' [Str ''Stale extension socket closed'',
         Obj [(''code'', Num (num_of_nat c)), (''reason'', Str reason)]] st
       else
         let st1 = st\<lparr>extension := None\<rparr>;
             st2 = stopExtensionKeepalive st1;
             st3 = failAllPending (makeErrorInfo ''EXTENSION_DISCONNECTED''
                     ''Extension disconnected before command completed.''
                     (Some (Obj [(''code'', Num (num_of_nat c)), (''reason'', Str reason)])) None) st2;
             st4 = relay_log ''warn'' [Str ''Extension disconnected'',
                     Obj [(''code'', Num (num_of_nat c)), (''reason'', Str reason)]] st3
         in sseBroadcast net (status_message False) st4
     else st)"


section \<open>Timers\<close>

text \<open>A timer fires only while it is in the table; a timeout leaves the table, an interval stays.\<close>

definition fire :: "net \<Rightarrow> nat \<Rightarrow> relay \<Rightarrow> relay" where
  "fire net t st = (case mapGet (timers st) t of
      None \<Rightarrow> st
    | Some (CommandTimeout cid ms hint, _) \<Rightarrow>
        respondPending cid (makeErrorResponse cid (makeTimeoutErrorInfo ms hint)) (clearTimer t st)
    | Some (ExtensionKeepalive ws, _) \<Rightarrow> extension_keepalive_tick net ws st
    | Some (SseKeepalive c, _) \<Rightarrow> stream_keepalive_tick net c st)"


section \<open>The process\<close>

datatype event =
    Fetch http_request
  | SocketOpen ws_role nat
  | SocketMessage ws_role string
  | SocketClose ws_role nat nat string
  | TimerFires nat
  | StreamCancel nat
  | StreamAbort nat

fun handle :: "relay_config \<Rightarrow> json_parser \<Rightarrow> net \<Rightarrow> event \<Rightarrow> relay \<Rightarrow> relay" where
  "handle cfg parse net (Fetch rq) st = fetch cfg parse net rq st"
| "handle cfg parse net (SocketOpen role ws) st = ws_open cfg net role ws st"
| "handle cfg parse net (SocketMessage role text) st = ws_message parse net role text st"
| "handle cfg parse net (SocketClose role ws c reason) st = ws_close net role ws c reason st"
| "handle cfg parse net (TimerFires t) st = fire net t st"
| "handle cfg parse net (StreamCancel c) st = stream_cleanup c st"
| "handle cfg parse net (StreamAbort c) st = stream_cleanup c st"

text \<open>
  After a handler has run to completion, the requests whose promises it settled go on and answer,
  in the order of settlement.
\<close>

fun continue_with :: "relay_config \<Rightarrow> string \<Rightarrow> effect list \<Rightarrow> relay \<Rightarrow> relay" where
  "continue_with cfg now [] st = st"
| "continue_with cfg now (Resolved w msg # es) st =
     continue_with cfg now es (reply (waiter_req w) (reply_of cfg now w msg) st)"
| "continue_with cfg now (_ # es) st = continue_with cfg now es st"

definition relay_step :: "relay_config \<Rightarrow> json_parser \<Rightarrow> net \<times> event \<Rightarrow> relay \<Rightarrow> relay" where
  "relay_step cfg parse ne st = (
     let st1 = handle cfg parse (fst ne) (snd ne) st
     in continue_with cfg (clock (fst ne)) (drop (length (trace st)) (trace st1)) st1)"

end
