(* ===== verification/RelayInvariant.thy ===== *)
theory RelayInvariant
  imports RelayServer
begin

text \<open>
  The invariant of the relay process: which timers are live and whom they belong to, how the
  pending table accounts for every promise, and which streams are subscribed. One preservation
  lemma per operation, then per handler, then for whole runs.
\<close>

section \<open>Frames\<close>

lemma emit_frame [relay_frame, simp]:
  "extension (emit e st) = extension st" "nextId (emit e st) = nextId st"
  "pending (emit e st) = pending st" "extensionKeepaliveId (emit e st) = extensionKeepaliveId st"
  "sseClients (emit e st) = sseClients st" "timers (emit e st) = timers st"
  "streams (emit e st) = streams st" "nextTimer (emit e st) = nextTimer st"
  "nextReq (emit e st) = nextReq st" "trace (emit e st) = trace st @ [e]"
  by (simp_all add: emit_def)

lemma clearTimer_frame [relay_frame, simp]:
  "extension (clearTimer t st) = extension st" "nextId (clearTimer t st) = nextId st"
  "pending (clearTimer t st) = pending st" "extensionKeepaliveId (clearTimer t st) = extensionKeepaliveId st"
  "sseClients (clearTimer t st) = sseClients st" "timers (clearTimer t st) = mapDelete (timers st) t"
  "streams (clearTimer t st) = streams st" "nextTimer (clearTimer t st) = nextTimer st"
  "nextReq (clearTimer t st) = nextReq st" "trace (clearTimer t st) = trace st"
  by (simp_all add: clearTimer_def)

text \<open>The promises begun and the promises settled, in order, read off the trace.\<close>

definition begun_in :: "effect list \<Rightarrow> waiter list" where
  "begun_in es = concat (map (\<lambda>e. case e of Awaiting w c \<Rightarrow> [w] | _ \<Rightarrow> []) es)"

definition settled_in :: "effect list \<Rightarrow> waiter list" where
  "settled_in es = concat (map (\<lambda>e. case e of Resolved w m \<Rightarrow> [w] | _ \<Rightarrow> []) es)"

definition awaiting :: "relay \<Rightarrow> waiter list" where
  "awaiting st = map (pe_resolve \<circ> snd) (pending st)"

abbreviation begun :: "relay \<Rightarrow> waiter list" where
  "begun st \<equiv> begun_in (trace st)"

abbreviation settled :: "relay \<Rightarrow> waiter list" where
  "settled st \<equiv> settled_in (trace st)"

lemma begun_in_simps [simp]:
  "begun_in [] = []" "begun_in (xs @ ys) = begun_in xs @ begun_in ys"
  "begun_in (Awaiting w c # es) = w # begun_in es" "begun_in (Resolved w m # es) = begun_in es"
  "begun_in (WsSend s j # es) = begun_in es" "begun_in (WsPing s # es) = begun_in es"
  "begun_in (WsClose s n r # es) = begun_in es" "begun_in (SseData s r # es) = begun_in es"
  "begun_in (SseComment s r # es) = begun_in es" "begun_in (SseClosed s # es) = begun_in es"
  "begun_in (Replied n h # es) = begun_in es" "begun_in (Logged l g # es) = begun_in es"
  by (simp_all add: begun_in_def)

lemma settled_in_simps [simp]:
  "settled_in [] = []" "settled_in (xs @ ys) = settled_in xs @ settled_in ys"
  "settled_in (Awaiting w c # es) = settled_in es" "settled_in (Resolved w m # es) = w # settled_in es"
  "settled_in (WsSend s j # es) = settled_in es" "settled_in (WsPing s # es) = settled_in es"
  "settled_in (WsClose s n r # es) = settled_in es" "settled_in (SseData s r # es) = settled_in es"
  "settled_in (SseComment s r # es) = settled_in es" "settled_in (SseClosed s # es) = settled_in es"
  "settled_in (Replied n h # es) = settled_in es" "settled_in (Logged l g # es) = settled_in es"
  by (simp_all add: settled_in_def)


text \<open>The requests answered, in order.\<close>

definition replied_in :: "effect list \<Rightarrow> nat list" where
  "replied_in es = concat (map (\<lambda>e. case e of Replied r h \<Rightarrow> [r] | _ \<Rightarrow> []) es)"

abbreviation replied :: "relay \<Rightarrow> nat list" where
  "replied st \<equiv> replied_in (trace st)"

lemma replied_in_simps [simp]:
  "replied_in [] = []" "replied_in (xs @ ys) = replied_in xs @ replied_in ys"
  "replied_in (Awaiting w c # es) = replied_in es" "replied_in (Resolved w m # es) = replied_in es"
  "replied_in (WsSend s j # es) = replied_in es" "replied_in (WsPing s # es) = replied_in es"
  "replied_in (WsClose s n r # es) = replied_in es" "replied_in (SseData s r # es) = replied_in es"
  "replied_in (SseComment s r # es) = replied_in es" "replied_in (SseClosed s # es) = replied_in es"
  "replied_in (Replied n h # es) = n # replied_in es" "replied_in (Logged l g # es) = replied_in es"
  by (simp_all add: replied_in_def)

lemma log_line_simps [simp]:
  "begun_in (log_line l g # es) = begun_in es" "settled_in (log_line l g # es) = settled_in es"
  "replied_in (log_line l g # es) = replied_in es"
  by (simp_all add: log_line_def)


section \<open>The invariant\<close>

definition cmd_timer :: "relay \<Rightarrow> nat \<Rightarrow> jsnum \<Rightarrow> bool" where
  "cmd_timer st t i \<longleftrightarrow> (\<exists>ms h m. mapGet (timers st) t = Some (CommandTimeout i ms h, m))"

definition ext_timer :: "relay \<Rightarrow> nat \<Rightarrow> nat \<Rightarrow> bool" where
  "ext_timer st t ws \<longleftrightarrow> (\<exists>m. mapGet (timers st) t = Some (ExtensionKeepalive ws, m))"

definition sse_timer :: "relay \<Rightarrow> nat \<Rightarrow> nat \<Rightarrow> bool" where
  "sse_timer st t c \<longleftrightarrow> (\<exists>m. mapGet (timers st) t = Some (SseKeepalive c, m))"

text \<open>A pending command has exactly one live timer of its own, and no other command timer lives.\<close>

definition pend_inv :: "relay \<Rightarrow> bool" where
  "pend_inv st \<longleftrightarrow> mapWf (pending st)
     \<and> (\<forall>t. mapGet (timers st) t \<noteq> None \<longrightarrow> t < nextTimer st)
     \<and> (\<forall>t i. cmd_timer st t i \<longleftrightarrow> (\<exists>p. mapGet (pending st) i = Some p \<and> pe_timeout p = t))"

text \<open>Every promise begun is settled once or is awaited by one pending entry, never both.\<close>

definition once_inv :: "relay \<Rightarrow> bool" where
  "once_inv st \<longleftrightarrow> mset (begun st) = mset (settled st) + mset (awaiting st)"

text \<open>Requests are numbered: no promise is begun twice for one of them.\<close>

definition fresh_inv :: "relay \<Rightarrow> bool" where
  "fresh_inv st \<longleftrightarrow> distinct (map waiter_req (begun st)) \<and> (\<forall>w \<in> set (begun st). waiter_req w < nextReq st)"

text \<open>Correlation ids in use come from the counter and lie below it.\<close>

definition id_inv :: "relay \<Rightarrow> bool" where
  "id_inv st \<longleftrightarrow> (\<forall>i p. mapGet (pending st) i = Some p \<longrightarrow> (\<exists>n < nextId st. i = num_of_nat n))"

text \<open>The extension's keepalive timer runs exactly while an extension socket is held, for that socket.\<close>

definition keep_inv :: "relay \<Rightarrow> bool" where
  "keep_inv st \<longleftrightarrow> (extension st = None \<longleftrightarrow> extensionKeepaliveId st = None)
     \<and> (\<forall>t ws. ext_timer st t ws \<longleftrightarrow> extensionKeepaliveId st = Some t \<and> extension st = Some ws)"

text \<open>Subscribed clients have an open stream; each open stream has its own live keepalive timer.\<close>

definition sse_inv :: "relay \<Rightarrow> bool" where
  "sse_inv st \<longleftrightarrow> (\<forall>c. mapGet (sseClients st) c \<noteq> None \<longrightarrow> mapGet (streams st) c \<noteq> None)
     \<and> (\<forall>c. mapGet (streams st) c \<noteq> Some None)
     \<and> (\<forall>t c. sse_timer st t c \<longleftrightarrow> mapGet (streams st) c = Some (Some t))
     \<and> (\<forall>c. mapGet (streams st) c \<noteq> None \<longrightarrow> c < nextReq st)"

definition core_inv :: "relay \<Rightarrow> bool" where
  "core_inv st \<longleftrightarrow> pend_inv st \<and> once_inv st \<and> fresh_inv st \<and> id_inv st \<and> keep_inv st \<and> sse_inv st"

text \<open>
  The counter stops being injective at \<open>2 ^ 53\<close>; up to there the invariant holds.
\<close>

definition relay_inv :: "relay \<Rightarrow> bool" where
  "relay_inv st \<longleftrightarrow> (nextId st < 2 ^ 53 \<longrightarrow> core_inv st)"

lemmas inv_defs = pend_inv_def once_inv_def fresh_inv_def id_inv_def keep_inv_def sse_inv_def

lemmas timer_defs = cmd_timer_def ext_timer_def sse_timer_def

lemma core_inv_init: "core_inv relay_init"
  by (simp add: core_inv_def inv_defs timer_defs relay_init_def awaiting_def)

lemma core_invI:
  "pend_inv st \<Longrightarrow> once_inv st \<Longrightarrow> fresh_inv st \<Longrightarrow> id_inv st \<Longrightarrow> keep_inv st \<Longrightarrow> sse_inv st \<Longrightarrow> core_inv st"
  by (simp add: core_inv_def)

lemma core_invD:
  assumes "core_inv st"
  shows "pend_inv st" "once_inv st" "fresh_inv st" "id_inv st" "keep_inv st" "sse_inv st"
  using assms by (simp_all add: core_inv_def)

text \<open>Two states that agree on everything the invariant reads satisfy it together.\<close>

lemma core_inv_cong:
  assumes "extension st' = extension st" "nextId st' = nextId st" "pending st' = pending st"
    "extensionKeepaliveId st' = extensionKeepaliveId st"
    "timers st' = timers st" "streams st' = streams st" "nextTimer st' = nextTimer st"
    "nextReq st' = nextReq st" "begun st' = begun st" "settled st' = settled st"
    "\<And>c. mapGet (sseClients st') c \<noteq> None \<Longrightarrow> mapGet (sseClients st) c \<noteq> None"
  shows "core_inv st \<Longrightarrow> core_inv st'"
  using assms by (auto simp: core_inv_def inv_defs timer_defs awaiting_def)


section \<open>Operations that only emit\<close>

definition quiet :: "effect \<Rightarrow> bool" where
  "quiet e \<longleftrightarrow> (case e of Awaiting w c \<Rightarrow> False | Resolved w m \<Rightarrow> False | _ \<Rightarrow> True)"

lemma quiet_simps [simp]:
  "quiet (WsSend s j)" "quiet (WsPing s)" "quiet (WsClose s n r)" "quiet (SseData s r)"
  "quiet (SseComment s r)" "quiet (SseClosed s)" "quiet (Replied n h)" "quiet (Logged l g)"
  "quiet (log_line lv args)"
  by (simp_all add: quiet_def log_line_def)

lemma quiet_traces [simp]:
  "quiet e \<Longrightarrow> begun_in [e] = []" "quiet e \<Longrightarrow> settled_in [e] = []"
  by (cases e; simp add: quiet_def)+

lemma core_inv_emit: "quiet e \<Longrightarrow> core_inv st \<Longrightarrow> core_inv (emit e st)"
  by (rule core_inv_cong [of "emit e st" st]) auto

lemma core_inv_log: "core_inv st \<Longrightarrow> core_inv (relay_log l m st)"
  by (simp add: relay_log_def core_inv_emit)

lemma core_inv_reply: "core_inv st \<Longrightarrow> core_inv (reply n r st)"
  by (simp add: reply_def core_inv_emit)

lemma relay_log_frame [relay_frame, simp]:
  "extension (relay_log l m st) = extension st" "nextId (relay_log l m st) = nextId st"
  "pending (relay_log l m st) = pending st"
  "extensionKeepaliveId (relay_log l m st) = extensionKeepaliveId st"
  "sseClients (relay_log l m st) = sseClients st" "timers (relay_log l m st) = timers st"
  "streams (relay_log l m st) = streams st" "nextTimer (relay_log l m st) = nextTimer st"
  "nextReq (relay_log l m st) = nextReq st" "begun (relay_log l m st) = begun st"
  "settled (relay_log l m st) = settled st" "replied (relay_log l m st) = replied st"
  by (simp_all add: relay_log_def)

lemma reply_frame [relay_frame, simp]:
  "extension (reply n r st) = extension st" "nextId (reply n r st) = nextId st"
  "pending (reply n r st) = pending st"
  "extensionKeepaliveId (reply n r st) = extensionKeepaliveId st"
  "sseClients (reply n r st) = sseClients st" "timers (reply n r st) = timers st"
  "streams (reply n r st) = streams st" "nextTimer (reply n r st) = nextTimer st"
  "nextReq (reply n r st) = nextReq st" "begun (reply n r st) = begun st"
  "settled (reply n r st) = settled st" "replied (reply n r st) = replied st @ [n]"
  by (simp_all add: reply_def)

lemma broadcast_to_frame [relay_frame, simp]:
  "extension (broadcast_to net p cs st) = extension st" "nextId (broadcast_to net p cs st) = nextId st"
  "pending (broadcast_to net p cs st) = pending st"
  "extensionKeepaliveId (broadcast_to net p cs st) = extensionKeepaliveId st"
  "timers (broadcast_to net p cs st) = timers st" "streams (broadcast_to net p cs st) = streams st"
  "nextTimer (broadcast_to net p cs st) = nextTimer st" "nextReq (broadcast_to net p cs st) = nextReq st"
  "begun (broadcast_to net p cs st) = begun st" "settled (broadcast_to net p cs st) = settled st"
  "replied (broadcast_to net p cs st) = replied st"
  by (induction cs arbitrary: st) auto

lemma broadcast_to_clients:
  "mapGet (sseClients (broadcast_to net p cs st)) c =
     (if c \<in> set cs \<and> enqueue_error net c then None else mapGet (sseClients st) c)"
  by (induction cs arbitrary: st) auto

lemma sseBroadcast_frame [relay_frame, simp]:
  "extension (sseBroadcast net m st) = extension st" "nextId (sseBroadcast net m st) = nextId st"
  "pending (sseBroadcast net m st) = pending st"
  "extensionKeepaliveId (sseBroadcast net m st) = extensionKeepaliveId st"
  "timers (sseBroadcast net m st) = timers st" "streams (sseBroadcast net m st) = streams st"
  "nextTimer (sseBroadcast net m st) = nextTimer st" "nextReq (sseBroadcast net m st) = nextReq st"
  "begun (sseBroadcast net m st) = begun st" "settled (sseBroadcast net m st) = settled st"
  "replied (sseBroadcast net m st) = replied st"
  by (simp_all add: sseBroadcast_def)

lemma core_inv_broadcast: "core_inv st \<Longrightarrow> core_inv (sseBroadcast net m st)"
  by (rule core_inv_cong [of "sseBroadcast net m st" st])
     (auto simp: sseBroadcast_def broadcast_to_clients split: if_splits)

lemma continue_with_frame [relay_frame, simp]:
  "extension (continue_with cfg now es st) = extension st" "nextId (continue_with cfg now es st) = nextId st"
  "pending (continue_with cfg now es st) = pending st"
  "extensionKeepaliveId (continue_with cfg now es st) = extensionKeepaliveId st"
  "sseClients (continue_with cfg now es st) = sseClients st" "timers (continue_with cfg now es st) = timers st"
  "streams (continue_with cfg now es st) = streams st" "nextTimer (continue_with cfg now es st) = nextTimer st"
  "nextReq (continue_with cfg now es st) = nextReq st" "begun (continue_with cfg now es st) = begun st"
  "settled (continue_with cfg now es st) = settled st"
  "replied (continue_with cfg now es st) = replied st @ map waiter_req (settled_in es)"
  by (induction cfg now es st rule: continue_with.induct) auto

lemma core_inv_continue: "core_inv st \<Longrightarrow> core_inv (continue_with cfg now es st)"
  by (rule core_inv_cong [of "continue_with cfg now es st" st]) auto


section \<open>Settling a pending command\<close>

lemma respondPending_None: "mapGet (pending st) i = None \<Longrightarrow> respondPending i m st = st"
  by (simp add: respondPending_def)

lemma respondPending_Some:
  "mapGet (pending st) i = Some p \<Longrightarrow> respondPending i m st =
     emit (Resolved (pe_resolve p) m)
       (st\<lparr>timers := mapDelete (timers st) (pe_timeout p), pending := mapDelete (pending st) i\<rparr>)"
  by (simp add: respondPending_def resolve_def clearTimer_def Let_def)

lemma respondPending_frame [relay_frame, simp]:
  "extension (respondPending i m st) = extension st" "nextId (respondPending i m st) = nextId st"
  "extensionKeepaliveId (respondPending i m st) = extensionKeepaliveId st"
  "sseClients (respondPending i m st) = sseClients st" "streams (respondPending i m st) = streams st"
  "nextTimer (respondPending i m st) = nextTimer st" "nextReq (respondPending i m st) = nextReq st"
  "begun (respondPending i m st) = begun st" "replied (respondPending i m st) = replied st"
  by (cases "mapGet (pending st) i"; simp add: respondPending_None respondPending_Some)+

lemma respondPending_pending: "pending (respondPending i m st) = mapDelete (pending st) i"
proof (cases "mapGet (pending st) i")
  case None
  then show ?thesis by (simp add: respondPending_None mapDelete_notin mapKeys_get)
next
  case (Some p)
  then show ?thesis by (simp add: respondPending_Some)
qed

lemma cmd_timer_unique: "cmd_timer st t i \<Longrightarrow> cmd_timer st t j \<Longrightarrow> i = j"
  by (auto simp: cmd_timer_def)

lemma cmd_timer_not_other:
  "cmd_timer st t i \<Longrightarrow> \<not> ext_timer st t ws" "cmd_timer st t i \<Longrightarrow> \<not> sse_timer st t c"
  by (auto simp: timer_defs)

lemma timers_delete:
  assumes "timers st' = mapDelete (timers st) t"
  shows "cmd_timer st' t' i \<longleftrightarrow> t' \<noteq> t \<and> cmd_timer st t' i"
    and "ext_timer st' t' ws \<longleftrightarrow> t' \<noteq> t \<and> ext_timer st t' ws"
    and "sse_timer st' t' c \<longleftrightarrow> t' \<noteq> t \<and> sse_timer st t' c"
  using assms by (auto simp: timer_defs)

lemma core_inv_respond:
  assumes inv: "core_inv st"
  shows "core_inv (respondPending i m st)"
proof (cases "mapGet (pending st) i")
  case None
  with inv show ?thesis by (simp add: respondPending_None)
next
  case (Some p)
  let ?t = "pe_timeout p" and ?st = "respondPending i m st"
  note I = core_invD [OF inv]
  have tim: "timers ?st = mapDelete (timers st) ?t" and pen: "pending ?st = mapDelete (pending st) i"
    and set: "settled ?st = settled st @ [pe_resolve p]"
    by (simp_all add: respondPending_Some [OF Some])
  note del = timers_delete [OF tim]
  from I(1) Some have t: "cmd_timer st ?t i" by (auto simp: pend_inv_def)
  have "pend_inv ?st"
  proof -
    have "cmd_timer ?st t' j \<longleftrightarrow> (\<exists>q. mapGet (pending ?st) j = Some q \<and> pe_timeout q = t')" for t' j
    proof -
      from I(1) have iff: "cmd_timer st u k \<longleftrightarrow> (\<exists>q. mapGet (pending st) k = Some q \<and> pe_timeout q = u)" for u k
        by (simp add: pend_inv_def)
      show ?thesis
      proof (cases "j = i")
        case True
        then show ?thesis by (auto simp: pen del iff Some)
      next
        case False
        then have "pe_timeout q \<noteq> ?t" if "mapGet (pending st) j = Some q" for q
          using that iff [of ?t] t cmd_timer_unique by blast
        with False show ?thesis by (auto simp: pen del iff)
      qed
    qed
    with I(1) show ?thesis by (auto simp: pend_inv_def pen tim)
  qed
  moreover have "once_inv ?st"
  proof -
    from I(1) Some have "mset (pending st) = add_mset (i, p) (mset (mapDelete (pending st) i))"
      by (intro mset_mapDelete) (auto simp: pend_inv_def)
    then have "mset (awaiting st) = add_mset (pe_resolve p) (mset (awaiting ?st))"
      unfolding awaiting_def pen mset_map by simp
    with I(2) show ?thesis by (simp add: once_inv_def set)
  qed
  moreover have "fresh_inv ?st" and "id_inv ?st"
    using I(3,4) by (auto simp: fresh_inv_def id_inv_def pen)
  moreover have "keep_inv ?st" and "sse_inv ?st"
    using I(5,6) cmd_timer_not_other [OF t] by (auto simp: keep_inv_def sse_inv_def del)
  ultimately show ?thesis by (rule core_invI)
qed

lemma fail_entries_fold:
  "mapWf es \<Longrightarrow> (\<And>i p. (i, p) \<in> set es \<Longrightarrow> mapGet (pending st) i = Some p) \<Longrightarrow>
   fail_entries e es st = fold (\<lambda>(i, p). respondPending i (makeErrorResponse i e)) es st"
proof (induction es arbitrary: st)
  case Nil
  then show ?case by simp
next
  case (Cons x es)
  obtain i p where x: "x = (i, p)" by (cases x)
  from Cons.prems x have ip: "mapGet (pending st) i = Some p" by auto
  let ?st = "respondPending i (makeErrorResponse i e) st"
  have "fail_entries e (x # es) st = fail_entries e es ?st"
    by (simp add: x respondPending_def ip Let_def)
  also have "\<dots> = fold (\<lambda>(i, p). respondPending i (makeErrorResponse i e)) es ?st"
  proof (rule Cons.IH)
    from Cons.prems(1) show "mapWf es" by (simp add: mapWf_def)
    fix j q assume jq: "(j, q) \<in> set es"
    with Cons.prems(1) x have "j \<noteq> i" by (force simp: mapWf_def)
    with Cons.prems(2) [of j q] jq show "mapGet (pending ?st) j = Some q"
      by (simp add: respondPending_pending)
  qed
  finally show ?case by (simp add: x)
qed

lemma failAllPending_fold:
  "mapWf (pending st) \<Longrightarrow>
   failAllPending e st = fold (\<lambda>(i, p). respondPending i (makeErrorResponse i e)) (pending st) st"
  by (simp add: failAllPending_def fail_entries_fold mapGet_in)

lemma core_inv_fold_respond:
  "core_inv st \<Longrightarrow> core_inv (fold (\<lambda>(i, p). respondPending i (f i)) es st)"
  by (induction es arbitrary: st) (auto simp: core_inv_respond)

lemma core_inv_failAll:
  assumes "core_inv st"
  shows "core_inv (failAllPending e st)"
proof -
  from assms have "mapWf (pending st)" by (simp add: core_inv_def pend_inv_def)
  with assms show ?thesis by (simp add: failAllPending_fold core_inv_fold_respond)
qed

lemma fail_entries_frame [relay_frame, simp]:
  "extension (fail_entries e es st) = extension st" "nextId (fail_entries e es st) = nextId st"
  "extensionKeepaliveId (fail_entries e es st) = extensionKeepaliveId st"
  "sseClients (fail_entries e es st) = sseClients st" "streams (fail_entries e es st) = streams st"
  "nextTimer (fail_entries e es st) = nextTimer st" "nextReq (fail_entries e es st) = nextReq st"
  "begun (fail_entries e es st) = begun st" "replied (fail_entries e es st) = replied st"
  by (induction e es st rule: fail_entries.induct) (simp_all add: Let_def resolve_def)

lemma failAllPending_frame [relay_frame, simp]:
  "extension (failAllPending e st) = extension st" "nextId (failAllPending e st) = nextId st"
  "extensionKeepaliveId (failAllPending e st) = extensionKeepaliveId st"
  "sseClients (failAllPending e st) = sseClients st" "streams (failAllPending e st) = streams st"
  "nextTimer (failAllPending e st) = nextTimer st" "nextReq (failAllPending e st) = nextReq st"
  "begun (failAllPending e st) = begun st" "replied (failAllPending e st) = replied st"
  by (simp_all add: failAllPending_def)

lemma fail_entries_pending: "pending (fail_entries e es st) = fold (\<lambda>(i, p) m. mapDelete m i) es (pending st)"
  by (induction e es st rule: fail_entries.induct) (simp_all add: Let_def resolve_def)

lemma fold_delete_Nil: "fold (\<lambda>(i, p) m. mapDelete m i) es [] = []"
  by (induction es) auto

lemma fold_delete_all: "set m \<subseteq> set es \<Longrightarrow> fold (\<lambda>(i, p) m. mapDelete m i) es m = []"
proof (induction es arbitrary: m)
  case Nil
  then show ?case by simp
next
  case (Cons x es)
  obtain i p where "x = (i, p)" by (cases x)
  with Cons show ?case by (auto simp: set_mapDelete intro!: Cons.IH)
qed

lemma failAllPending_pending: "pending (failAllPending e st) = []"
  by (simp add: failAllPending_def fail_entries_pending fold_delete_all)



section \<open>Timers of the other kinds\<close>

lemma nextTimer_fresh: "pend_inv st \<Longrightarrow> mapGet (timers st) (nextTimer st) = None"
  by (cases "mapGet (timers st) (nextTimer st)") (auto simp: pend_inv_def dest: spec [of _ "nextTimer st"])

lemma timers_set:
  assumes "mapGet (timers st) u = None" "timers st' = mapSet (timers st) u (k, ms)"
  shows "cmd_timer st' t i \<longleftrightarrow> cmd_timer st t i \<or> t = u \<and> (\<exists>m h. k = CommandTimeout i m h)"
    and "ext_timer st' t ws \<longleftrightarrow> ext_timer st t ws \<or> t = u \<and> k = ExtensionKeepalive ws"
    and "sse_timer st' t c \<longleftrightarrow> sse_timer st t c \<or> t = u \<and> k = SseKeepalive c"
  using assms by (auto simp: timer_defs)

lemma stopExtensionKeepalive_eq:
  "stopExtensionKeepalive st = (case extensionKeepaliveId st of
     None \<Rightarrow> st | Some t \<Rightarrow> st\<lparr>timers := mapDelete (timers st) t, extensionKeepaliveId := None\<rparr>)"
  by (simp add: stopExtensionKeepalive_def clearTimer_def split: option.split)

lemma core_inv_disconnect:
  assumes inv: "core_inv st"
  shows "core_inv (stopExtensionKeepalive (st\<lparr>extension := None\<rparr>))"
proof (cases "extensionKeepaliveId st")
  case None
  with inv show ?thesis
    by (auto simp: stopExtensionKeepalive_eq core_inv_def inv_defs timer_defs awaiting_def)
next
  case (Some t)
  let ?st = "stopExtensionKeepalive (st\<lparr>extension := None\<rparr>)"
  note I = core_invD [OF inv]
  from I(5) Some obtain ws where t: "ext_timer st t ws" by (auto simp: keep_inv_def)
  have "timers ?st = mapDelete (timers st) t" by (simp add: stopExtensionKeepalive_eq Some)
  note del = timers_delete [OF this]
  have f: "pending ?st = pending st" "trace ?st = trace st" "nextId ?st = nextId st" "nextReq ?st = nextReq st"
    "streams ?st = streams st" "sseClients ?st = sseClients st" "nextTimer ?st = nextTimer st"
    "extension ?st = None" "extensionKeepaliveId ?st = None" "timers ?st = mapDelete (timers st) t"
    by (simp_all add: stopExtensionKeepalive_eq Some)
  from t have no: "\<not> cmd_timer st t i" "\<not> sse_timer st t c" for i c
    by (auto simp: timer_defs)
  have "pend_inv ?st" using I(1) no by (auto simp: pend_inv_def f del split: if_splits)
  moreover have "keep_inv ?st" using I(5) Some by (auto simp: keep_inv_def del f(8,9))
  moreover have "sse_inv ?st" using I(6) no by (auto simp: sse_inv_def del f(4,5,6))
  ultimately show ?thesis
    using I(2,3,4) by (simp add: core_inv_def once_inv_def fresh_inv_def id_inv_def awaiting_def f)
qed

lemma core_inv_connect:
  assumes inv: "core_inv st"
  shows "core_inv (startExtensionKeepalive cfg ws (relay_log l m (st\<lparr>extension := Some ws\<rparr>)))"
proof -
  let ?s0 = "stopExtensionKeepalive (st\<lparr>extension := None\<rparr>)"
  let ?st = "startExtensionKeepalive cfg ws (relay_log l m (st\<lparr>extension := Some ws\<rparr>))"
  let ?u = "nextTimer st"
  have I: "core_inv ?s0" by (rule core_inv_disconnect [OF inv])
  note J = core_invD [OF I]
  have g: "nextTimer ?s0 = ?u" "extension ?s0 = None" "extensionKeepaliveId ?s0 = None"
    by (auto simp: stopExtensionKeepalive_eq split: option.split)
  have f: "pending ?st = pending ?s0" "begun ?st = begun ?s0" "settled ?st = settled ?s0"
    "nextId ?st = nextId ?s0" "nextReq ?st = nextReq ?s0" "streams ?st = streams ?s0"
    "sseClients ?st = sseClients ?s0" "nextTimer ?st = Suc ?u" "extension ?st = Some ws"
    "extensionKeepaliveId ?st = Some ?u"
    "timers ?st = mapSet (timers ?s0) ?u (ExtensionKeepalive ws, EXTENSION_KEEPALIVE_MS cfg)"
    by (auto simp: startExtensionKeepalive_def setTimer_def stopExtensionKeepalive_eq relay_log_def emit_def
        split: option.split)
  have u: "mapGet (timers ?s0) ?u = None" using nextTimer_fresh [OF J(1)] by (simp add: g)
  note ts = timers_set [OF u f(11)]
  have noext: "\<not> ext_timer ?s0 t w" for t w using J(5) g by (simp add: keep_inv_def)
  have "pend_inv ?st"
    using J(1) by (auto simp: pend_inv_def f ts g less_Suc_eq)
  moreover have "keep_inv ?st" by (auto simp: keep_inv_def ts f noext)
  moreover have "sse_inv ?st" using J(6) by (simp add: sse_inv_def ts f)
  ultimately show ?thesis
    using J(2,3,4) by (simp add: core_inv_def once_inv_def fresh_inv_def id_inv_def awaiting_def f)
qed

lemma core_inv_cleanup:
  assumes inv: "core_inv st"
  shows "core_inv (stream_cleanup c st)"
proof (cases "mapGet (streams st) c")
  case None
  with inv show ?thesis by (simp add: stream_cleanup_def)
next
  case (Some k)
  let ?st = "stream_cleanup c st"
  note I = core_invD [OF inv]
  from I(6) Some obtain t where k: "k = Some t" by (cases k) (auto simp: sse_inv_def)
  from I(6) Some k have t: "sse_timer st t c" by (simp add: sse_inv_def)
  then have no: "\<not> cmd_timer st t i" "\<not> ext_timer st t ws" for i ws by (auto simp: timer_defs)
  have f: "pending ?st = pending st" "begun ?st = begun st" "settled ?st = settled st"
    "nextId ?st = nextId st" "nextReq ?st = nextReq st" "streams ?st = mapDelete (streams st) c"
    "sseClients ?st = mapDelete (sseClients st) c" "nextTimer ?st = nextTimer st"
    "extension ?st = extension st" "extensionKeepaliveId ?st = extensionKeepaliveId st"
    "timers ?st = mapDelete (timers st) t"
    by (simp_all add: stream_cleanup_def Some k Let_def)
  note del = timers_delete [OF f(11)]
  have one: "sse_timer st t d \<Longrightarrow> d = c" for d using t by (auto simp: sse_timer_def)
  have "pend_inv ?st" using I(1) no by (auto simp: pend_inv_def f del split: if_splits)
  moreover have "keep_inv ?st" using I(5) no by (auto simp: keep_inv_def del f)
  moreover have "sse_inv ?st"
  proof -
    from I(6) have iff: "sse_timer st u d \<longleftrightarrow> mapGet (streams st) d = Some (Some u)" for u d
      by (simp add: sse_inv_def)
    have "sse_timer ?st u d \<longleftrightarrow> mapGet (streams ?st) d = Some (Some u)" for u d
      using one [of d] unfolding del f iff by (cases "d = c") (auto simp: Some k)
    with I(6) show ?thesis by (simp add: sse_inv_def f)
  qed
  ultimately show ?thesis
    using I(2,3,4) by (simp add: core_inv_def once_inv_def fresh_inv_def id_inv_def awaiting_def f)
qed

text \<open>The state of a stream's start after its timer is set, before the abort signal is looked at.\<close>

lemma core_inv_stream:
  assumes inv: "core_inv st" and c: "c < nextReq st" and new: "mapGet (streams st) c = None"
  shows "core_inv (stream_start cfg net aborted c st)"
proof -
  let ?u = "nextTimer st"
  define st' where "st' = stream_start cfg net False c st"
  note I = core_invD [OF inv]
  have f: "pending st' = pending st" "begun st' = begun st" "settled st' = settled st"
    "nextId st' = nextId st" "nextReq st' = nextReq st"
    "\<And>d. mapGet (streams st') d = (if d = c then Some (Some ?u) else mapGet (streams st) d)"
    "sseClients st' = mapSet (sseClients st) c ()" "nextTimer st' = Suc ?u"
    "extension st' = extension st" "extensionKeepaliveId st' = extensionKeepaliveId st"
    "timers st' = mapSet (timers st) ?u (SseKeepalive c, SSE_KEEPALIVE_MS cfg)"
    by (simp_all add: st'_def stream_start_def setTimer_def Let_def)
  have u: "mapGet (timers st) ?u = None" using nextTimer_fresh [OF I(1)] .
  note ts = timers_set [OF u f(11)]
  have no: "\<not> sse_timer st t c" for t using I(6) new by (simp add: sse_inv_def)
  have no': "\<not> sse_timer st ?u d" for d using u by (simp add: sse_timer_def)
  have "pend_inv st'" using I(1) by (auto simp: pend_inv_def f ts less_Suc_eq)
  moreover have "keep_inv st'" using I(5) by (simp add: keep_inv_def ts f)
  moreover have "sse_inv st'" using I(6) c new no no' by (auto simp: sse_inv_def ts f)
  ultimately have *: "core_inv st'"
    using I(2,3,4) by (simp add: core_inv_def once_inv_def fresh_inv_def id_inv_def awaiting_def f)
  have "stream_start cfg net aborted c st = (if aborted then stream_cleanup c st' else st')"
    by (simp add: st'_def stream_start_def setTimer_def Let_def)
  with * show ?thesis by (simp add: core_inv_cleanup)
qed

end
