(* ===== verification/RelayRun.thy ===== *)
theory RelayRun
  imports RelayInvariant
begin

text \<open>
  The invariant along the runs of the relay: sending a command, every handler, every step, and
  the interpretation of the machine interface. The properties of the relay follow from it.
\<close>

section \<open>Sending a command\<close>

text \<open>What a new promise needs: an unused correlation id below the counter, an unused request.\<close>

definition fresh_for :: "relay \<Rightarrow> nat \<Rightarrow> waiter \<Rightarrow> bool" where
  "fresh_for st n w \<longleftrightarrow> n < nextId st \<and> mapGet (pending st) (num_of_nat n) = None
     \<and> waiter_req w < nextReq st \<and> waiter_req w \<notin> waiter_req ` set (begun st)"

definition registered :: "relay_command \<Rightarrow> waiter \<Rightarrow> jsnum \<Rightarrow> bool \<Rightarrow> relay \<Rightarrow> relay" where
  "registered command w ms hint st =
     st\<lparr>trace := trace st @ [Awaiting w command],
        timers := mapSet (timers st) (nextTimer st) (CommandTimeout (num_of_nat (rc_id command)) ms hint, ms),
        nextTimer := Suc (nextTimer st),
        pending := mapSet (pending st) (num_of_nat (rc_id command)) \<lparr>pe_resolve = w, pe_timeout = nextTimer st\<rparr>\<rparr>"

lemma sendCommandToExtension_eq:
  "sendCommandToExtension net command w ms hint st = (
     let cid = num_of_nat (rc_id command) in
     if \<not> is_open net (extension st) then
       resolve w (makeErrorResponse cid
         (makeErrorInfo ''EXTENSION_NOT_CONNECTED'' ''Extension is not connected'' None None))
         (emit (Awaiting w command) st)
     else case send_error net (the (extension st)) of
         None \<Rightarrow> emit (WsSend (the (extension st)) (command_js command)) (registered command w ms hint st)
       | Some err \<Rightarrow> respondPending cid (makeErrorResponse cid
           (makeErrorInfo ''WS_SEND_FAILED'' ''Failed to send command to extension'' None (Some err)))
           (registered command w ms hint st))"
  by (simp add: sendCommandToExtension_def is_open_def registered_def emit_def setTimer_def
      wsSendJson_def Let_def split: option.split)

lemma core_inv_registered:
  assumes inv: "core_inv st" and fresh: "fresh_for st (rc_id command) w"
  shows "core_inv (registered command w ms hint st)"
proof -
  let ?st = "registered command w ms hint st" and ?u = "nextTimer st"
  let ?cid = "num_of_nat (rc_id command)"
  let ?p = "\<lparr>pe_resolve = w, pe_timeout = ?u\<rparr>"
  note I = core_invD [OF inv]
  from fresh have new: "mapGet (pending st) ?cid = None" and n: "rc_id command < nextId st"
    and w: "waiter_req w < nextReq st" "waiter_req w \<notin> waiter_req ` set (begun st)"
    by (simp_all add: fresh_for_def)
  have f: "pending ?st = mapSet (pending st) ?cid ?p"
    "begun ?st = begun st @ [w]" "settled ?st = settled st" "nextId ?st = nextId st"
    "nextReq ?st = nextReq st" "streams ?st = streams st" "sseClients ?st = sseClients st"
    "nextTimer ?st = Suc ?u" "extension ?st = extension st"
    "extensionKeepaliveId ?st = extensionKeepaliveId st"
    "timers ?st = mapSet (timers st) ?u (CommandTimeout ?cid ms hint, ms)"
    by (simp_all add: registered_def)
  have u: "mapGet (timers st) ?u = None" using nextTimer_fresh [OF I(1)] .
  note ts = timers_set [OF u f(11)]
  from I(1) have iff: "cmd_timer st t i \<longleftrightarrow> (\<exists>p. mapGet (pending st) i = Some p \<and> pe_timeout p = t)" for t i
    by (simp add: pend_inv_def)
  have old: "pe_timeout p \<noteq> ?u" if "mapGet (pending st) i = Some p" for i p
    using that iff [of ?u i] u by (auto simp: cmd_timer_def)
  have "cmd_timer ?st t i \<longleftrightarrow> (\<exists>p. mapGet (pending ?st) i = Some p \<and> pe_timeout p = t)" for t i
    unfolding ts f iff using new by auto
  then have "pend_inv ?st" using I(1) by (auto simp: pend_inv_def f less_Suc_eq)
  moreover have "once_inv ?st"
    using I(2) new by (simp add: once_inv_def f awaiting_def mapSet_new mapKeys_get)
  moreover have "fresh_inv ?st" using I(3) w by (auto simp: fresh_inv_def f)
  moreover have "id_inv ?st" using I(4) n by (auto simp: id_inv_def f)
  moreover have "keep_inv ?st" using I(5) by (simp add: keep_inv_def ts f)
  moreover have "sse_inv ?st" using I(6) by (simp add: sse_inv_def ts f)
  ultimately show ?thesis by (rule core_invI)
qed

lemma core_inv_send:
  assumes inv: "core_inv st" and fresh: "fresh_for st (rc_id command) w"
  shows "core_inv (sendCommandToExtension net command w ms hint st)"
proof -
  note I = core_invD [OF inv]
  let ?r = "\<lambda>m. resolve w m (emit (Awaiting w command) st)"
  have "once_inv (?r m)" for m using I(2) by (simp add: once_inv_def resolve_def awaiting_def)
  moreover have "fresh_inv (?r m)" for m
    using I(3) fresh by (auto simp: fresh_inv_def fresh_for_def resolve_def)
  ultimately have "core_inv (?r m)" for m
    using I(1,4,5,6) by (auto simp: core_inv_def inv_defs timer_defs resolve_def)
  then show ?thesis
    using core_inv_registered [OF inv fresh]
    by (auto simp: sendCommandToExtension_eq Let_def split: option.split
        intro!: core_inv_emit core_inv_respond)
qed

lemma sendCommand_frame [relay_frame, simp]:
  "extension (sendCommandToExtension net command w ms hint st) = extension st"
  "nextId (sendCommandToExtension net command w ms hint st) = nextId st"
  "nextReq (sendCommandToExtension net command w ms hint st) = nextReq st"
  "begun (sendCommandToExtension net command w ms hint st) = begun st @ [w]"
  "replied (sendCommandToExtension net command w ms hint st) = replied st"
  by (auto simp: sendCommandToExtension_eq Let_def resolve_def registered_def split: option.split)

lemma makeCommand_simps [simp]:
  "rc_id (fst (makeCommand m p st)) = nextId st"
  "snd (makeCommand m p st) = st\<lparr>nextId := js_inc (nextId st)\<rparr>"
  by (simp_all add: makeCommand_def)

lemma core_inv_make:
  assumes inv: "core_inv st" and "js_inc (nextId st) < 2 ^ 53"
    and w: "waiter_req w < nextReq st" "waiter_req w \<notin> waiter_req ` set (begun st)"
  shows "core_inv (st\<lparr>nextId := js_inc (nextId st)\<rparr>)"
    and "fresh_for (st\<lparr>nextId := js_inc (nextId st)\<rparr>) (nextId st) w"
proof -
  note I = core_invD [OF inv]
  from assms(2) have n: "js_inc (nextId st) = Suc (nextId st)" by (rule js_inc_less)
  have "id_inv (st\<lparr>nextId := js_inc (nextId st)\<rparr>)"
    using I(4) n by (fastforce simp: id_inv_def intro: less_SucI)
  with I show "core_inv (st\<lparr>nextId := js_inc (nextId st)\<rparr>)"
    by (auto simp: core_inv_def inv_defs timer_defs awaiting_def)
  have "mapGet (pending st) (num_of_nat (nextId st)) = None"
    using I(4) by (cases "mapGet (pending st) (num_of_nat (nextId st))") (auto simp: id_inv_def)
  with w n show "fresh_for (st\<lparr>nextId := js_inc (nextId st)\<rparr>) (nextId st) w"
    by (simp add: fresh_for_def)
qed

text \<open>A body either leaves the state alone and names an error, or makes one command.\<close>

lemma parseHttpCommandBody_cases:
  obtains e where "parseHttpCommandBody body st = (Inl e, st)"
  | m p where "parseHttpCommandBody body st = (Inr (fst (makeCommand m p st)), snd (makeCommand m p st))"
proof -
  have "(\<exists>e. parseHttpCommandBody body st = (Inl e, st))
      \<or> (\<exists>m p. parseHttpCommandBody body st = (Inr (fst (makeCommand m p st)), snd (makeCommand m p st)))"
    unfolding parseHttpCommandBody_def Let_def makeCommand_def by simp
  then show ?thesis using that by blast
qed


section \<open>Handlers\<close>

lemma core_inv_nextReq:
  "core_inv st \<Longrightarrow> core_inv (st\<lparr>nextReq := Suc (nextReq st)\<rparr>)"
  by (fastforce simp: core_inv_def inv_defs timer_defs awaiting_def intro: less_SucI)

lemma fresh_req:
  "core_inv st \<Longrightarrow> waiter_req w = nextReq st \<Longrightarrow>
     waiter_req w < nextReq (st\<lparr>nextReq := Suc (nextReq st)\<rparr>)
     \<and> waiter_req w \<notin> waiter_req ` set (begun (st\<lparr>nextReq := Suc (nextReq st)\<rparr>))"
  by (auto simp: core_inv_def fresh_inv_def)

lemma nextId_mono_fetch: "nextId st \<le> nextId (fetch cfg parse net rq st)"
proof -
  have sc: "nextId (stream_cleanup c s) = nextId s" for c s
    by (simp add: stream_cleanup_def Let_def split: option.split)
  have ss: "nextId (stream_start cfg net b c s) = nextId s" for b c s
    by (simp add: stream_start_def setTimer_def Let_def sc)
  have hc: "nextId s \<le> nextId (handleHttpCommand cfg parse net t r s)" for t r s
    by (rule parseHttpCommandBody_cases [of "case parse t of Inr v \<Rightarrow> v" s])
       (auto simp: handleHttpCommand_def parseJsonText_def js_inc_ge split: sum.split)
  show ?thesis
    by (auto simp: fetch_def Let_def handleHealth_def runActiveTargetHealthProbe_def js_inc_ge ss
        case_prod_beta intro: order_trans [OF _ hc])
qed

lemma core_inv_probe:
  assumes inv: "core_inv st" and b: "nextId (runActiveTargetHealthProbe cfg net req st) < 2 ^ 53"
    and w: "req < nextReq st" "req \<notin> waiter_req ` set (begun st)"
  shows "core_inv (runActiveTargetHealthProbe cfg net req st)"
proof -
  from b have "js_inc (nextId st) < 2 ^ 53"
    by (simp add: runActiveTargetHealthProbe_def case_prod_beta)
  from core_inv_make [OF inv this, of "HealthWaiter req"] w show ?thesis
    by (simp add: runActiveTargetHealthProbe_def case_prod_beta core_inv_send)
qed

lemma core_inv_command:
  assumes inv: "core_inv st" and b: "nextId (handleHttpCommand cfg parse net text req st) < 2 ^ 53"
    and w: "req < nextReq st" "req \<notin> waiter_req ` set (begun st)"
  shows "core_inv (handleHttpCommand cfg parse net text req st)"
proof (cases "parseJsonText parse text ''INVALID_JSON'' ''Request body is not valid JSON''
            (Some (Obj [(''endpoint'', Str ''/command'')]))")
  case (Inl e)
  with inv show ?thesis by (simp add: handleHttpCommand_def core_inv_reply)
next
  case (Inr body)
  show ?thesis
  proof (cases rule: parseHttpCommandBody_cases [of body st])
    case (1 e)
    with Inr inv show ?thesis by (simp add: handleHttpCommand_def core_inv_reply)
  next
    case (2 m p)
    with Inr b have "js_inc (nextId st) < 2 ^ 53" by (simp add: handleHttpCommand_def)
    from core_inv_make [OF inv this, of "CommandWaiter req"] w show ?thesis
      by (simp add: handleHttpCommand_def Inr 2 core_inv_send)
  qed
qed

lemma core_inv_fetch:
  assumes inv: "core_inv st" and b: "nextId (fetch cfg parse net rq st) < 2 ^ 53"
  shows "core_inv (fetch cfg parse net rq st)"
proof -
  let ?st = "st\<lparr>nextReq := Suc (nextReq st)\<rparr>" and ?r = "nextReq st"
  have I: "core_inv ?st" using inv by (rule core_inv_nextReq)
  have w: "?r < nextReq ?st" "?r \<notin> waiter_req ` set (begun ?st)"
    using fresh_req [OF inv, of "CommandWaiter ?r"] by auto
  have new: "mapGet (streams ?st) ?r = None"
    using inv by (auto simp: core_inv_def sse_inv_def)
  show ?thesis
    using b core_inv_probe [OF I _ w, of cfg net] core_inv_command [OF I _ w, of cfg parse net "rq_body rq"]
      core_inv_stream [OF I _ new] w(1)
    by (auto simp: fetch_def Let_def handleHealth_def intro!: core_inv_reply I)
qed

lemma core_inv_open: "core_inv st \<Longrightarrow> core_inv (ws_open cfg net role ws st)"
  by (auto simp: ws_open_def Let_def intro!: core_inv_broadcast core_inv_connect core_inv_emit
      core_inv_log core_inv_failAll split: option.split)

lemma core_inv_message: "core_inv st \<Longrightarrow> core_inv (ws_message parse net role text st)"
  by (auto simp: ws_message_def intro!: core_inv_broadcast core_inv_respond split: sum.split)

lemma core_inv_close: "core_inv st \<Longrightarrow> core_inv (ws_close net role ws c reason st)"
  by (auto simp: ws_close_def Let_def intro!: core_inv_broadcast core_inv_log core_inv_failAll
      core_inv_disconnect)

text \<open>A command timeout answers the command it was set for, exactly as if its answer had come.\<close>

lemma fire_timeout_eq:
  assumes inv: "core_inv st" and t: "mapGet (timers st) t = Some (CommandTimeout i ms h, m)"
  shows "fire net t st = respondPending i (makeErrorResponse i (makeTimeoutErrorInfo ms h)) st"
proof -
  from t have "cmd_timer st t i" by (auto simp: cmd_timer_def)
  with inv obtain p where p: "mapGet (pending st) i = Some p" "pe_timeout p = t"
    by (auto simp: core_inv_def pend_inv_def)
  have "mapDelete (mapDelete (timers st) t) t = mapDelete (timers st) t"
    by (rule mapDelete_notin) simp
  with t p show ?thesis
    by (simp add: fire_def respondPending_def clearTimer_def Let_def)
qed

lemma core_inv_fire:
  assumes inv: "core_inv st"
  shows "core_inv (fire net t st)"
proof (cases "mapGet (timers st) t")
  case None
  with inv show ?thesis by (simp add: fire_def)
next
  case (Some x)
  obtain k m where x: "x = (k, m)" by (cases x)
  show ?thesis
  proof (cases k)
    case (CommandTimeout i ms h)
    with Some x inv show ?thesis by (simp add: fire_timeout_eq core_inv_respond)
  next
    case (ExtensionKeepalive ws)
    with Some x inv show ?thesis
      by (auto simp: fire_def extension_keepalive_tick_def wsSendJson_def core_inv_emit split: option.split)
  next
    case (SseKeepalive c)
    with Some x inv show ?thesis
      by (simp add: fire_def stream_keepalive_tick_def core_inv_emit)
  qed
qed


section \<open>Runs\<close>

lemma core_inv_handle:
  "core_inv st \<Longrightarrow> nextId (handle cfg parse net ev st) < 2 ^ 53 \<Longrightarrow> core_inv (handle cfg parse net ev st)"
  by (cases ev) (auto intro: core_inv_fetch core_inv_open core_inv_message core_inv_close
      core_inv_fire core_inv_cleanup)

lemma nextId_handle: "nextId st \<le> nextId (handle cfg parse net ev st)"
proof (cases ev)
  case (Fetch rq)
  then show ?thesis by (simp add: nextId_mono_fetch)
next
  case (SocketOpen role ws)
  then show ?thesis
    by (simp add: ws_open_def startExtensionKeepalive_def setTimer_def stopExtensionKeepalive_eq Let_def
        split: option.split)
next
  case (SocketMessage role dat)
  then show ?thesis by (auto simp: ws_message_def split: sum.split)
next
  case (SocketClose role ws c reason)
  then show ?thesis by (simp add: ws_close_def stopExtensionKeepalive_eq Let_def split: option.split)
next
  case (TimerFires t)
  then show ?thesis
    by (auto simp: fire_def extension_keepalive_tick_def stream_keepalive_tick_def wsSendJson_def
        split: option.splits prod.splits task.splits)
next
  case (StreamCancel c)
  then show ?thesis by (simp add: stream_cleanup_def Let_def split: option.split)
next
  case (StreamAbort c)
  then show ?thesis by (simp add: stream_cleanup_def Let_def split: option.split)
qed

lemma relay_inv_step: "relay_inv st \<Longrightarrow> relay_inv (relay_step cfg parse ne st)"
  using nextId_handle [of st cfg parse "fst ne" "snd ne"]
  by (auto simp: relay_inv_def relay_step_def Let_def intro!: core_inv_continue core_inv_handle)

section \<open>Every request is answered\<close>

text \<open>
  Requests are numbered from zero. Each is answered at once or begins a promise, whose settlement
  answers it at the end of the same step.
\<close>

definition open_or_answered :: "relay \<Rightarrow> nat multiset" where
  "open_or_answered st = mset (replied st) + mset (map waiter_req (begun st))"

definition answer_inv :: "relay \<Rightarrow> bool" where
  "answer_inv st \<longleftrightarrow> open_or_answered st = mset [0..<nextReq st] + mset (map waiter_req (settled st))"

lemma stream_frame [relay_frame, simp]:
  "begun (stream_cleanup c st) = begun st" "replied (stream_cleanup c st) = replied st"
  "settled (stream_cleanup c st) = settled st" "nextReq (stream_cleanup c st) = nextReq st"
  "begun (stream_start cfg net b c st) = begun st" "replied (stream_start cfg net b c st) = replied st"
  "settled (stream_start cfg net b c st) = settled st" "nextReq (stream_start cfg net b c st) = nextReq st"
proof -
  show c: "begun (stream_cleanup c st) = begun st" "replied (stream_cleanup c st) = replied st"
    "settled (stream_cleanup c st) = settled st" "nextReq (stream_cleanup c st) = nextReq st" for c st
    by (simp_all add: stream_cleanup_def Let_def split: option.split)
  show "begun (stream_start cfg net b c st) = begun st" "replied (stream_start cfg net b c st) = replied st"
    "settled (stream_start cfg net b c st) = settled st" "nextReq (stream_start cfg net b c st) = nextReq st"
    by (simp_all add: stream_start_def setTimer_def Let_def c)
qed

lemma keepalive_frame [relay_frame, simp]:
  "begun (startExtensionKeepalive cfg ws st) = begun st" "replied (startExtensionKeepalive cfg ws st) = replied st"
  "settled (startExtensionKeepalive cfg ws st) = settled st" "nextReq (startExtensionKeepalive cfg ws st) = nextReq st"
  "begun (stopExtensionKeepalive st) = begun st" "replied (stopExtensionKeepalive st) = replied st"
  "settled (stopExtensionKeepalive st) = settled st" "nextReq (stopExtensionKeepalive st) = nextReq st"
  by (simp_all add: startExtensionKeepalive_def setTimer_def stopExtensionKeepalive_eq Let_def split: option.split)

lemma fire_frame [relay_frame, simp]:
  "begun (fire net t st) = begun st" "replied (fire net t st) = replied st" "nextReq (fire net t st) = nextReq st"
  by (auto simp: fire_def extension_keepalive_tick_def stream_keepalive_tick_def wsSendJson_def
      split: option.split prod.split task.split)

lemma command_account:
  "open_or_answered (handleHttpCommand cfg parse net dat req st) = add_mset req (open_or_answered st)"
  "nextReq (handleHttpCommand cfg parse net dat req st) = nextReq st"
  by (rule parseHttpCommandBody_cases [of "case parse dat of Inr v \<Rightarrow> v" st];
      auto simp: handleHttpCommand_def parseJsonText_def open_or_answered_def split: sum.split)+

lemma health_account:
  "open_or_answered (handleHealth cfg net meth req st) = add_mset req (open_or_answered st)"
  "nextReq (handleHealth cfg net meth req st) = nextReq st"
  by (simp_all add: handleHealth_def runActiveTargetHealthProbe_def case_prod_beta open_or_answered_def)

lemma fetch_account:
  "open_or_answered (fetch cfg parse net rq st) = add_mset (nextReq st) (open_or_answered st)"
  "nextReq (fetch cfg parse net rq st) = Suc (nextReq st)"
  by (simp_all add: fetch_def Let_def command_account health_account)
     (simp_all add: open_or_answered_def)

lemma other_account:
  assumes "\<And>rq. ev \<noteq> Fetch rq"
  shows "open_or_answered (handle cfg parse net ev st) = open_or_answered st"
    and "nextReq (handle cfg parse net ev st) = nextReq st"
  using assms
  by (cases ev; auto simp: open_or_answered_def ws_open_def ws_message_def ws_close_def Let_def
      split: option.split sum.split)+

lemma handle_account:
  "open_or_answered (handle cfg parse net ev st) + mset [0..<nextReq st]
     = open_or_answered st + mset [0..<nextReq (handle cfg parse net ev st)]"
proof (cases "\<exists>rq. ev = Fetch rq")
  case True
  then obtain rq where "ev = Fetch rq" by blast
  then show ?thesis by (simp add: fetch_account)
next
  case False
  then have "\<And>rq. ev \<noteq> Fetch rq" by blast
  from other_account [OF this] show ?thesis by simp
qed

text \<open>A handler only appends to the trace.\<close>

definition grows :: "relay \<Rightarrow> relay \<Rightarrow> bool" where
  "grows st st' \<longleftrightarrow> (\<exists>es. trace st' = trace st @ es)"

lemma grows_refl [simp]: "grows st st"
  by (simp add: grows_def)

lemma grows_same: "trace st' = trace st \<Longrightarrow> grows st st'"
  by (simp add: grows_def)

lemma grows_trans [trans]: "grows a b \<Longrightarrow> grows b c \<Longrightarrow> grows a c"
  by (auto simp: grows_def)

lemma grows_emit: "grows a b \<Longrightarrow> grows a (emit e b)"
  by (auto simp: grows_def)

lemma grows_update [simp]:
  "grows a (b\<lparr>extension := x\<rparr>) = grows a b" "grows a (b\<lparr>nextId := n\<rparr>) = grows a b"
  "grows a (b\<lparr>pending := q\<rparr>) = grows a b" "grows a (b\<lparr>sseClients := cl\<rparr>) = grows a b"
  "grows a (b\<lparr>streams := sm\<rparr>) = grows a b" "grows a (b\<lparr>nextReq := r\<rparr>) = grows a b"
  "grows (a\<lparr>extension := x\<rparr>) b = grows a b" "grows (a\<lparr>nextReq := r\<rparr>) b = grows a b"
  "grows (a\<lparr>nextId := n\<rparr>) b = grows a b"
  "grows a (clearTimer t b) = grows a b" "grows a (snd (setTimer k ms b)) = grows a b"
  by (simp_all add: grows_def setTimer_def)

lemma grows_respond: "grows a b \<Longrightarrow> grows a (respondPending i m b)"
  by (cases "mapGet (pending b) i") (auto simp: respondPending_None respondPending_Some grows_def)

lemma grows_fail_entries: "grows a b \<Longrightarrow> grows a (fail_entries e es b)"
  by (induction e es b rule: fail_entries.induct) (auto simp: Let_def resolve_def grows_emit)

lemma grows_broadcast_to: "grows a b \<Longrightarrow> grows a (broadcast_to net p cs b)"
  by (induction cs arbitrary: b) (auto simp: grows_emit)

lemma grows_ops:
  "grows a b \<Longrightarrow> grows a (failAllPending e b)" "grows a b \<Longrightarrow> grows a (sseBroadcast net m b)"
  "grows a b \<Longrightarrow> grows a (relay_log l g b)" "grows a b \<Longrightarrow> grows a (reply n r b)"
  "grows a b \<Longrightarrow> grows a (stream_cleanup c b)" "grows a b \<Longrightarrow> grows a (stopExtensionKeepalive b)"
  by (auto simp: failAllPending_def grows_fail_entries sseBroadcast_def grows_broadcast_to relay_log_def
      reply_def grows_emit stream_cleanup_def stopExtensionKeepalive_def Let_def split: option.split)
     (simp add: grows_def)

lemma grows_keepalive: "grows a b \<Longrightarrow> grows a (startExtensionKeepalive cfg ws b)"
  using grows_ops(6) [of a b]
  by (simp add: startExtensionKeepalive_def Let_def setTimer_def grows_def)

lemma grows_stream: "grows a b \<Longrightarrow> grows a (stream_start cfg net ab c b)"
  by (auto simp: stream_start_def setTimer_def Let_def intro!: grows_ops) (auto simp: grows_def)

lemma grows_send: "grows a b \<Longrightarrow> grows a (sendCommandToExtension net command w ms hint b)"
  by (auto simp: sendCommandToExtension_eq Let_def resolve_def registered_def grows_emit
      intro!: grows_respond split: option.split) (auto simp: grows_def)

lemma grows_fetch: "grows st (fetch cfg parse net rq st)"
proof -
  have c: "grows a b \<Longrightarrow> grows a (handleHttpCommand cfg parse net t r b)" for a b t r
    by (rule parseHttpCommandBody_cases [of "case parse t of Inr v \<Rightarrow> v" b])
       (auto simp: handleHttpCommand_def parseJsonText_def grows_send grows_ops split: sum.split)
  show ?thesis
    by (simp add: fetch_def Let_def handleHealth_def runActiveTargetHealthProbe_def case_prod_beta
        grows_send grows_ops grows_stream c)
qed

lemma grows_handle: "grows st (handle cfg parse net ev st)"
  by (cases ev)
     (auto simp: grows_fetch ws_open_def ws_message_def ws_close_def fire_def stream_keepalive_tick_def
        extension_keepalive_tick_def wsSendJson_def Let_def
        intro!: grows_emit grows_ops grows_keepalive grows_respond split: option.split sum.split prod.split task.split)

lemma answer_inv_step:
  assumes inv: "answer_inv st"
  shows "answer_inv (relay_step cfg parse ne st)"
proof -
  let ?h = "handle cfg parse (fst ne) (snd ne) st"
  obtain es where es: "trace ?h = trace st @ es"
    using grows_handle [of st cfg parse "fst ne" "snd ne"] by (auto simp: grows_def)
  have step: "relay_step cfg parse ne st = continue_with cfg (clock (fst ne)) es ?h"
    by (simp add: relay_step_def Let_def es)
  have set: "mset (map waiter_req (settled ?h)) = mset (map waiter_req (settled st)) + mset (map waiter_req (settled_in es))"
    by (simp add: es)
  have "open_or_answered (relay_step cfg parse ne st) = open_or_answered ?h + mset (map waiter_req (settled_in es))"
    by (simp add: step open_or_answered_def)
  also have "\<dots> + mset [0..<nextReq st]
      = open_or_answered st + mset [0..<nextReq ?h] + mset (map waiter_req (settled_in es))"
    using handle_account [of cfg parse "fst ne" "snd ne" st] by (simp add: ac_simps)
  finally have "open_or_answered (relay_step cfg parse ne st) + mset [0..<nextReq st]
      = mset [0..<nextReq st] + (mset [0..<nextReq ?h] + mset (map waiter_req (settled ?h)))"
    using inv set by (simp add: answer_inv_def ac_simps)
  then have "open_or_answered (relay_step cfg parse ne st)
      = mset [0..<nextReq ?h] + mset (map waiter_req (settled ?h))"
    by (metis add.commute add_right_cancel)
  then show ?thesis by (simp add: answer_inv_def step)
qed

lemma answer_inv_init: "answer_inv relay_init"
  by (simp add: answer_inv_def open_or_answered_def relay_init_def)

interpretation relay_machine: machine "relay_step cfg parse" "\<lambda>st. st = relay_init" relay_inv
  for cfg parse
  by unfold_locales (simp_all add: relay_inv_def [of relay_init] core_inv_init relay_inv_step)

interpretation answer_machine: machine "relay_step cfg parse" "\<lambda>st. st = relay_init" answer_inv
  for cfg parse
  by unfold_locales (simp_all add: answer_inv_init answer_inv_step)

text \<open>The states of the process after any run from its start.\<close>

definition relay_run :: "relay_config \<Rightarrow> json_parser \<Rightarrow> (net \<times> event) list \<Rightarrow> relay" where
  "relay_run cfg parse evs = run_events (relay_step cfg parse) evs relay_init"

lemma relay_run_core:
  "nextId (relay_run cfg parse evs) < 2 ^ 53 \<Longrightarrow> core_inv (relay_run cfg parse evs)"
  using relay_machine.inv_reachable [OF refl, of cfg parse evs]
  by (simp add: relay_run_def relay_inv_def)

lemma relay_run_answer: "answer_inv (relay_run cfg parse evs)"
  using answer_machine.inv_reachable [OF refl, of cfg parse evs] by (simp add: relay_run_def)

end
