(* ===== verification/RelayTrace.thy ===== *)
theory RelayTrace
  imports RelayRun
begin

text \<open>
  Correlation along the runs of the relay: every settled promise settled with a response that
  carries the id of its own command, and no two commands of a run share an id. Also the exact
  effects of the operations that settle several promises or write to several clients.
\<close>

section \<open>Commands issued\<close>

definition issued_in :: "effect list \<Rightarrow> (waiter \<times> relay_command) list" where
  "issued_in es = concat (map (\<lambda>e. case e of Awaiting w c \<Rightarrow> [(w, c)] | _ \<Rightarrow> []) es)"

definition resolved_in :: "effect list \<Rightarrow> (waiter \<times> js) list" where
  "resolved_in es = concat (map (\<lambda>e. case e of Resolved w m \<Rightarrow> [(w, m)] | _ \<Rightarrow> []) es)"

abbreviation issued :: "relay \<Rightarrow> (waiter \<times> relay_command) list" where
  "issued st \<equiv> issued_in (trace st)"

abbreviation resolved :: "relay \<Rightarrow> (waiter \<times> js) list" where
  "resolved st \<equiv> resolved_in (trace st)"

lemma issued_in_append [simp]:
  "issued_in [] = []" "issued_in (xs @ ys) = issued_in xs @ issued_in ys"
  "resolved_in [] = []" "resolved_in (xs @ ys) = resolved_in xs @ resolved_in ys"
  by (simp_all add: issued_in_def resolved_in_def)

lemma issued_in_Cons [simp]:
  "issued_in (e # es) = (case e of Awaiting w c \<Rightarrow> [(w, c)] | _ \<Rightarrow> []) @ issued_in es"
  "resolved_in (e # es) = (case e of Resolved w m \<Rightarrow> [(w, m)] | _ \<Rightarrow> []) @ resolved_in es"
  by (simp_all add: issued_in_def resolved_in_def)

lemma log_line_issued [simp]:
  "(case log_line l g of Awaiting w c \<Rightarrow> f w c | _ \<Rightarrow> b) = b"
  "(case log_line l g of Resolved w m \<Rightarrow> h w m | _ \<Rightarrow> b') = b'"
  "issued_in (log_line l g # es) = issued_in es" "resolved_in (log_line l g # es) = resolved_in es"
  "continue_with cfg now (log_line l g # es) st = continue_with cfg now es st"
  by (simp_all add: log_line_def)

lemma issued_begun: "map fst (issued_in es) = begun_in es"
proof (induction es)
  case (Cons e es)
  then show ?case by (cases e) simp_all
qed simp

lemma resolved_settled: "map fst (resolved_in es) = settled_in es"
proof (induction es)
  case (Cons e es)
  then show ?case by (cases e) simp_all
qed simp

lemma Awaiting_issued: "Awaiting w c \<in> set es \<longleftrightarrow> (w, c) \<in> set (issued_in es)"
proof (induction es)
  case (Cons e es)
  then show ?case by (cases e) auto
qed simp

lemma Resolved_resolved: "Resolved w m \<in> set es \<longleftrightarrow> (w, m) \<in> set (resolved_in es)"
proof (induction es)
  case (Cons e es)
  then show ?case by (cases e) auto
qed simp

text \<open>
  A settled promise carries the id of its command, a pending entry is keyed by it, and a command
  timer answers for the id it was set for.
\<close>

definition corr_inv :: "relay \<Rightarrow> bool" where
  "corr_inv st \<longleftrightarrow> mapWf (pending st)
     \<and> (\<forall>(w, m) \<in> set (resolved st). \<exists>c. (w, c) \<in> set (issued st) \<and> js_get m ''id'' = Num (num_of_nat (rc_id c)))
     \<and> (\<forall>i p. mapGet (pending st) i = Some p \<longrightarrow>
           (\<exists>c. (pe_resolve p, c) \<in> set (issued st) \<and> i = num_of_nat (rc_id c)))"

definition ids_inv :: "relay \<Rightarrow> bool" where
  "ids_inv st \<longleftrightarrow> (nextId st < 2 ^ 53 \<longrightarrow>
     distinct (map (rc_id \<circ> snd) (issued st)) \<and> (\<forall>(w, c) \<in> set (issued st). rc_id c < nextId st))"

lemma corr_invD1:
  "corr_inv st \<Longrightarrow> (w, m) \<in> set (resolved st) \<Longrightarrow>
     \<exists>c. (w, c) \<in> set (issued st) \<and> js_get m ''id'' = Num (num_of_nat (rc_id c))"
  by (force simp: corr_inv_def)

lemma corr_invD2:
  "corr_inv st \<Longrightarrow> mapGet (pending st) i = Some p \<Longrightarrow>
     \<exists>c. (pe_resolve p, c) \<in> set (issued st) \<and> i = num_of_nat (rc_id c)"
  by (simp add: corr_inv_def)

lemma corr_inv_cong:
  assumes "issued st' = issued st" "resolved st' = resolved st" "pending st' = pending st"
  shows "corr_inv st' = corr_inv st"
  using assms by (simp add: corr_inv_def)

lemma ids_inv_cong:
  assumes "issued st' = issued st" "nextId st' = nextId st"
  shows "ids_inv st' = ids_inv st"
  using assms by (simp add: ids_inv_def)

definition silent :: "effect \<Rightarrow> bool" where
  "silent e \<longleftrightarrow> issued_in [e] = [] \<and> resolved_in [e] = []"

lemma silent_simps [simp]:
  "silent (WsSend s j)" "silent (WsPing s)" "silent (WsClose s n r)" "silent (SseData s r)"
  "silent (SseComment s r)" "silent (SseClosed s)" "silent (Replied n h)" "silent (Logged l g)"
  "silent (log_line lv args)"
  by (simp_all add: silent_def log_line_def)

lemma corr_emit [simp]: "silent e \<Longrightarrow> corr_inv (emit e st) = corr_inv st"
  by (rule corr_inv_cong) (cases e; simp add: silent_def)+

lemma issued_frame [relay_frame, simp]:
  "issued (broadcast_to net p cs st) = issued st" "resolved (broadcast_to net p cs st) = resolved st"
  by (induction cs arbitrary: st) auto

lemma corr_respond:
  assumes "corr_inv st" "js_get m ''id'' = Num i"
  shows "corr_inv (respondPending i m st)"
proof (cases "mapGet (pending st) i")
  case None
  with assms show ?thesis by (simp add: respondPending_None)
next
  case (Some p)
  from corr_invD2 [OF assms(1) Some] obtain c where
    c: "(pe_resolve p, c) \<in> set (issued st)" "i = num_of_nat (rc_id c)" by blast
  have f: "issued (respondPending i m st) = issued st"
    "resolved (respondPending i m st) = resolved st @ [(pe_resolve p, m)]"
    "pending (respondPending i m st) = mapDelete (pending st) i"
    by (simp_all add: respondPending_Some [OF Some])
  from assms c show ?thesis
    unfolding corr_inv_def f by (auto split: if_splits)
qed

lemma issued_respond [relay_frame, simp]: "issued (respondPending i m st) = issued st"
  by (cases "mapGet (pending st) i") (simp_all add: respondPending_None respondPending_Some)

section \<open>Exact effects\<close>

lemma fail_entries_trace:
  "trace (fail_entries e es st) =
     trace st @ map (\<lambda>(i, p). Resolved (pe_resolve p) (makeErrorResponse i e)) es"
  by (induction e es st rule: fail_entries.induct) (simp_all add: Let_def resolve_def)

lemma failAllPending_trace:
  "trace (failAllPending e st) =
     trace st @ map (\<lambda>(i, p). Resolved (pe_resolve p) (makeErrorResponse i e)) (pending st)"
  by (simp add: failAllPending_def fail_entries_trace)

lemma issued_map_Resolved [simp]:
  "issued_in (map (\<lambda>(i, p). Resolved (f p) (g i)) ps) = []"
  "resolved_in (map (\<lambda>(i, p). Resolved (f p) (g i)) ps) = map (\<lambda>(i, p). (f p, g i)) ps"
  by (induction ps) auto

lemma issued_failAll [relay_frame, simp]: "issued (failAllPending e st) = issued st"
  by (simp add: failAllPending_trace)

lemma corr_failAll:
  assumes "corr_inv st"
  shows "corr_inv (failAllPending e st)"
proof -
  from assms have wf: "mapWf (pending st)" by (simp add: corr_inv_def)
  have "\<exists>c. (pe_resolve p, c) \<in> set (issued st) \<and> i = num_of_nat (rc_id c)"
    if "(i, p) \<in> set (pending st)" for i p
    using corr_invD2 [OF assms] that by (simp add: mapGet_in [OF wf])
  with assms show ?thesis
    by (auto simp: corr_inv_def failAllPending_trace failAllPending_pending mapWf_def)
qed

text \<open>A broadcast writes the frame to every client whose controller takes data, in their order.\<close>

lemma broadcast_to_trace:
  "trace (broadcast_to net p cs st) = trace st @ map (\<lambda>c. SseData c p) (filter (\<lambda>c. \<not> enqueue_error net c) cs)"
  by (induction cs arbitrary: st) auto

definition broadcast_effects :: "net \<Rightarrow> js \<Rightarrow> relay \<Rightarrow> effect list" where
  "broadcast_effects net m st =
     map (\<lambda>c. SseData c (sse_frame m)) (filter (\<lambda>c. \<not> enqueue_error net c) (mapKeys (sseClients st)))"

lemma sseBroadcast_trace: "trace (sseBroadcast net m st) = trace st @ broadcast_effects net m st"
  by (simp add: sseBroadcast_def broadcast_to_trace broadcast_effects_def)

lemma settled_SseData:
  "settled_in (map (\<lambda>c. SseData c p) cs) = []" "replied_in (map (\<lambda>c. SseData c p) cs) = []"
  "issued_in (map (\<lambda>c. SseData c p) cs) = []" "resolved_in (map (\<lambda>c. SseData c p) cs) = []"
  by (induction cs) simp_all

lemma continue_with_SseData: "continue_with cfg now (map (\<lambda>c. SseData c p) cs) st = st"
  by (induction cs) simp_all

lemma broadcast_effects_quiet [simp]:
  "settled_in (broadcast_effects net m st) = []" "replied_in (broadcast_effects net m st) = []"
  "issued_in (broadcast_effects net m st) = []" "resolved_in (broadcast_effects net m st) = []"
  "continue_with cfg now (broadcast_effects net m st) s = s"
  by (simp_all add: broadcast_effects_def settled_SseData continue_with_SseData)

lemma broadcast_effects_cong: "sseClients st' = sseClients st \<Longrightarrow> broadcast_effects net m st' = broadcast_effects net m st"
  by (simp add: broadcast_effects_def)

lemma continue_with_append:
  "continue_with cfg now (es @ fs) st = continue_with cfg now fs (continue_with cfg now es st)"
proof (induction es arbitrary: st)
  case (Cons e es)
  then show ?case by (cases e) simp_all
qed simp

lemma corr_broadcast [simp]: "corr_inv (sseBroadcast net m st) = corr_inv st"
  by (rule corr_inv_cong) (simp_all add: sseBroadcast_def)

lemma issued_broadcast [relay_frame, simp]: "issued (sseBroadcast net m st) = issued st"
  by (simp add: sseBroadcast_def)

lemma continue_with_trace:
  "trace (continue_with cfg now es st) = trace st
     @ map (\<lambda>(w, m). Replied (waiter_req w) (reply_of cfg now w m)) (resolved_in es)"
  by (induction cfg now es st rule: continue_with.induct) (simp_all add: reply_def)


section \<open>Correlation is kept\<close>

lemma corr_registered:
  assumes "corr_inv st"
  shows "corr_inv (registered command w ms hint st)"
proof -
  have f: "issued (registered command w ms hint st) = issued st @ [(w, command)]"
    "resolved (registered command w ms hint st) = resolved st"
    "pending (registered command w ms hint st) =
       mapSet (pending st) (num_of_nat (rc_id command)) \<lparr>pe_resolve = w, pe_timeout = nextTimer st\<rparr>"
    by (simp_all add: registered_def)
  from assms show ?thesis
    unfolding corr_inv_def f by (auto split: if_splits) blast+
qed

lemma corr_resolve:
  assumes "corr_inv st" "js_get m ''id'' = Num (num_of_nat (rc_id command))"
  shows "corr_inv (resolve w m (emit (Awaiting w command) st))"
proof -
  have f: "issued (resolve w m (emit (Awaiting w command) st)) = issued st @ [(w, command)]"
    "resolved (resolve w m (emit (Awaiting w command) st)) = resolved st @ [(w, m)]"
    "pending (resolve w m (emit (Awaiting w command) st)) = pending st"
    by (simp_all add: resolve_def)
  from assms show ?thesis
    unfolding corr_inv_def f by auto blast
qed

lemma corr_send:
  assumes "corr_inv st"
  shows "corr_inv (sendCommandToExtension net command w ms hint st)"
  using assms
  by (simp add: sendCommandToExtension_eq Let_def corr_resolve corr_registered corr_respond split: option.split)

lemma issued_send:
  "issued (sendCommandToExtension net command w ms hint st) = issued st @ [(w, command)]"
  by (simp add: sendCommandToExtension_eq Let_def resolve_def registered_def split: option.split)

text \<open>Updates of fields that correlation does not read, and the operations that make only those.\<close>

lemma corr_update [simp]:
  "corr_inv (st\<lparr>extension := x\<rparr>) = corr_inv st" "corr_inv (st\<lparr>nextId := n\<rparr>) = corr_inv st"
  "corr_inv (st\<lparr>nextReq := r\<rparr>) = corr_inv st" "corr_inv (st\<lparr>sseClients := cl\<rparr>) = corr_inv st"
  "corr_inv (st\<lparr>streams := sm\<rparr>) = corr_inv st" "corr_inv (st\<lparr>timers := tm\<rparr>) = corr_inv st"
  "corr_inv (st\<lparr>nextTimer := k\<rparr>) = corr_inv st" "corr_inv (st\<lparr>extensionKeepaliveId := ke\<rparr>) = corr_inv st"
  by (simp_all add: corr_inv_def)

lemma corr_clearTimer [simp]: "corr_inv (clearTimer t st) = corr_inv st"
  by (simp add: clearTimer_def)

lemma same_trace_ops [relay_frame]:
  "trace (startExtensionKeepalive cfg ws st) = trace st" "pending (startExtensionKeepalive cfg ws st) = pending st"
  "trace (stopExtensionKeepalive st) = trace st" "pending (stopExtensionKeepalive st) = pending st"
  "trace (clearTimer t st) = trace st"
  by (simp_all add: startExtensionKeepalive_def setTimer_def stopExtensionKeepalive_eq Let_def split: option.split)

lemma corr_keepalive [simp]:
  "corr_inv (startExtensionKeepalive cfg ws st) = corr_inv st"
  "corr_inv (stopExtensionKeepalive st) = corr_inv st"
  by (simp_all add: corr_inv_def same_trace_ops)

lemma stream_trace [relay_frame, simp]:
  "issued (stream_cleanup c st) = issued st" "resolved (stream_cleanup c st) = resolved st"
  "pending (stream_cleanup c st) = pending st"
  "issued (stream_start cfg net b c st) = issued st" "resolved (stream_start cfg net b c st) = resolved st"
  "pending (stream_start cfg net b c st) = pending st"
proof -
  show c: "issued (stream_cleanup c st) = issued st" "resolved (stream_cleanup c st) = resolved st"
    "pending (stream_cleanup c st) = pending st" for c st
    by (simp_all add: stream_cleanup_def Let_def split: option.split)
  show "issued (stream_start cfg net b c st) = issued st" "resolved (stream_start cfg net b c st) = resolved st"
    "pending (stream_start cfg net b c st) = pending st"
    by (simp_all add: stream_start_def setTimer_def Let_def c)
qed

lemma corr_stream [simp]:
  "corr_inv (stream_cleanup c st) = corr_inv st" "corr_inv (stream_start cfg net b c st) = corr_inv st"
  by (simp_all add: corr_inv_def)

lemma corr_log_reply [simp]:
  "corr_inv (relay_log l g st) = corr_inv st" "corr_inv (reply n r st) = corr_inv st"
  by (simp_all add: relay_log_def reply_def)

lemma issued_log_reply [relay_frame, simp]:
  "issued (relay_log l g st) = issued st" "issued (reply n r st) = issued st"
  by (simp_all add: relay_log_def reply_def)

lemma corr_command: "corr_inv st \<Longrightarrow> corr_inv (handleHttpCommand cfg parse net dat req st)"
  by (rule parseHttpCommandBody_cases [of "case parse dat of Inr v \<Rightarrow> v" st])
     (auto simp: handleHttpCommand_def parseJsonText_def corr_send split: sum.split)

lemma corr_health: "corr_inv st \<Longrightarrow> corr_inv (handleHealth cfg net meth req st)"
  by (simp add: handleHealth_def runActiveTargetHealthProbe_def case_prod_beta corr_send)

lemma corr_fire: "corr_inv st \<Longrightarrow> corr_inv (fire net t st)"
  by (auto simp: fire_def extension_keepalive_tick_def stream_keepalive_tick_def wsSendJson_def
      intro!: corr_respond split: option.split prod.split task.split)

lemma the_num_eq: "is_num v \<Longrightarrow> Num (the_num v) = v"
  by (cases v) auto

lemma corr_handle: "corr_inv st \<Longrightarrow> corr_inv (handle cfg parse net ev st)"
  by (cases ev)
     (auto simp: fetch_def Let_def corr_command corr_health ws_open_def ws_message_def ws_close_def corr_fire
        isExtensionResponseMessage_iff the_num_eq intro!: corr_failAll corr_respond
        split: option.split sum.split)

lemma corr_continue [simp]: "corr_inv (continue_with cfg now es st) = corr_inv st"
  by (induction cfg now es st rule: continue_with.induct) simp_all

lemma corr_step: "corr_inv st \<Longrightarrow> corr_inv (relay_step cfg parse ne st)"
  by (simp add: relay_step_def Let_def corr_handle)

lemma corr_init: "corr_inv relay_init"
  by (simp add: corr_inv_def relay_init_def)

interpretation corr_machine: machine "relay_step cfg parse" "\<lambda>st. st = relay_init" corr_inv
  for cfg parse
  by unfold_locales (simp_all add: corr_init corr_step)

lemma relay_run_corr: "corr_inv (relay_run cfg parse evs)"
  using corr_machine.inv_reachable [OF refl, of cfg parse evs] by (simp add: relay_run_def)


section \<open>Ids are issued once\<close>

definition issues_one :: "relay \<Rightarrow> relay \<Rightarrow> bool" where
  "issues_one st st' \<longleftrightarrow> issued st' = issued st
     \<or> (\<exists>w c. issued st' = issued st @ [(w, c)] \<and> rc_id c = nextId st \<and> nextId st' = js_inc (nextId st))"

lemma issues_same [simp]: "issued st' = issued st \<Longrightarrow> issues_one st st'"
  by (simp add: issues_one_def)

lemma issues_command: "issues_one st (handleHttpCommand cfg parse net dat req st)"
  by (rule parseHttpCommandBody_cases [of "case parse dat of Inr v \<Rightarrow> v" st])
     (auto simp: handleHttpCommand_def parseJsonText_def issues_one_def issued_send split: sum.split)

lemma issues_health: "issues_one st (handleHealth cfg net meth req st)"
  by (auto simp: handleHealth_def runActiveTargetHealthProbe_def case_prod_beta issues_one_def issued_send)

lemma issues_fetch: "issues_one st (fetch cfg parse net rq st)"
  using issues_health [of "st\<lparr>nextReq := Suc (nextReq st)\<rparr>"]
    issues_command [of "st\<lparr>nextReq := Suc (nextReq st)\<rparr>"]
  by (auto simp: fetch_def Let_def issues_one_def)

lemma issues_handle: "issues_one st (handle cfg parse net ev st)"
proof (cases "\<exists>rq. ev = Fetch rq")
  case True
  then show ?thesis by (auto simp: issues_fetch)
next
  case False
  then have "issued (handle cfg parse net ev st) = issued st"
    by (cases ev)
       (auto simp: ws_open_def ws_message_def ws_close_def Let_def fire_def extension_keepalive_tick_def
          stream_keepalive_tick_def wsSendJson_def same_trace_ops
          split: option.split sum.split prod.split task.split)
  then show ?thesis by simp
qed

lemma issued_continue [simp]: "issued (continue_with cfg now es st) = issued st"
  by (induction cfg now es st rule: continue_with.induct) simp_all

lemma ids_step:
  assumes "ids_inv st"
  shows "ids_inv (relay_step cfg parse ne st)"
proof -
  let ?h = "handle cfg parse (fst ne) (snd ne) st"
  have mono: "nextId st \<le> nextId ?h" by (rule nextId_handle)
  have "ids_inv ?h"
  proof (cases "issued ?h = issued st")
    case True
    with assms mono show ?thesis by (fastforce simp: ids_inv_def)
  next
    case False
    with issues_handle [of st cfg parse "fst ne" "snd ne"] obtain w c where
      c: "issued ?h = issued st @ [(w, c)]" "rc_id c = nextId st" "nextId ?h = js_inc (nextId st)"
      by (auto simp: issues_one_def)
    show ?thesis
      unfolding ids_inv_def
    proof
      assume b: "nextId ?h < 2 ^ 53"
      with c(3) have n: "nextId ?h = Suc (nextId st)" using js_inc_less [of "nextId st"] by simp
      from assms b mono have d: "distinct (map (rc_id \<circ> snd) (issued st))"
        and l: "\<forall>(w, c) \<in> set (issued st). rc_id c < nextId st"
        by (simp_all add: ids_inv_def)
      from l c(2) have "rc_id c \<notin> (rc_id \<circ> snd) ` set (issued st)" by force
      with d l c(1,2) n
      show "distinct (map (rc_id \<circ> snd) (issued ?h)) \<and> (\<forall>(w, c) \<in> set (issued ?h). rc_id c < nextId ?h)"
        by auto
    qed
  qed
  then show ?thesis by (simp add: relay_step_def Let_def ids_inv_def)
qed

lemma ids_init: "ids_inv relay_init"
  by (simp add: ids_inv_def relay_init_def)

interpretation ids_machine: machine "relay_step cfg parse" "\<lambda>st. st = relay_init" ids_inv
  for cfg parse
  by unfold_locales (simp_all add: ids_init ids_step)

lemma relay_run_ids: "ids_inv (relay_run cfg parse evs)"
  using ids_machine.inv_reachable [OF refl, of cfg parse evs] by (simp add: relay_run_def)

end
