(* ===== verification/RelayProperties.thy ===== *)
theory RelayProperties
  imports RelayTrace
begin

text \<open>
  What the relay guarantees: every request is answered exactly once, answers reach the request
  they belong to, timeouts and disconnects leave nothing waiting, no timer leaks, and the event
  stream delivers to every live client.
\<close>

section \<open>A concrete run\<close>

text \<open>A small session, used to show that the hypotheses of the properties can hold.\<close>

definition demo_cfg :: relay_config where
  "demo_cfg = \<lparr>HOST = ''127.0.0.1'', PORT = Fin 9111, REQUEST_TIMEOUT_MS = Fin 15000,
     HEALTH_PROBE_TIMEOUT_MS = Fin 3000, EXTENSION_KEEPALIVE_MS = Fin 20000, SSE_KEEPALIVE_MS = Fin 15000\<rparr>"

definition demo_net :: net where
  "demo_net = \<lparr>ready = (\<lambda>_. OPEN), send_error = (\<lambda>_. None), has_ping = (\<lambda>_. True),
     enqueue_error = (\<lambda>_. False), clock = ''t''\<rparr>"

definition demo_body :: js where
  "demo_body = Obj [(''method'', Str ''tab''), (''params'', Obj [(''method'', Str ''tab.countTabs'')])]"

definition demo_answer :: js where
  "demo_answer = Obj [(''id'', Num (Fin 1)), (''result'', Num (Fin 7))]"

definition demo_parse :: json_parser where
  "demo_parse s = (if s = ''body'' then Inr demo_body else if s = ''answer'' then Inr demo_answer
     else Inl (newError ''bad''))"

definition demo_post :: http_request where
  "demo_post = \<lparr>rq_path = ''/command'', rq_method = ''POST'', rq_body = ''body'', rq_aborted = False,
     rq_upgraded = False\<rparr>"

definition demo_events :: "(net \<times> event) list" where
  "demo_events = [(demo_net, SocketOpen ExtensionRole 5), (demo_net, Fetch demo_post)]"

definition demo_state :: relay where
  "demo_state = relay_run demo_cfg demo_parse demo_events"

lemmas demo_defs = demo_cfg_def demo_net_def demo_body_def demo_answer_def demo_parse_def demo_post_def

lemma demo_state_fields:
  "nextId demo_state = 2" "extension demo_state = Some 5" "extensionKeepaliveId demo_state = Some 0"
  "pending demo_state = [(Fin 1, \<lparr>pe_resolve = CommandWaiter 0, pe_timeout = 1\<rparr>)]"
  "nextReq demo_state = 1" "sseClients demo_state = []" "streams demo_state = []"
  "timers demo_state = [(0, (ExtensionKeepalive 5, Fin 20000)),
     (1, (CommandTimeout (Fin 1) (Fin 15000) True, Fin 15000))]"
  by (simp_all add: demo_state_def demo_events_def relay_run_def relay_step_def demo_defs relay_init_def
      ws_open_def relay_log_def log_line_def emit_def startExtensionKeepalive_def stopExtensionKeepalive_def setTimer_def
      sseBroadcast_def mapKeys_def mapSet_def fetch_def handleHttpCommand_def parseJsonText_def
      parseHttpCommandBody_def isExtensionCommandMessage_def isClientEnvelope_def isExtensionMethod_def
      makeCommand_def js_inc_def sendCommandToExtension_def wsSendJson_def num_of_nat_def Let_def)

lemma demo_bound: "nextId demo_state < 2 ^ 53"
  by (simp add: demo_state_fields)

lemma demo_run: "demo_state = relay_run demo_cfg demo_parse demo_events"
  by (simp add: demo_state_def)


text \<open>The status of the answer to a timed out command and to a timed out health check.\<close>

lemma timeout_status:
  "hr_status (reply_of cfg now w (makeErrorResponse i (makeTimeoutErrorInfo ms h)))
     = (case w of CommandWaiter r \<Rightarrow> 504 | HealthWaiter r \<Rightarrow> 503)"
  by (cases w) (simp_all add: command_reply_def commandErrorToStatus_make code_status_def health_reply_def
      probe_of_response_def getResponseErrorInfo_make Let_def)


section \<open>Every request is answered once\<close>

text \<open>
  C1. Along every run (up to \<open>2 ^ 53\<close> ids issued) every promise begun by a command or a health
  check is either settled, once, or is the promise of exactly one pending entry, and no request
  begins two: as multisets, begun is settled plus awaited.
\<close>
theorem relay_exactly_once:
  assumes "nextId (relay_run cfg parse evs) < 2 ^ 53"
  shows "mset (begun (relay_run cfg parse evs))
      = mset (settled (relay_run cfg parse evs)) + mset (awaiting (relay_run cfg parse evs))
    \<and> distinct (map waiter_req (begun (relay_run cfg parse evs)))"
  using relay_run_core [OF assms] by (simp add: core_inv_def once_inv_def fresh_inv_def)

theorem relay_exactly_once_witness:
  "mset (begun demo_state) = mset (settled demo_state) + mset (awaiting demo_state)
    \<and> distinct (map waiter_req (begun demo_state))"
  using relay_exactly_once [of demo_cfg demo_parse demo_events] demo_bound unfolding demo_run by blast

text \<open>
  C4. Every HTTP request the relay has taken (numbered from zero) has been answered exactly once,
  except those whose command is still pending, and these have not been answered: the multiset of
  answered requests plus the multiset of awaiting ones is the set of all requests.
\<close>
theorem relay_every_request_answered:
  assumes "nextId (relay_run cfg parse evs) < 2 ^ 53"
  shows "mset (replied (relay_run cfg parse evs)) + mset (map waiter_req (awaiting (relay_run cfg parse evs)))
      = mset [0..<nextReq (relay_run cfg parse evs)]"
proof -
  let ?s = "relay_run cfg parse evs"
  from relay_run_core [OF assms]
  have "mset (map waiter_req (begun ?s)) = mset (map waiter_req (settled ?s)) + mset (map waiter_req (awaiting ?s))"
    by (simp add: core_inv_def once_inv_def flip: image_mset_union)
  with relay_run_answer [of cfg parse evs] show ?thesis
    by (simp add: answer_inv_def open_or_answered_def)
qed

theorem relay_every_request_answered_witness:
  "mset (replied demo_state) + {# 0 #} = mset [0..<1]"
  using relay_every_request_answered [of demo_cfg demo_parse demo_events] demo_bound
  unfolding demo_run [symmetric] by (simp add: demo_state_fields awaiting_def)

text \<open>
  C5. Correlation: whatever the extension sends and however the events interleave, a promise is
  only ever settled with a response whose id is the id of the very command that promise was begun
  for, and no two commands of the run carry the same id.
\<close>
theorem relay_answers_correlate:
  assumes "nextId (relay_run cfg parse evs) < 2 ^ 53"
    and "Resolved w m \<in> set (trace (relay_run cfg parse evs))"
  shows "(\<exists>!c. Awaiting w c \<in> set (trace (relay_run cfg parse evs))
        \<and> js_get m ''id'' = Num (num_of_nat (rc_id c)))
      \<and> distinct (map (rc_id \<circ> snd) (issued (relay_run cfg parse evs)))"
proof -
  let ?s = "relay_run cfg parse evs"
  from assms(2) have "(w, m) \<in> set (resolved ?s)" by (simp add: Resolved_resolved)
  from corr_invD1 [OF relay_run_corr this] obtain c where
    c: "(w, c) \<in> set (issued ?s)" "js_get m ''id'' = Num (num_of_nat (rc_id c))" by blast
  have d: "distinct (map (rc_id \<circ> snd) (issued ?s))"
    using relay_run_ids [of cfg parse evs] assms(1) by (simp add: ids_inv_def)
  have uniq: "c' = c" if "(w, c') \<in> set (issued ?s)" "rc_id c' = rc_id c" for c'
    using d c(1) that inj_onD [of "rc_id \<circ> snd" "set (issued ?s)" "(w, c')" "(w, c)"]
    by (simp add: distinct_map)
  have "\<exists>!c. (w, c) \<in> set (issued ?s) \<and> js_get m ''id'' = Num (num_of_nat (rc_id c))"
  proof (rule ex1I [of _ c])
    show "(w, c) \<in> set (issued ?s) \<and> js_get m ''id'' = Num (num_of_nat (rc_id c))" using c by (rule conjI)
    fix c' assume "(w, c') \<in> set (issued ?s) \<and> js_get m ''id'' = Num (num_of_nat (rc_id c'))"
    with c(2) show "c' = c" by (intro uniq) simp_all
  qed
  with d show ?thesis by (simp add: Awaiting_issued)
qed

definition demo_answered :: relay where
  "demo_answered = relay_run demo_cfg demo_parse (demo_events @ [(demo_net, SocketMessage ExtensionRole ''answer'')])"

lemma demo_answered_state:
  "demo_answered = relay_step demo_cfg demo_parse (demo_net, SocketMessage ExtensionRole ''answer'') demo_state"
  by (simp add: demo_answered_def demo_state_def relay_run_def run_events_append)

lemma demo_answer_accepted: "isExtensionResponseMessage demo_answer" "js_get demo_answer ''id'' = Num (Fin 1)"
  "demo_parse ''answer'' = Inr demo_answer"
  by (simp_all add: demo_answer_def isExtensionResponseMessage_iff demo_parse_def)

lemma demo_answered_step:
  "demo_answered = continue_with demo_cfg ''t'' [Resolved (CommandWaiter 0) demo_answer]
     (emit (Resolved (CommandWaiter 0) demo_answer)
       (demo_state\<lparr>timers := mapDelete (timers demo_state) 1, pending := mapDelete (pending demo_state) (Fin 1)\<rparr>))"
proof -
  have p: "mapGet (pending demo_state) (Fin 1) = Some \<lparr>pe_resolve = CommandWaiter 0, pe_timeout = 1\<rparr>"
    by (simp add: demo_state_fields mapGet_def)
  have i: "the_num (js_get demo_answer ''id'') = Fin 1" "clock demo_net = ''t''"
    by (simp_all add: demo_answer_def demo_net_def)
  from p have h: "mapHas (pending demo_state) (Fin 1)" by (simp add: mapHas_get)
  have "parseJsonText demo_parse ''answer'' c m d = Inr demo_answer" for c m d
    by (simp add: parseJsonText_def demo_parse_def)
  then have "ws_message demo_parse demo_net ExtensionRole ''answer'' demo_state
      = respondPending (Fin 1) demo_answer demo_state"
    by (simp add: ws_message_def demo_answer_accepted i h)
  then show ?thesis
    by (simp add: demo_answered_state relay_step_def respondPending_Some [OF p] i)
qed

lemma demo_answered_trace:
  "trace demo_answered = trace demo_state
     @ [Resolved (CommandWaiter 0) demo_answer, Replied 0 (command_reply demo_answer)]"
  "nextId demo_answered = 2"
  by (simp_all add: demo_answered_step reply_def demo_state_fields)

theorem relay_answers_correlate_witness:
  "(\<exists>!c. Awaiting (CommandWaiter 0) c \<in> set (trace demo_answered)
        \<and> js_get demo_answer ''id'' = Num (num_of_nat (rc_id c)))
      \<and> distinct (map (rc_id \<circ> snd) (issued demo_answered))"
  unfolding demo_answered_def
  by (rule relay_answers_correlate)
     (simp_all add: demo_answered_def [symmetric] demo_answered_trace)


section \<open>Answers, late answers and timeouts\<close>

lemma response_settles:
  assumes p: "mapGet (pending st) i = Some p" and dat: "parse dat = Inr v"
    and guard: "isExtensionResponseMessage v" "js_get v ''id'' = Num i"
  shows "relay_step cfg parse (net, SocketMessage ExtensionRole dat) st =
    st\<lparr>timers := mapDelete (timers st) (pe_timeout p), pending := mapDelete (pending st) i,
       trace := trace st @ [Resolved (pe_resolve p) v,
         Replied (waiter_req (pe_resolve p)) (reply_of cfg (clock net) (pe_resolve p) v)]\<rparr>"
proof -
  have "mapHas (pending st) i" by (simp add: mapHas_get p)
  then have "ws_message parse net ExtensionRole dat st = respondPending i v st"
    by (simp add: ws_message_def parseJsonText_def dat guard)
  then show ?thesis
    by (simp add: relay_step_def respondPending_Some [OF p] reply_def emit_def)
qed

text \<open>
  C16. A response frame whose id is pending settles that command and nothing else: its timer and its
  table entry go, the promise resolves with the parsed frame, its request is answered with the HTTP
  reply made from that frame, and every other part of the state stays as it was.
\<close>
theorem response_settles_its_request:
  assumes p: "mapGet (pending st) i = Some p" and dat: "parse dat = Inr v"
    and guard: "isExtensionResponseMessage v" "js_get v ''id'' = Num i"
  shows "relay_step cfg parse (net, SocketMessage ExtensionRole dat) st =
    st\<lparr>timers := mapDelete (timers st) (pe_timeout p), pending := mapDelete (pending st) i,
       trace := trace st @ [Resolved (pe_resolve p) v,
         Replied (waiter_req (pe_resolve p)) (reply_of cfg (clock net) (pe_resolve p) v)]\<rparr>"
  using assms by (rule response_settles)

theorem response_settles_its_request_witness:
  "trace (relay_step demo_cfg demo_parse (demo_net, SocketMessage ExtensionRole ''answer'') demo_state)
     = trace demo_state @ [Resolved (CommandWaiter 0) demo_answer, Replied 0 (command_reply demo_answer)]"
  using response_settles_its_request [of demo_state "Fin 1" "\<lparr>pe_resolve = CommandWaiter 0, pe_timeout = 1\<rparr>"
      demo_parse "''answer''" demo_answer demo_cfg demo_net]
  by (simp add: demo_state_fields mapGet_def demo_answer_accepted)

text \<open>
  A response whose id is not pending (it came after the timeout, twice, or for a command never
  sent) settles no promise, answers no request and changes neither the pending table nor the
  timers; the open event streams are told of it.
\<close>
theorem orphan_response_settles_nothing:
  assumes p: "mapGet (pending st) i = None" and dat: "parse dat = Inr v"
    and guard: "isExtensionResponseMessage v" "js_get v ''id'' = Num i"
  shows "let st' = relay_step cfg parse (net, SocketMessage ExtensionRole dat) st in
    pending st' = pending st \<and> timers st' = timers st \<and> settled st' = settled st
    \<and> replied st' = replied st
    \<and> trace st' = trace st @ broadcast_effects net (Obj [(''type'', Str ''orphan-response''),
         (''result'', nullish (js_get v ''result'') Null), (''error'', nullish (js_get v ''error'') Null),
         (''errorInfo'', nullish (js_get v ''errorInfo'') Null)]) st"
proof -
  let ?m = "Obj [(''type'', Str ''orphan-response''),
         (''result'', nullish (js_get v ''result'') Null), (''error'', nullish (js_get v ''error'') Null),
         (''errorInfo'', nullish (js_get v ''errorInfo'') Null)]"
  have "\<not> mapHas (pending st) i" by (simp add: mapHas_get p)
  then have m: "ws_message parse net ExtensionRole dat st = sseBroadcast net ?m st"
    by (simp add: ws_message_def parseJsonText_def dat guard)
  have "trace (relay_step cfg parse (net, SocketMessage ExtensionRole dat) st) = trace (sseBroadcast net ?m st)"
    by (simp add: relay_step_def m sseBroadcast_trace)
  then show ?thesis
    by (simp add: relay_step_def m Let_def sseBroadcast_trace)
qed

theorem orphan_response_settles_nothing_witness:
  "replied (relay_step demo_cfg demo_parse (demo_net, SocketMessage ExtensionRole ''answer'') relay_init) = []"
proof -
  have "mapGet (pending relay_init) (Fin 1) = None" "replied relay_init = []" by (simp_all add: relay_init_def)
  with orphan_response_settles_nothing [of relay_init "Fin 1" demo_parse "''answer''" demo_answer demo_cfg demo_net]
  show ?thesis by (simp add: Let_def demo_answer_accepted)
qed

text \<open>
  C7. No command waits forever: in every reachable state each pending command has a live timer of
  its own, and when it fires the command is settled with a \<open>COMMAND_TIMEOUT\<close> error, its entry
  and timer go, and its request is answered, a command with status 504, a health check with 503.
\<close>
theorem timeout_answers_pending:
  assumes "nextId (relay_run cfg parse evs) < 2 ^ 53"
    and "mapGet (pending (relay_run cfg parse evs)) i = Some p"
  shows "\<exists>ms h m. mapGet (timers (relay_run cfg parse evs)) (pe_timeout p) = Some (CommandTimeout i ms h, m)
    \<and> relay_step cfg parse (net, TimerFires (pe_timeout p)) (relay_run cfg parse evs) =
        (relay_run cfg parse evs)
          \<lparr>timers := mapDelete (timers (relay_run cfg parse evs)) (pe_timeout p),
           pending := mapDelete (pending (relay_run cfg parse evs)) i,
           trace := trace (relay_run cfg parse evs)
             @ [Resolved (pe_resolve p) (makeErrorResponse i (makeTimeoutErrorInfo ms h)),
                Replied (waiter_req (pe_resolve p)) (reply_of cfg (clock net) (pe_resolve p)
                  (makeErrorResponse i (makeTimeoutErrorInfo ms h)))]\<rparr>
    \<and> hr_status (reply_of cfg (clock net) (pe_resolve p) (makeErrorResponse i (makeTimeoutErrorInfo ms h)))
        = (case pe_resolve p of CommandWaiter r \<Rightarrow> 504 | HealthWaiter r \<Rightarrow> 503)"
proof -
  let ?s = "relay_run cfg parse evs"
  note inv = relay_run_core [OF assms(1)]
  with assms(2) have "cmd_timer ?s (pe_timeout p) i" by (auto simp: core_inv_def pend_inv_def)
  then obtain ms h m where t: "mapGet (timers ?s) (pe_timeout p) = Some (CommandTimeout i ms h, m)"
    by (auto simp: cmd_timer_def)
  let ?e = "makeErrorResponse i (makeTimeoutErrorInfo ms h)"
  have "fire net (pe_timeout p) ?s = respondPending i ?e ?s" by (rule fire_timeout_eq [OF inv t])
  then have "relay_step cfg parse (net, TimerFires (pe_timeout p)) ?s = ?s
      \<lparr>timers := mapDelete (timers ?s) (pe_timeout p), pending := mapDelete (pending ?s) i,
       trace := trace ?s @ [Resolved (pe_resolve p) ?e,
         Replied (waiter_req (pe_resolve p)) (reply_of cfg (clock net) (pe_resolve p) ?e)]\<rparr>"
    by (simp add: relay_step_def respondPending_Some [OF assms(2)] reply_def emit_def)
  moreover have "hr_status (reply_of cfg (clock net) (pe_resolve p) ?e)
      = (case pe_resolve p of CommandWaiter r \<Rightarrow> 504 | HealthWaiter r \<Rightarrow> 503)"
    by (rule timeout_status)
  ultimately show ?thesis using t by blast
qed

theorem timeout_answers_pending_witness:
  "\<exists>ms h m. mapGet (timers demo_state) 1 = Some (CommandTimeout (Fin 1) ms h, m)
    \<and> pending (relay_step demo_cfg demo_parse (demo_net, TimerFires 1) demo_state) = []"
proof -
  have p: "mapGet (pending demo_state) (Fin 1) = Some \<lparr>pe_resolve = CommandWaiter 0, pe_timeout = 1\<rparr>"
    "mapDelete (pending demo_state) (Fin 1) = []"
    by (simp_all add: demo_state_fields mapGet_def)
  from timeout_answers_pending [of demo_cfg demo_parse demo_events "Fin 1" _ demo_net, folded demo_run, OF demo_bound p(1)]
  show ?thesis by (auto simp: p(2))
qed


section \<open>Disconnect and replacement\<close>

text \<open>The waiters an error settles, in the order of the table, and the answers that follow.\<close>

lemma settled_failed [simp]:
  "settled_in (map (\<lambda>(i, p). Resolved (pe_resolve p) (g i)) ps) = map (pe_resolve \<circ> snd) ps"
  "replied_in (map (\<lambda>(i, p). Resolved (pe_resolve p) (g i)) ps) = []"
  by (induction ps) auto

definition disconnected_info :: "nat \<Rightarrow> string \<Rightarrow> error_info" where
  "disconnected_info c reason = makeErrorInfo ''EXTENSION_DISCONNECTED''
     ''Extension disconnected before command completed.''
     (Some (Obj [(''code'', Num (num_of_nat c)), (''reason'', Str reason)])) None"

definition closed_line :: "string \<Rightarrow> nat \<Rightarrow> string \<Rightarrow> effect" where
  "closed_line msg c reason =
     log_line ''warn'' [Str msg, Obj [(''code'', Num (num_of_nat c)), (''reason'', Str reason)]]"

lemma closed_line_simps [simp]:
  "(case closed_line m c r of Awaiting w d \<Rightarrow> f w d | _ \<Rightarrow> b) = b"
  "(case closed_line m c r of Resolved w j \<Rightarrow> h w j | _ \<Rightarrow> b') = b'"
  "begun_in (closed_line m c r # es) = begun_in es" "settled_in (closed_line m c r # es) = settled_in es"
  "replied_in (closed_line m c r # es) = replied_in es" "resolved_in (closed_line m c r # es) = resolved_in es"
  "continue_with cfg now (closed_line m c r # es) st = continue_with cfg now es st"
  by (simp_all add: closed_line_def)

definition answers_with :: "relay_config \<Rightarrow> string \<Rightarrow> error_info \<Rightarrow> (jsnum \<times> pending_entry) list \<Rightarrow> effect list" where
  "answers_with cfg now e ps = map (\<lambda>(i, p). Replied (waiter_req (pe_resolve p))
     (reply_of cfg now (pe_resolve p) (makeErrorResponse i e))) ps"



text \<open>The end of the handler of a new extension socket, from the assignment of the socket on.\<close>

definition adopt :: "relay_config \<Rightarrow> net \<Rightarrow> nat \<Rightarrow> relay \<Rightarrow> relay" where
  "adopt cfg net ws s = sseBroadcast net (status_message True)
     (startExtensionKeepalive cfg ws (relay_log ''info'' [Str ''Extension connected''] (s\<lparr>extension := Some ws\<rparr>)))"

lemma adopt_trace:
  "trace (adopt cfg net ws s) =
     trace s @ [log_line ''info'' [Str ''Extension connected'']] @ broadcast_effects net (status_message True) s"
proof -
  let ?s = "s\<lparr>extension := Some ws\<rparr>"
  let ?k = "startExtensionKeepalive cfg ws (relay_log ''info'' [Str ''Extension connected''] ?s)"
  have "sseClients ?k = sseClients s" "trace ?k = trace s @ [log_line ''info'' [Str ''Extension connected'']]"
    by (simp_all add: same_trace_ops)
       (simp_all add: startExtensionKeepalive_def setTimer_def stopExtensionKeepalive_eq relay_log_def Let_def split: option.split)
  then show ?thesis by (simp add: adopt_def sseBroadcast_trace broadcast_effects_def)
qed

lemma adopt_fields:
  "extension (adopt cfg net ws s) = Some ws" "pending (adopt cfg net ws s) = pending s"
  "extensionKeepaliveId (adopt cfg net ws s) = Some (nextTimer s)"
  "mapGet (timers (adopt cfg net ws s)) (nextTimer s) = Some (ExtensionKeepalive ws, EXTENSION_KEEPALIVE_MS cfg)"
  by (simp_all add: adopt_def startExtensionKeepalive_def setTimer_def stopExtensionKeepalive_eq Let_def
      split: option.split)

definition reconnected_info :: error_info where
  "reconnected_info = makeErrorInfo ''EXTENSION_RECONNECTED''
     ''Extension reconnected; previous in-flight commands were canceled.'' None None"

text \<open>
  C17. A second extension socket takes over: while the old one is open, every command in flight on it
  is cancelled with \<open>EXTENSION_RECONNECTED\<close>, the old socket is closed with code 1012, the new one
  becomes the extension with a keepalive timer of its own, and the waiting requests are answered.
\<close>
theorem reconnect_cancels_pending:
  assumes old: "extension st = Some old" "ready net old = OPEN"
  shows "let st' = relay_step cfg parse (net, SocketOpen ExtensionRole ws) st
    in extension st' = Some ws \<and> pending st' = [] \<and> settled st' = settled st @ awaiting st
      \<and> (\<exists>t. extensionKeepaliveId st' = Some t
            \<and> mapGet (timers st') t = Some (ExtensionKeepalive ws, EXTENSION_KEEPALIVE_MS cfg))
      \<and> trace st' = trace st
          @ map (\<lambda>(i, p). Resolved (pe_resolve p) (makeErrorResponse i reconnected_info)) (pending st)
          @ [log_line ''warn'' [Str ''Replacing existing extension connection''], WsClose old 1012 ''Replaced'',
             log_line ''info'' [Str ''Extension connected'']]
          @ broadcast_effects net (status_message True) st
          @ answers_with cfg (clock net) reconnected_info (pending st)"
proof -
  let ?ev = "SocketOpen ExtensionRole ws"
  let ?t = "relay_step cfg parse (net, ?ev) st"
  let ?es = "map (\<lambda>(i, p). Resolved (pe_resolve p) (makeErrorResponse i reconnected_info)) (pending st)"
  let ?ls = "[log_line ''warn'' [Str ''Replacing existing extension connection''], WsClose old 1012 ''Replaced'',
     log_line ''info'' [Str ''Extension connected'']]"
  let ?bs = "broadcast_effects net (status_message True) st"
  let ?s1 = "emit (WsClose old 1012 ''Replaced'') (relay_log ''warn'' [Str ''Replacing existing extension connection'']
      (failAllPending reconnected_info st))"
  have h: "handle cfg parse net ?ev st = adopt cfg net ws ?s1"
    by (simp add: ws_open_def adopt_def old reconnected_info_def Let_def)
  have tr: "trace (adopt cfg net ws ?s1) = trace st @ ?es @ ?ls @ ?bs"
    by (simp add: adopt_trace relay_log_def failAllPending_trace broadcast_effects_def)
  have t: "?t = continue_with cfg (clock net) (?es @ ?ls @ ?bs) (adopt cfg net ws ?s1)"
    by (simp add: relay_step_def Let_def tr h del: handle.simps)
  have "extension ?t = Some ws" "pending ?t = []" "extensionKeepaliveId ?t = Some (nextTimer ?s1)"
    "mapGet (timers ?t) (nextTimer ?s1) = Some (ExtensionKeepalive ws, EXTENSION_KEEPALIVE_MS cfg)"
    unfolding t by (simp_all only: continue_with_frame adopt_fields) (simp add: failAllPending_pending)
  moreover have "settled ?t = settled st @ awaiting st"
    by (simp add: t tr awaiting_def)
  moreover have "trace ?t = trace st @ ?es @ ?ls @ ?bs @ answers_with cfg (clock net) reconnected_info (pending st)"
    unfolding t continue_with_trace tr by (auto simp: answers_with_def)
  ultimately show ?thesis unfolding Let_def by blast
qed

theorem reconnect_cancels_pending_witness:
  "pending (relay_step demo_cfg demo_parse (demo_net, SocketOpen ExtensionRole 6) demo_state) = []"
  using reconnect_cancels_pending [of demo_state 5 demo_net demo_cfg demo_parse 6]
  by (simp add: demo_state_fields(2) Let_def) (simp add: demo_net_def)

text \<open>
  When the socket being replaced is no longer open (it is closing), its commands in flight are
  not cancelled: they stay pending through the replacement and through the old socket's own close,
  which by then is stale and only logged. They end by their timeouts.
\<close>
theorem closing_socket_leaves_pending:
  assumes old: "extension st = Some old" "ready net old \<noteq> OPEN" "ws \<noteq> old"
  shows "let st' = relay_step cfg parse (net, SocketOpen ExtensionRole ws) st;
             st'' = relay_step cfg parse (net', SocketClose ExtensionRole old c reason) st'
    in extension st'' = Some ws \<and> pending st'' = pending st \<and> settled st'' = settled st \<and> replied st'' = replied st
      \<and> st'' = emit (closed_line ''Stale extension socket closed'' c reason) st'"
proof -
  let ?t = "relay_step cfg parse (net, SocketOpen ExtensionRole ws) st"
  let ?u = "relay_step cfg parse (net', SocketClose ExtensionRole old c reason) ?t"
  have h: "handle cfg parse net (SocketOpen ExtensionRole ws) st = adopt cfg net ws st"
    by (simp add: ws_open_def adopt_def old Let_def)
  have t: "?t = adopt cfg net ws st"
    by (simp add: relay_step_def Let_def adopt_trace h del: handle.simps)
  have e: "extension ?t = Some ws" "pending ?t = pending st"
    unfolding t by (simp_all add: adopt_fields)
  have "settled ?t = settled st" "replied ?t = replied st"
    unfolding t adopt_trace by simp_all
  moreover have u: "?u = emit (closed_line ''Stale extension socket closed'' c reason) ?t"
    using old(3) by (simp add: relay_step_def [of _ _ "(net', _)"] ws_close_def e relay_log_def closed_line_def Let_def)
  ultimately show ?thesis
    unfolding Let_def by (simp add: u e)
qed

theorem closing_socket_leaves_pending_witness:
  "pending (relay_step demo_cfg demo_parse (demo_net, SocketClose ExtensionRole 5 1006 ''gone'')
     (relay_step demo_cfg demo_parse (demo_net\<lparr>ready := (\<lambda>_. CLOSING)\<rparr>, SocketOpen ExtensionRole 6) demo_state))
   = [(Fin 1, \<lparr>pe_resolve = CommandWaiter 0, pe_timeout = 1\<rparr>)]"
proof -
  have "ready (demo_net\<lparr>ready := (\<lambda>_. CLOSING)\<rparr>) 5 \<noteq> OPEN" "(6::nat) \<noteq> 5" by simp_all
  from closing_socket_leaves_pending [OF demo_state_fields(2) this, of demo_cfg demo_parse demo_net 1006 "''gone''"]
  show ?thesis unfolding Let_def demo_state_fields(4) by blast
qed

end
