(* ===== verification/RelayReplies.thy ===== *)
theory RelayReplies
  imports RelayProperties
begin

text \<open>
  Properties of the relay's HTTP side: which bodies become commands and what the extension will
  make of them, what dispatch does on every branch, how statuses and flags of the answers relate,
  and the configuration.
\<close>

section \<open>Bodies\<close>

lemma wire_kind [simp]:
  "isRecord (wire v) = isRecord v" "is_str (wire v) = is_str v" "wire v = Str s \<longleftrightarrow> v = Str s"
  by (cases v; simp)+

lemma is_str_Undefined: "v = Undefined \<Longrightarrow> \<not> is_str v"
  by simp

lemma command_js_wire:
  "js_get (wire (command_js c)) ''id'' = Num (num_of_nat (rc_id c))"
  "js_get (wire (command_js c)) ''method'' = (if rc_method c = Undefined then Undefined else wire (rc_method c))"
  "js_get (wire (command_js c)) ''params'' = (if rc_params c = Undefined then Undefined else wire (rc_params c))"
  "isRecord (command_js c)"
  by (simp_all add: command_js_def num_of_nat_def)

lemma command_reaches:
  assumes p: "rc_params c = Obj ps" "distinct (map fst ps) \<or> json_parsed (Obj ps)"
    and m: "isExtensionMethod (rc_method c)" "is_str (js_get (Obj ps) ''method'')"
      "js_get (Obj ps) ''params'' = Undefined \<or> isRecord (js_get (Obj ps) ''params'')"
      "js_get (Obj ps) ''targetId'' = Undefined \<or> is_str (js_get (Obj ps) ''targetId'')"
  shows "isExtensionCommandMessage (wire (command_js c))"
proof -
  have g: "js_get (wire (Obj ps)) k = (if js_get (Obj ps) k = Undefined then Undefined else wire (js_get (Obj ps) k))" for k
    using p(2) js_get_wire_Obj [of ps k] js_get_wire_parsed [of ps k] by blast
  have "js_get (wire (command_js c)) ''params'' = wire (Obj ps)"
    by (simp add: command_js_wire p(1))
  moreover have "js_get (wire (command_js c)) ''method'' \<in> {Str ''cdp'', Str ''tab''}"
    using m(1) by (auto simp: command_js_wire isExtensionMethod_def)
  ultimately show ?thesis
    using m by (auto simp: isExtensionCommandMessage_iff command_js_wire g is_str_Undefined simp del: wire.simps)
qed

lemma isRecord_Obj: "isRecord v \<Longrightarrow> is_str (js_get v k) \<Longrightarrow> (\<And>ps. v = Obj ps \<Longrightarrow> P) \<Longrightarrow> P"
  by (cases v) auto

lemma accepted_body:
  assumes body: "json_parsed body" "parseHttpCommandBody body st = (Inr c, st')"
    and kind: "js_get body ''type'' \<noteq> Str ''command'' \<or> isExtensionCommandMessage body"
  shows "rc_id c = nextId st \<and> st' = st\<lparr>nextId := js_inc (nextId st)\<rparr>
    \<and> isExtensionCommandMessage (wire (command_js c))
    \<and> cmd_id (command_of_js (wire (command_js c))) = Num (num_of_nat (nextId st))
    \<and> Str (cmd_method (command_of_js (wire (command_js c)))) = js_get body ''method''
    \<and> Str (cmd_params_method (command_of_js (wire (command_js c)))) = js_get (js_get body ''params'') ''method''"
proof -
  have make: "rc_id c = nextId st" "st' = st\<lparr>nextId := js_inc (nextId st)\<rparr>"
    using body(2) by (auto simp: parseHttpCommandBody_def makeCommand_def Let_def split: if_splits)
  obtain ps where ps: "rc_params c = Obj ps" "distinct (map fst ps) \<or> json_parsed (Obj ps)"
    and m: "isExtensionMethod (rc_method c)" "rc_method c = js_get body ''method''"
      "is_str (js_get (Obj ps) ''method'')" "js_get (Obj ps) ''method'' = js_get (js_get body ''params'') ''method''"
      "js_get (Obj ps) ''params'' = Undefined \<or> isRecord (js_get (Obj ps) ''params'')"
      "js_get (Obj ps) ''targetId'' = Undefined \<or> is_str (js_get (Obj ps) ''targetId'')"
  proof (cases "isExtensionCommandMessage body")
    case True
    then obtain ps where p: "js_get body ''params'' = Obj ps"
      by (auto simp: isExtensionCommandMessage_iff elim!: isRecord_Obj)
    from True have "isRecord body" by (simp add: isExtensionCommandMessage_iff)
    with True body have c: "rc_method c = js_get body ''method''" "rc_params c = Obj ps"
      by (auto simp: parseHttpCommandBody_def makeCommand_def p)
    have "isExtensionMethod (js_get body ''method'')"
      using True by (auto simp: isExtensionCommandMessage_iff isExtensionMethod_def)
    moreover have "json_parsed (Obj ps)" using json_parsed_get [OF body(1), of "''params''"] p by simp
    moreover have "is_str (js_get (Obj ps) ''method'')"
      "js_get (Obj ps) ''params'' = Undefined \<or> isRecord (js_get (Obj ps) ''params'')"
      "js_get (Obj ps) ''targetId'' = Undefined \<or> is_str (js_get (Obj ps) ''targetId'')"
      using True by (simp_all add: isExtensionCommandMessage_iff p)
    ultimately show ?thesis by (intro that [of ps]) (simp_all only: c p simp_thms)
  next
    case False
    with kind have "js_get body ''type'' \<noteq> Str ''command''" by blast
    let ?p = "js_get body ''params''"
    let ?ps = "[(''method'', js_get ?p ''method''), (''params'', js_get ?p ''params''), (''targetId'', js_get ?p ''targetId'')]"
    from body(2) False \<open>js_get body ''type'' \<noteq> Str ''command''\<close>
    have b: "isExtensionMethod (js_get body ''method'')" "rc_method c = js_get body ''method''"
      "rc_params c = Obj ?ps" "is_str (js_get ?p ''method'')"
      "js_get ?p ''params'' = Undefined \<or> isRecord (js_get ?p ''params'')"
      "js_get ?p ''targetId'' = Undefined \<or> is_str (js_get ?p ''targetId'')"
      by (auto simp: parseHttpCommandBody_def makeCommand_def isClientEnvelope_def Let_def split: if_splits)
    from b show ?thesis by (intro that [of ?ps]) simp_all
  qed
  have ok: "isExtensionCommandMessage (wire (command_js c))" by (rule command_reaches [OF ps m(1,3,5,6)])
  have g: "js_get (wire (Obj ps)) ''method'' = wire (js_get (Obj ps) ''method'')"
    using ps(2) js_get_wire_Obj [of ps "''method''"] js_get_wire_parsed [of ps "''method''"] m(3) by auto
  from m(1,2) have "Str (cmd_method (command_of_js (wire (command_js c)))) = js_get body ''method''"
    by (auto simp: command_of_js_def Let_def command_js_wire isExtensionMethod_def)
  moreover have "Str (cmd_params_method (command_of_js (wire (command_js c)))) = js_get (js_get body ''params'') ''method''"
    using m(3,4) by (auto simp: command_of_js_def Let_def command_js_wire ps(1) g simp del: wire.simps(7) elim!: is_strE)
  moreover have "cmd_id (command_of_js (wire (command_js c))) = Num (num_of_nat (nextId st))"
    by (simp add: command_of_js_def Let_def command_js_wire make)
  ultimately show ?thesis using make ok by blast
qed

text \<open>
  C10. A body accepted without a \<open>type: "command"\<close> envelope (or that is already a whole command)
  becomes a command under a fresh id of the relay's own, never the client's, and what the extension
  receives for it, after the trip over the wire, passes the extension's command guard, with the
  id, the method and the inner method as the client named them.
\<close>
theorem accepted_body_reaches_extension:
  assumes body: "json_parsed body" "parseHttpCommandBody body st = (Inr c, st')"
    and kind: "js_get body ''type'' \<noteq> Str ''command'' \<or> isExtensionCommandMessage body"
  shows "rc_id c = nextId st \<and> st' = st\<lparr>nextId := js_inc (nextId st)\<rparr>
    \<and> isExtensionCommandMessage (wire (command_js c))
    \<and> cmd_id (command_of_js (wire (command_js c))) = Num (num_of_nat (nextId st))
    \<and> Str (cmd_method (command_of_js (wire (command_js c)))) = js_get body ''method''
    \<and> Str (cmd_params_method (command_of_js (wire (command_js c)))) = js_get (js_get body ''params'') ''method''"
  using assms by (rule accepted_body)

theorem accepted_body_reaches_extension_witness:
  "isExtensionCommandMessage (wire (command_js (fst (makeCommand (Str ''tab'') (Obj [(''method'', Str ''tab.countTabs''),
     (''params'', Undefined), (''targetId'', Undefined)]) relay_init))))"
proof -
  have "json_parsed demo_body" "js_get demo_body ''type'' \<noteq> Str ''command''" by (simp_all add: demo_body_def)
  moreover have "parseHttpCommandBody demo_body relay_init = map_prod Inr id (makeCommand (Str ''tab'')
      (Obj [(''method'', Str ''tab.countTabs''), (''params'', Undefined), (''targetId'', Undefined)]) relay_init)"
    by (simp add: parseHttpCommandBody_def demo_body_def isExtensionCommandMessage_def isClientEnvelope_def
        isExtensionMethod_def)
  ultimately show ?thesis
    using accepted_body_reaches_extension [of demo_body relay_init] by (simp add: map_prod_def case_prod_beta)
qed

text \<open>A body in a command envelope whose target id is a number.\<close>

definition bad_envelope :: js where
  "bad_envelope = Obj [(''type'', Str ''command''), (''method'', Str ''cdp''),
     (''params'', Obj [(''method'', Str ''Page.enable''), (''targetId'', Num (Fin 5))])]"

text \<open>
  The envelope form skips two checks: a body with \<open>type: "command"\<close> and a numeric target id is
  turned into a command (the same body without the envelope is refused with
  \<open>INVALID_COMMAND_TARGET_ID\<close>), but what the extension receives for it fails the extension's
  command guard, so no answer can come.
\<close>
theorem envelope_skips_checks:
  "(\<exists>c. fst (parseHttpCommandBody bad_envelope st) = Inr c \<and> \<not> isExtensionCommandMessage (wire (command_js c)))
   \<and> (\<exists>e. fst (parseHttpCommandBody (Obj (tl (entries bad_envelope))) st) = Inl e
        \<and> ei_code e = ''INVALID_COMMAND_TARGET_ID'')"
  by (simp add: bad_envelope_def parseHttpCommandBody_def isExtensionCommandMessage_def isClientEnvelope_def
      isExtensionMethod_def makeCommand_def command_js_def num_of_nat_def)

lemma refusal_any_state:
  assumes "parseHttpCommandBody body st = (Inl e, s)"
  shows "parseHttpCommandBody body st' = (Inl e, st')"
proof -
  have "case parseHttpCommandBody body st of (Inl e, s) \<Rightarrow> parseHttpCommandBody body st' = (Inl e, st') | _ \<Rightarrow> True"
    unfolding parseHttpCommandBody_def makeCommand_def Let_def map_prod_simp by simp
  then show ?thesis by (simp add: assms)
qed

definition refusals :: "string set" where
  "refusals = {''INVALID_COMMAND_BODY'', ''INVALID_COMMAND_METHOD'', ''INVALID_COMMAND_PARAMS'',
     ''INVALID_COMMAND_TARGET_ID''}"

lemma refusals_intro:
  "''INVALID_COMMAND_BODY'' \<in> refusals" "''INVALID_COMMAND_METHOD'' \<in> refusals"
  "''INVALID_COMMAND_PARAMS'' \<in> refusals" "''INVALID_COMMAND_TARGET_ID'' \<in> refusals"
  by (simp_all add: refusals_def)

lemma refusal_codes:
  assumes "parseHttpCommandBody body st = (Inl e, s)"
  shows "ei_code e \<in> refusals"
proof -
  have "case fst (parseHttpCommandBody body st) of Inl e \<Rightarrow> ei_code e \<in> refusals | Inr c \<Rightarrow> True"
    unfolding parseHttpCommandBody_def makeCommand_def Let_def by (simp add: refusals_intro)
  then show ?thesis by (simp add: assms)
qed

lemma refusal_code: "parseHttpCommandBody body st = (Inl e, s) \<Longrightarrow> code_status (ei_code e) = 400"
  using refusal_codes [of body st e s] by (auto simp: code_status_def refusals_def)

text \<open>
  C39. A body that is refused (text that is not JSON, or a value that is no command) is answered at
  once with status 400, which is also the status its error code has in the table; nothing is sent,
  no id is used, and nothing else changes.
\<close>
theorem refused_body_answers_400:
  assumes "rq_path rq = ''/command''" "rq_method rq = ''POST''"
    and "\<forall>body. parse (rq_body rq) = Inr body \<longrightarrow> (\<exists>e s. parseHttpCommandBody body st = (Inl e, s))"
  shows "\<exists>e. relay_step cfg parse (net, Fetch rq) st =
        st\<lparr>nextReq := Suc (nextReq st), trace := trace st @ [Replied (nextReq st) (bad_request e)]\<rparr>
      \<and> hr_status (bad_request e) = 400 \<and> code_status (ei_code e) = 400"
proof -
  let ?st = "st\<lparr>nextReq := Suc (nextReq st)\<rparr>"
  have "\<exists>e. fetch cfg parse net rq st = reply (nextReq st) (bad_request e) ?st \<and> code_status (ei_code e) = 400"
  proof (cases "parse (rq_body rq)")
    case (Inl err)
    obtain e where e: "parseJsonText parse (rq_body rq) ''INVALID_JSON'' ''Request body is not valid JSON''
        (Some (Obj [(''endpoint'', Str ''/command'')])) = Inl e" "ei_code e = ''INVALID_JSON''"
      by (simp add: parseJsonText_def Inl)
    have "fetch cfg parse net rq st = reply (nextReq st) (bad_request e) ?st"
      using assms(1,2) by (simp add: fetch_def Let_def handleHttpCommand_def e(1))
    moreover have "code_status (ei_code e) = 400" by (simp add: e(2) code_status_def)
    ultimately show ?thesis by blast
  next
    case (Inr body)
    with assms(3) obtain e s where e: "parseHttpCommandBody body st = (Inl e, s)" by blast
    have "parseHttpCommandBody body ?st = (Inl e, ?st) \<and> code_status (ei_code e) = 400"
      using refusal_any_state [OF e] refusal_code [OF e] by blast
    with Inr assms(1,2) show ?thesis
      by (auto simp: fetch_def Let_def handleHttpCommand_def parseJsonText_def)
  qed
  then obtain e where e: "fetch cfg parse net rq st = reply (nextReq st) (bad_request e) ?st"
    "code_status (ei_code e) = 400" by blast
  have "relay_step cfg parse (net, Fetch rq) st =
        st\<lparr>nextReq := Suc (nextReq st), trace := trace st @ [Replied (nextReq st) (bad_request e)]\<rparr>"
    by (simp add: relay_step_def e reply_def emit_def)
  with e(2) show ?thesis by (intro exI [of _ e]) (simp add: bad_request_def)
qed

theorem refused_body_answers_400_witness:
  "\<exists>e. relay_step demo_cfg demo_parse (demo_net, Fetch (demo_post\<lparr>rq_body := ''{''\<rparr>)) relay_init =
        relay_init\<lparr>nextReq := Suc (nextReq relay_init), trace := trace relay_init @ [Replied (nextReq relay_init) (bad_request e)]\<rparr>
      \<and> hr_status (bad_request e) = 400 \<and> code_status (ei_code e) = 400"
  by (rule refused_body_answers_400) (simp_all add: demo_post_def demo_parse_def)


section \<open>Dispatch\<close>

lemma accepted_any_state:
  assumes "parseHttpCommandBody body st = (Inr c, s)" "nextId st' = nextId st"
  shows "parseHttpCommandBody body st' = (Inr c, st'\<lparr>nextId := js_inc (nextId st')\<rparr>)"
proof -
  have "case parseHttpCommandBody body st of (Inr c, s) \<Rightarrow>
      parseHttpCommandBody body st' = (Inr c, st'\<lparr>nextId := js_inc (nextId st')\<rparr>) | _ \<Rightarrow> True"
    unfolding parseHttpCommandBody_def makeCommand_def Let_def map_prod_simp assms(2) by simp
  then show ?thesis by (simp add: assms(1))
qed

text \<open>The errors a command that cannot be sent is settled with.\<close>

definition send_failure :: "net \<Rightarrow> nat option \<Rightarrow> error_info option" where
  "send_failure net ext = (
     if \<not> is_open net ext then
       Some (makeErrorInfo ''EXTENSION_NOT_CONNECTED'' ''Extension is not connected'' None None)
     else map_option (\<lambda>err. makeErrorInfo ''WS_SEND_FAILED'' ''Failed to send command to extension'' None (Some err))
            (send_error net (the ext)))"

lemma send_failure_status:
  "send_failure net ext = Some e \<Longrightarrow>
     error_info_ok e \<and> code_status (ei_code e) = (if is_open net ext then 502 else 503)"
  by (auto simp: send_failure_def error_info_ok_def code_status_def split: if_splits)

text \<open>With an open socket that takes the frame, a command is registered and its frame goes out.\<close>

lemma dispatch_open:
  assumes rq: "rq_path rq = ''/command''" "rq_method rq = ''POST''" "parse (rq_body rq) = Inr body"
    and c: "parseHttpCommandBody body st = (Inr c, s)" and up: "send_failure net (extension st) = None"
  shows "relay_step cfg parse (net, Fetch rq) st = emit (WsSend (the (extension st)) (command_js c))
    (registered c (CommandWaiter (nextReq st)) (REQUEST_TIMEOUT_MS cfg) True
      (st\<lparr>nextReq := Suc (nextReq st), nextId := js_inc (nextId st)\<rparr>))"
proof -
  let ?s0 = "st\<lparr>nextReq := Suc (nextReq st)\<rparr>"
  let ?s1 = "?s0\<lparr>nextId := js_inc (nextId st)\<rparr>"
  have "parseHttpCommandBody body ?s0 = (Inr c, ?s1)" using accepted_any_state [OF c, of ?s0] by simp
  then have f: "handle cfg parse net (Fetch rq) st
      = sendCommandToExtension net c (CommandWaiter (nextReq st)) (REQUEST_TIMEOUT_MS cfg) True ?s1"
    using rq by (simp add: fetch_def Let_def handleHttpCommand_def parseJsonText_def)
  from up have "is_open net (extension st)" "send_error net (the (extension st)) = None"
    by (simp_all add: send_failure_def split: if_splits)
  then show ?thesis
    by (simp add: relay_step_def f sendCommandToExtension_eq registered_def del: handle.simps)
qed

text \<open>
  C9. What an accepted command does, on every branch. With an open extension socket that takes the
  frame, exactly one frame goes out, the promise waits under the command's id with a fresh timer of
  the configured length, and nothing is answered yet. When the extension is not connected, or the
  socket throws, the promise settles at once, the answer has status 503 or 502, and the id is not
  left pending.
\<close>
theorem command_dispatch:
  assumes rq: "rq_path rq = ''/command''" "rq_method rq = ''POST''" "parse (rq_body rq) = Inr body"
    and c: "parseHttpCommandBody body st = (Inr c, s)"
  shows "let st' = relay_step cfg parse (net, Fetch rq) st; r = nextReq st; w = CommandWaiter (nextReq st);
             cid = num_of_nat (rc_id c)
    in case send_failure net (extension st) of
        None \<Rightarrow> trace st' = trace st @ [Awaiting w c, WsSend (the (extension st)) (command_js c)]
          \<and> pending st' = mapSet (pending st) cid \<lparr>pe_resolve = w, pe_timeout = nextTimer st\<rparr>
          \<and> mapGet (timers st') (nextTimer st)
              = Some (CommandTimeout cid (REQUEST_TIMEOUT_MS cfg) True, REQUEST_TIMEOUT_MS cfg)
      | Some e \<Rightarrow> trace st' = trace st @ [Awaiting w c, Resolved w (makeErrorResponse cid e),
            Replied r (command_reply (makeErrorResponse cid e))]
          \<and> hr_status (command_reply (makeErrorResponse cid e)) = (if is_open net (extension st) then 502 else 503)
          \<and> (mapGet (pending st) cid = None \<longrightarrow> mapGet (pending st') cid = None)"
proof -
  let ?w = "CommandWaiter (nextReq st)" and ?cid = "num_of_nat (rc_id c)"
  let ?s0 = "st\<lparr>nextReq := Suc (nextReq st)\<rparr>"
  let ?s1 = "?s0\<lparr>nextId := js_inc (nextId st)\<rparr>"
  let ?ms = "REQUEST_TIMEOUT_MS cfg"
  have p: "parseHttpCommandBody body ?s0 = (Inr c, ?s1)" using accepted_any_state [OF c, of ?s0] by simp
  have f: "handle cfg parse net (Fetch rq) st = sendCommandToExtension net c ?w ?ms True ?s1"
    using rq p by (simp add: fetch_def Let_def handleHttpCommand_def parseJsonText_def)
  let ?t = "relay_step cfg parse (net, Fetch rq) st"
  let ?reg = "registered c ?w ?ms True ?s1"
  have reg: "mapGet (pending ?reg) ?cid = Some \<lparr>pe_resolve = ?w, pe_timeout = nextTimer st\<rparr>"
    "trace ?reg = trace st @ [Awaiting ?w c]"
    "pending ?reg = mapSet (pending st) ?cid \<lparr>pe_resolve = ?w, pe_timeout = nextTimer st\<rparr>"
    "mapGet (timers ?reg) (nextTimer st) = Some (CommandTimeout ?cid ?ms True, ?ms)"
    by (simp_all add: registered_def)
  show ?thesis
  proof (cases "send_failure net (extension st)")
    case None
    from dispatch_open [of rq parse body st c s net cfg, OF rq c None] have "?t = emit (WsSend (the (extension st)) (command_js c)) ?reg" by simp
    with None show ?thesis by (simp add: Let_def reg)
  next
    case (Some e)
    let ?m = "makeErrorResponse ?cid e"
    have st: "hr_status (command_reply ?m) = (if is_open net (extension st) then 502 else 503)"
      using send_failure_status [OF Some] by (simp add: command_reply_def commandErrorToStatus_make)
    show ?thesis
    proof (cases "is_open net (extension st)")
      case True
      with Some obtain err where err: "send_error net (the (extension st)) = Some err"
        "e = makeErrorInfo ''WS_SEND_FAILED'' ''Failed to send command to extension'' None (Some err)"
        by (auto simp: send_failure_def)
      have h: "handle cfg parse net (Fetch rq) st = respondPending ?cid ?m ?reg"
        using True err by (simp add: f sendCommandToExtension_eq Let_def del: handle.simps)
      have "trace ?t = trace st @ [Awaiting ?w c, Resolved ?w ?m, Replied (nextReq st) (command_reply ?m)]"
        "mapGet (pending ?t) ?cid = None"
        by (simp_all add: relay_step_def h respondPending_Some [OF reg(1)] reg(2) reply_def del: handle.simps)
      with Some st show ?thesis by (simp add: Let_def)
    next
      case False
      with Some have h: "handle cfg parse net (Fetch rq) st = resolve ?w ?m (emit (Awaiting ?w c) ?s1)"
        by (simp add: f sendCommandToExtension_eq send_failure_def Let_def del: handle.simps)
      have "trace ?t = trace st @ [Awaiting ?w c, Resolved ?w ?m, Replied (nextReq st) (command_reply ?m)]"
        "pending ?t = pending st"
        by (simp_all add: relay_step_def h resolve_def reply_def del: handle.simps)
      with Some st show ?thesis by (simp add: Let_def)
    qed
  qed
qed

lemma demo_parse_body: "\<exists>c s. parseHttpCommandBody demo_body st = (Inr c, s)"
  by (simp add: parseHttpCommandBody_def demo_body_def isExtensionCommandMessage_def isClientEnvelope_def
      isExtensionMethod_def makeCommand_def)

theorem command_dispatch_witness:
  "\<exists>e. hr_status (command_reply (makeErrorResponse (Fin 1) e)) = 503
    \<and> Replied 0 (command_reply (makeErrorResponse (Fin 1) e))
        \<in> set (trace (relay_step demo_cfg demo_parse (demo_net, Fetch demo_post) relay_init))"
proof -
  obtain c s where c: "parseHttpCommandBody demo_body relay_init = (Inr c, s)"
    using demo_parse_body by blast
  then have "rc_id c = 1"
    by (auto simp: parseHttpCommandBody_def makeCommand_def relay_init_def Let_def split: if_splits)
  moreover have "\<not> is_open demo_net (extension relay_init)" "nextReq relay_init = 0"
    by (simp_all add: is_open_def relay_init_def)
  ultimately show ?thesis
    using command_dispatch [of demo_post demo_parse demo_body relay_init c s demo_cfg demo_net] c
    by (auto simp: demo_post_def demo_parse_def Let_def send_failure_def num_of_nat_def)
qed


section \<open>Answers\<close>

text \<open>
  On a response whose error fields agree (both or neither present, and the text not empty) the
  answer's \<open>ok\<close> flag, its status and its \<open>errorInfo\<close> tell the same story: \<open>ok\<close> exactly when the
  status is 200, exactly when there is no \<open>errorInfo\<close>, and a status other than 200 is at least 400.
\<close>
theorem reply_flags_agree:
  assumes "isExtensionResponseMessage v"
    and "js_get v ''error'' = Undefined \<longleftrightarrow> js_get v ''errorInfo'' = Undefined"
    and "js_get v ''error'' \<noteq> Str []"
  shows "let b = (case hr_body (command_reply v) of Json j \<Rightarrow> j | _ \<Rightarrow> Undefined) in
    (js_get b ''ok'' = Bool True \<longleftrightarrow> hr_status (command_reply v) = 200)
    \<and> (js_get b ''ok'' = Bool True \<longleftrightarrow> js_get b ''errorInfo'' = Null)
    \<and> (hr_status (command_reply v) = 200 \<or> 400 \<le> hr_status (command_reply v))"
proof (cases "js_get v ''error'' = Undefined")
  case True
  with assms show ?thesis
    by (simp add: command_reply_def commandErrorToStatus_def getResponseErrorInfo_def)
next
  case False
  with assms obtain s where s: "js_get v ''error'' = Str s" "s \<noteq> []"
    by (auto simp: isExtensionResponseMessage_iff elim: is_strE)
  from False assms have i: "isExtensionErrorInfo (js_get v ''errorInfo'')"
    by (auto simp: isExtensionResponseMessage_iff)
  then have t: "truthy (js_get v ''errorInfo'')"
    by (auto simp: isExtensionErrorInfo_def isRecord_def intro: truthy_object split: if_splits)
  have "hr_status (command_reply v) = code_status (ei_code (error_info_of_js (js_get v ''errorInfo'')))"
    by (simp add: command_reply_def commandErrorToStatus_def getResponseErrorInfo_def t)
  with code_status_ge have "400 \<le> hr_status (command_reply v)" by simp
  with s t show ?thesis
    by (simp add: command_reply_def errorInfoToJson_def)
qed

theorem reply_flags_agree_witness:
  "hr_status (command_reply demo_answer) = 200
    \<and> js_get (case hr_body (command_reply demo_answer) of Json j \<Rightarrow> j | _ \<Rightarrow> Undefined) ''ok'' = Bool True"
  using reply_flags_agree [of demo_answer] demo_answer_accepted(1)
  by (simp add: demo_answer_def Let_def) (simp add: command_reply_def)

text \<open>
  The flag follows the text alone: a response that passes the guard with an error record whose
  message is empty is answered with status 502 and yet \<open>ok: true\<close>.
\<close>
theorem empty_error_text_reports_ok:
  "let v = Obj [(''id'', Num (Fin 1)), (''error'', Str []),
        (''errorInfo'', error_info_js (makeErrorInfo ''CDP_FAILED'' [] None None))]
   in isExtensionResponseMessage v \<and> hr_status (command_reply v) = 502
      \<and> js_get (case hr_body (command_reply v) of Json j \<Rightarrow> j | _ \<Rightarrow> Undefined) ''ok'' = Bool True"
proof -
  let ?e = "makeErrorInfo ''CDP_FAILED'' [] None None"
  have ok: "error_info_ok ?e" by (simp add: error_info_ok_def)
  have c: "code_status ''CDP_FAILED'' = 502" by (simp add: code_status_def)
  show ?thesis
    by (simp add: Let_def isExtensionResponseMessage_iff isExtensionErrorInfo_js [OF ok] command_reply_def
        commandErrorToStatus_def getResponseErrorInfo_def error_info_roundtrip [OF ok] c)
qed

text \<open>
  The health answer for a response to the probe: status 200 exactly when the response has no
  error and names a target id that is a string and not empty; the browser is reported blocked
  exactly when the probe timed out; otherwise the status is 503 and \<open>ok\<close> is false.
\<close>
theorem health_reports_probe:
  "let r = health_reply cfg now (probe_of_response v);
       b = (case hr_body r of Json j \<Rightarrow> j | _ \<Rightarrow> Undefined);
       responsive = (getResponseErrorInfo v = None
         \<and> (\<exists>s. s \<noteq> [] \<and> js_get (js_get v ''result'') ''targetId'' = Str s))
   in hr_status r = (if responsive then 200 else 503)
     \<and> js_get b ''ok'' = Bool responsive \<and> js_get b ''browserResponsive'' = Bool responsive
     \<and> js_get b ''browserBlocked'' = Bool (\<exists>e. getResponseErrorInfo v = Some e \<and> ei_code e = ''COMMAND_TIMEOUT'')"
proof (cases "getResponseErrorInfo v")
  case (Some e)
  then show ?thesis by (simp add: probe_of_response_def health_reply_def Let_def)
next
  case None
  let ?r = "js_get v ''result''"
  let ?t = "if relay_isRecord ?r then js_get ?r ''targetId'' else Null"
  have t: "is_str ?t \<and> the_str ?t \<noteq> [] \<longleftrightarrow> (\<exists>s. s \<noteq> [] \<and> js_get ?r ''targetId'' = Str s)"
    by (cases ?r) (auto elim: is_strE)
  with None show ?thesis
    by (cases "is_str ?t \<and> the_str ?t \<noteq> []")
       (simp_all add: probe_of_response_def health_reply_def Let_def)
qed


section \<open>Timers and streams\<close>

text \<open>
  C18. No timer leaks: in every reachable state a live timer belongs to a pending command, to the
  current extension socket or to an open event stream, and each of these has exactly its own timer
  alive.
\<close>
theorem no_timer_leaks:
  assumes "nextId (relay_run cfg parse evs) < 2 ^ 53"
  shows "let s = relay_run cfg parse evs in
    (\<forall>t i. (\<exists>ms h m. mapGet (timers s) t = Some (CommandTimeout i ms h, m))
        \<longleftrightarrow> (\<exists>p. mapGet (pending s) i = Some p \<and> pe_timeout p = t))
    \<and> (\<forall>t ws. (\<exists>m. mapGet (timers s) t = Some (ExtensionKeepalive ws, m))
        \<longleftrightarrow> extensionKeepaliveId s = Some t \<and> extension s = Some ws)
    \<and> (extension s = None \<longleftrightarrow> extensionKeepaliveId s = None)
    \<and> (\<forall>t c. (\<exists>m. mapGet (timers s) t = Some (SseKeepalive c, m)) \<longleftrightarrow> mapGet (streams s) c = Some (Some t))
    \<and> (\<forall>c. mapGet (streams s) c \<noteq> Some None)
    \<and> (\<forall>c. mapGet (sseClients s) c \<noteq> None \<longrightarrow> mapGet (streams s) c \<noteq> None)"
  using relay_run_core [OF assms]
  unfolding Let_def core_inv_def pend_inv_def keep_inv_def sse_inv_def timer_defs by blast

theorem no_timer_leaks_witness:
  "(\<exists>ms h m. mapGet (timers demo_state) 1 = Some (CommandTimeout (Fin 1) ms h, m))
     \<longleftrightarrow> (\<exists>p. mapGet (pending demo_state) (Fin 1) = Some p \<and> pe_timeout p = 1)"
  using no_timer_leaks [of demo_cfg demo_parse demo_events, folded demo_run, OF demo_bound]
  unfolding Let_def by blast

lemma broadcast_to_keys:
  "mapKeys (sseClients (broadcast_to net p cs st))
     = filter (\<lambda>c. \<not> (c \<in> set cs \<and> enqueue_error net c)) (mapKeys (sseClients st))"
proof (induction cs arbitrary: st)
  case (Cons c cs)
  have d: "mapKeys (mapDelete m c) = filter (\<lambda>k. k \<noteq> c) (mapKeys m)" for m :: "(nat, unit) jmap"
    by (induction m) (auto simp: mapKeys_def)
  show ?case
    by (auto simp: Cons d filter_filter intro!: filter_cong)
qed simp

text \<open>
  A broadcast writes one frame to every subscribed client whose controller takes data, in
  subscription order, drops exactly the clients that refuse, and touches nothing else. The frame is
  one \<open>data:\<close> line: the text of the message holds no line break.
\<close>
theorem broadcast_reaches_live_clients:
  "sseBroadcast net m st = st
     \<lparr>sseClients := sseClients (sseBroadcast net m st),
      trace := trace st @ map (\<lambda>c. SseData c (''data: '' @ stringify m @ newline @ newline))
        (filter (\<lambda>c. \<not> enqueue_error net c) (mapKeys (sseClients st)))\<rparr>
   \<and> mapKeys (sseClients (sseBroadcast net m st)) = filter (\<lambda>c. \<not> enqueue_error net c) (mapKeys (sseClients st))
   \<and> CHR 0x0A \<notin> set (stringify m) \<and> CHR 0x0D \<notin> set (stringify m)"
proof -
  have "\<forall>c \<in> set (stringify m). 32 \<le> (of_char c :: nat)"
    using printable_stringify [of m] by (simp add: printable_def list_all_iff)
  then have "CHR 0x0A \<notin> set (stringify m)" "CHR 0x0D \<notin> set (stringify m)" by force+
  moreover have "mapKeys (sseClients (sseBroadcast net m st)) = filter (\<lambda>c. \<not> enqueue_error net c) (mapKeys (sseClients st))"
    unfolding sseBroadcast_def broadcast_to_keys by (auto intro: filter_cong)
  ultimately show ?thesis
    by (simp add: relay.equality sseBroadcast_trace broadcast_effects_def sse_frame_def)
qed

text \<open>
  Ending a stream is complete and happens once: from any reachable state the cleanup leaves no
  keepalive timer, no subscription and no closure of the stream, reports the close when there was
  one to report, and a second cleanup (abort after cancel) changes nothing at all.
\<close>
theorem stream_cleanup_once:
  assumes "nextId (relay_run cfg parse evs) < 2 ^ 53"
  shows "let s = relay_run cfg parse evs; s' = stream_cleanup c s in
    stream_cleanup c s' = s' \<and> mapGet (streams s') c = None \<and> mapGet (sseClients s') c = None
    \<and> (\<forall>t m. mapGet (timers s') t \<noteq> Some (SseKeepalive c, m))
    \<and> trace s' = trace s @ (if mapGet (streams s) c = None then [] else [SseClosed c])"
proof -
  let ?s = "relay_run cfg parse evs" and ?s' = "stream_cleanup c (relay_run cfg parse evs)"
  note inv = relay_run_core [OF assms]
  have str: "mapGet (streams ?s') c = None"
    by (auto simp: stream_cleanup_def Let_def split: option.split)
  have "core_inv ?s'" using inv by (rule core_inv_cleanup)
  then have "sse_inv ?s'" by (rule core_invD)
  with str have "mapGet (sseClients ?s') c = None" "\<And>t. \<not> sse_timer ?s' t c"
    unfolding sse_inv_def by (metis, simp)
  moreover have "stream_cleanup c ?s' = ?s'"
    by (simp add: stream_cleanup_def [of c ?s'] str)
  moreover have "trace ?s' = trace ?s @ (if mapGet (streams ?s) c = None then [] else [SseClosed c])"
    by (auto simp: stream_cleanup_def Let_def split: option.split)
  ultimately show ?thesis using str by (simp add: Let_def sse_timer_def)
qed

theorem stream_cleanup_once_witness:
  "stream_cleanup 0 (stream_cleanup 0 demo_state) = stream_cleanup 0 demo_state"
  using stream_cleanup_once [of demo_cfg demo_parse demo_events 0, folded demo_run, OF demo_bound]
  unfolding Let_def by blast


section \<open>Configuration\<close>

text \<open>
  A decimal number in the environment is taken as written; an unset variable, an empty or blank
  one, a word, a negative number, zero and infinity give the fallback. A fraction below one is
  accepted and rounds down to zero, which is not positive.
\<close>
theorem parsePositiveInt_values:
  "(0 < n \<and> n < 2 ^ 53 \<longrightarrow> parsePositiveInt (Some (nat_text n)) fallback = num_of_nat n)
   \<and> parsePositiveInt None fallback = fallback
   \<and> list_all (\<lambda>s. parsePositiveInt (Some s) fallback = fallback)
       [[], ''  '', ''fast'', ''-5'', ''0'', ''Infinity'', ''10ms'']
   \<and> parsePositiveInt (Some ''0.5'') fallback = Fin 0"
proof -
  have "parsePositiveInt (Some (nat_text n)) fallback = num_of_nat n" if "0 < n" "n < 2 ^ 53"
    using that by (simp add: parsePositiveInt_eq js_Number_def str_to_num_nat_text) (simp add: num_of_nat_def)
  moreover have "str_to_num [] = Fin 0" "str_to_num ''  '' = Fin 0" "str_to_num ''fast'' = NaN"
    "str_to_num ''-5'' = Fin (- 5)" "str_to_num ''0'' = Fin 0" "str_to_num ''Infinity'' = PosInf"
    "str_to_num ''10ms'' = NaN" "str_to_num ''0.5'' = Fin (1 / 2)"
    by (simp_all add: str_to_num_def trim_def trimStart_def is_space_def unsigned_num_def is_digit_def
        digits_val_def round_num_def Let_def)
  moreover have "\<lfloor>1 / 2 :: rat\<rfloor> = 0" by (simp add: floor_eq_iff)
  ultimately show ?thesis by (simp add: parsePositiveInt_eq js_Number_def)
qed

theorem parsePositiveInt_values_witness:
  "parsePositiveInt (Some (nat_text 9111)) (Fin 1) = num_of_nat 9111"
  using parsePositiveInt_values [of 9111 "Fin 1"] by simp


section \<open>The two halves of the protocol\<close>

text \<open>
  The relay's own copies of the protocol's helpers agree with the extension's on every value:
  the record test, the error guard, the command guard, the message of a thrown value and the
  constructor of error records.
\<close>
theorem protocol_copies_agree:
  "relay_isRecord v = isRecord v
   \<and> relay_isExtensionErrorInfo v = isExtensionErrorInfo v
   \<and> relay_isExtensionCommandMessage v = isExtensionCommandMessage v
   \<and> relay_errorToMessage t = errorToMessage t
   \<and> makeErrorInfo c m d cause = createExtensionErrorInfo c m d cause"
  by (simp add: makeErrorInfo_eq)

definition wire_info :: "error_info \<Rightarrow> error_info" where
  "wire_info e = e\<lparr>ei_details := map_option wire (ei_details e)\<rparr>"

lemma wire_error_info: "error_info_ok e \<Longrightarrow> wire (error_info_js e) = error_info_js (wire_info e)"
  by (cases "ei_details e"; cases "ei_cause e")
     (auto simp: error_info_js_def wire_info_def error_info_ok_def)

lemma wire_info_ok: "error_info_ok e \<Longrightarrow> error_info_ok (wire_info e)"
  by (auto simp: error_info_ok_def wire_info_def split: option.splits)

text \<open>
  C15. Whatever a handler of the extension throws, the error response made from it arrives at the
  relay as a response: it passes the relay's guard, keeps the id, carries the code, the message and
  the cause unchanged (and the details as the wire carries them), and the status of the HTTP answer
  is the one of that code.
\<close>
theorem extension_errors_arrive:
  assumes "case fb_details fb of None \<Rightarrow> True | Some d \<Rightarrow> isRecord d" "isFinite i"
  shows "let v = wire (toExtensionErrorResponse (Num i) t fb); e = toExtensionErrorInfo t fb in
    isExtensionResponseMessage v \<and> js_get v ''id'' = Num i
    \<and> getResponseErrorInfo v = Some (e\<lparr>ei_details := map_option wire (ei_details e)\<rparr>)
    \<and> hr_status (command_reply v) = code_status (ei_code e)"
proof -
  let ?e = "toExtensionErrorInfo t fb"
  have ok: "error_info_ok ?e" using assms(1) by (rule toExtensionErrorInfo_ok)
  have "wire (toExtensionErrorResponse (Num i) t fb) = makeErrorResponse i (wire_info ?e)"
    using assms(2) wire_error_info [OF ok]
    by (simp add: toExtensionErrorResponse_def Let_def makeErrorResponse_def) (simp add: error_info_js_def wire_info_def)
  with makeErrorResponse_guard [OF wire_info_ok [OF ok]] getResponseErrorInfo_make [OF wire_info_ok [OF ok]]
    commandErrorToStatus_make [OF wire_info_ok [OF ok]]
  show ?thesis by (simp add: Let_def command_reply_def) (simp add: wire_info_def)
qed

theorem extension_errors_arrive_witness:
  "hr_status (command_reply (wire (toExtensionErrorResponse (Num (Fin 3)) (newError ''boom'') no_fallback))) = 502"
  using extension_errors_arrive [of no_fallback "Fin 3" "newError ''boom''"]
  by (simp add: no_fallback_def Let_def)
     (simp add: toExtensionErrorInfo_code code_status_def newError_def isExtensionErrorInfo_thrown_def
        isExtensionErrorInfo_def)

end
