(* ===== verification/BackgroundProperties.thy ===== *)
theory BackgroundProperties
  imports ServiceContract RelayReplies
begin

text \<open>
  The connection's invariant along every run of the background process, and the properties of its
  parts: one answer per command, the registry, the popup's requests, switching on and off.
\<close>

section \<open>The invariant is kept\<close>

lemma conn_inv_tables [simp]:
  "conn_inv (s\<lparr>tabsRef := m\<rparr>) = conn_inv s" "conn_inv (s\<lparr>eventsQ := q\<rparr>) = conn_inv s"
  by (rule conn_inv_cong; simp)+

lemma conn_inv_messages: "conn_inv s \<Longrightarrow> messagesQ s = c # q \<Longrightarrow> conn_inv (s\<lparr>messagesQ := q\<rparr>)"
  by (simp add: conn_inv_def)

text \<open>The connection's invariant meets the contract of the services, for every browser that keeps it.\<close>

interpretation conn_services: service_contract br "\<lambda>s. polite br conn_inv \<longrightarrow> conn_inv s"
    "\<lambda>_. True" "\<lambda>_. True" "\<lambda>_. True" "\<lambda>_. True" "\<lambda>_. True" for br
proof unfold_locales
  have keeps: "keeps (\<lambda>s. polite br conn_inv \<longrightarrow> conn_inv s) m" if "polite br conn_inv \<Longrightarrow> keeps conn_inv m" for m :: "'a ext_eff"
    using that by (cases "polite br conn_inv") (simp_all add: keeps_def)
  show "polite br (\<lambda>s. polite br conn_inv \<longrightarrow> conn_inv s)"
    by (cases "polite br conn_inv") (simp_all, simp add: polite_def)
  show "keeps (\<lambda>s. polite br conn_inv \<longrightarrow> conn_inv s) (state_get br)"
    by (rule keepsI) (use conn_inv_state_get [of br] in \<open>auto simp: keeps_def\<close>)
  show "keeps (\<lambda>s. polite br conn_inv \<longrightarrow> conn_inv s) (state_set br st)" for st
    by (rule keepsI) (use keeps_state_get(2) [of br conn_inv] in \<open>auto simp: keeps_def\<close>)
qed (auto simp: conn_inv_step intro: conn_inv_messages)

lemma bg_step_inv: "polite br conn_inv \<Longrightarrow> conn_inv s \<Longrightarrow> conn_inv (bg_step br e s)"
  using conn_services.kept_bg_step [of br s e] by (simp add: ok_event_def split: bg_event.split)

interpretation bg_machine: machine "bg_step br" "\<lambda>s. \<exists>st0. s = ext_init st0"
    "\<lambda>s. polite br conn_inv \<longrightarrow> conn_inv s" for br
  by unfold_locales (auto simp: conn_inv_init bg_step_inv)

definition bg_run :: "browser \<Rightarrow> (string, js) jmap \<Rightarrow> bg_event list \<Rightarrow> ext" where
  "bg_run br st0 evs = run_events (bg_step br) evs (ext_init st0)"

lemma bg_run_inv: "polite br conn_inv \<Longrightarrow> conn_inv (bg_run br st0 evs)"
  using bg_machine.inv_reachable [of "ext_init st0" br evs] by (auto simp: bg_run_def)


section \<open>Commands\<close>

lemma handler_answers:
  assumes "command_result br c s = (x, s')" "response_of (cmd_id c) x = Some r"
    and "cmd_id c = Num i" "isFinite i"
  shows "(\<exists>s''. handleMessage br c s = (Success (), s'')
        \<and> sent_messages s'' = sent_messages s' @ (if can_send br s' then [r] else []))
    \<and> isExtensionResponseMessage (wire r) \<and> js_get (wire r) ''id'' = Num i"
proof -
  let ?m = "eff_catch (eff_map (success_response (cmd_id c)) (command_result br c))
      (\<lambda>error. eff_succeed (toExtensionErrorResponse (cmd_id c) error no_fallback))"
  have m: "?m s = (Success r, s')" by (simp add: handleMessage_inner [OF assms(1)] assms(2))
  have "\<exists>s''. handleMessage br c s = (Success (), s'')
        \<and> sent_messages s'' = sent_messages s' @ (if can_send br s' then [r] else [])"
    unfolding handleMessage_def
    using conn.reply_once [of ?m s r s' br, OF m] conn.reply_lost [of ?m s r s' br, OF m]
    by (cases "can_send br s'") auto
  moreover have "isExtensionResponseMessage (wire r) \<and> js_get (wire r) ''id'' = Num i"
  proof (cases x)
    case (Success v)
    with assms show ?thesis
      by (auto simp: success_response_def isExtensionResponseMessage_iff)
  next
    case (Failure e)
    have ok: "error_info_ok (toExtensionErrorInfo e no_fallback)"
      by (rule toExtensionErrorInfo_ok) (simp add: no_fallback_def)
    have "wire r = makeErrorResponse i (wire_info (toExtensionErrorInfo e no_fallback))"
      using Failure assms wire_error_info [OF ok]
      by (simp add: toExtensionErrorResponse_def Let_def makeErrorResponse_def) (auto simp: wire_info_def error_info_js_def)
    with makeErrorResponse_guard [OF wire_info_ok [OF ok]] show ?thesis by simp
  next
    case (Defect e)
    with assms(2) show ?thesis by simp
  qed
  ultimately show ?thesis by blast
qed


definition demo_command :: ext_command where
  "demo_command = \<lparr>cmd_id = Num (Fin 3), cmd_method = ''tab'', cmd_params_method = ''tab.countTabs'',
     cmd_params_params = Undefined, cmd_params_targetId = None\<rparr>"

lemma demo_command_result:
  "command_result quiet_browser demo_command s = (Success (Num (num_of_nat 1)), s)"
  by (simp add: command_result_def demo_command_def tab_handleCommand_def countOpenTabs_def quiet_browser_def
      eff_mapError_def eff_map_def eff_catch_run eff_bind_run eff_call_run)


text \<open>
  The one exception: a command whose handler dies instead of failing. A created tab that comes
  back without an id is thrown inside the handler's generator, a defect that the conversion to an
  error response does not see, so no message goes out and the handler itself dies.
\<close>
theorem defect_sends_no_answer:
  assumes "cmd_method c = ''tab''" "cmd_params_method c = ''tab.createTab''"
    "js_get (cmd_params_params c) ''url'' = Str url" "url \<noteq> []"
    and tab: "tabs_create br (Obj [(''url'', Str url), (''active'', Bool False)]) (perform (CallCreate url) s) = (Inr tab, s')"
      "is_object tab" "\<not> is_num (js_get tab ''id'')"
  shows "handleMessage br c s = (Defect (newError ''Created tab has no id''), s')"
proof -
  have "command_result br c s = (Defect (newError ''Created tab has no id''), s')"
    using assms by (auto simp: command_result_def tab_handleCommand_def createTab_def calling_run eff_bind_run
        eff_mapError_def eff_catch_run)
  from handleMessage_inner [OF this] show ?thesis by (simp add: handleMessage_def)
qed

theorem defect_sends_no_answer_witness:
  "handleMessage (quiet_browser\<lparr>tabs_create := (\<lambda>_. Pair (Inr (Obj [])))\<rparr>) \<lparr>cmd_id = Num (Fin 3), cmd_method = ''tab'',
     cmd_params_method = ''tab.createTab'', cmd_params_params = Obj [(''url'', Str ''u'')], cmd_params_targetId = None\<rparr> (ext_init [])
   = (Defect (newError ''Created tab has no id''), perform (CallCreate ''u'') (ext_init []))"
  by (rule defect_sends_no_answer [where tab = "Obj []"]) simp_all

end
