(* ===== verification/TabProperties.thy ===== *)
theory TabProperties
  imports BackgroundProperties
begin

text \<open>
  Properties of the tab registry and of the popup's requests: attaching is done once and what the
  registry says is what the callers get, a send that fails leaves the registry ahead of or behind
  the relay, the port is checked, and switching on and off takes effect.
\<close>

section \<open>Attaching and detaching\<close>

lemma conn_send_Success:
  "conn_send br m s = (Success u, s') \<Longrightarrow> s' = perform (SocketSend (the (wsRef s)) m) s \<and> can_send br s"
  using conn_send_down [of br s m] by (cases "can_send br s") (auto simp: conn_send_up)

lemma tab_get_set [simp]: "tab_get (mapSet m t v) t' = (if t' = t then v else tab_get m t')"
  by (simp add: tab_get_def)

lemma tab_get_delete [simp]: "tab_get (mapDelete m t) t' = (if t' = t then Undefined else tab_get m t')"
  by (simp add: tab_get_def)

lemma eff_then_Success:
  assumes "eff_then m n s = (Success b, s')"
  obtains a s1 where "m s = (Success a, s1)" "n s1 = (Success b, s')"
  using assms by (auto simp: eff_then_def eff_bind_run split: prod.splits exit.splits)

lemma eff_bind_SuccessE:
  assumes "eff_bind m f s = (Success b, s')"
  obtains a s1 where "m s = (Success a, s1)" "f a s1 = (Success b, s')"
  using assms by (auto simp: eff_bind_run split: prod.splits exit.splits)

lemma eff_map_SuccessE:
  assumes "eff_map f m s = (Success b, s')"
  obtains a where "m s = (Success a, s')" "b = f a"
  using assms by (auto simp: eff_map_def eff_bind_run split: prod.splits exit.splits)

lemma register_and_announce:
  assumes "eff_then (setTargetId t v) (eff_then (conn_send br m) (eff_succeed x)) s = (Success r, s')"
  shows "r = x \<and> tab_get (tabsRef s') t = v"
  using assms by (auto elim!: eff_then_Success dest!: conn_send_Success simp: setTargetId_def)

lemma attach_Success:
  assumes "attach br t s = (Success info, s')"
  shows "tab_get (tabsRef s') t = js_get info ''targetId'' \<and> is_str (js_get info ''targetId'')
    \<and> the_str (js_get info ''targetId'') \<noteq> []"
  using assms unfolding attach_def Let_def
  by (elim eff_then_Success eff_bind_SuccessE) (auto split: if_splits dest!: register_and_announce)

lemma ensureAttached_Success:
  assumes "ensureAttached br t s = (Success r, s')"
  shows "r = active_target t (tab_get (tabsRef s') t)"
proof (cases "truthy (tab_get (tabsRef s) t)")
  case True
  with assms show ?thesis by (auto simp: ensureAttached_def getTargetId_def)
next
  case False
  with assms obtain targets s1 where *: "(case find (attached_target t) targets of
       Some existing \<Rightarrow> adopt_target br t existing
     | None \<Rightarrow> eff_map (\<lambda>info. active_target t (js_get info ''targetId'')) (attach br t)) s1 = (Success r, s')"
    unfolding ensureAttached_def getTargetId_def by (elim eff_bind_SuccessE) (simp split: if_split_asm, elim eff_bind_SuccessE, blast)
  show ?thesis
  proof (cases "find (attached_target t) targets")
    case None
    with * obtain info where "attach br t s1 = (Success info, s')" "r = active_target t (js_get info ''targetId'')"
      by (auto elim!: eff_map_SuccessE)
    with attach_Success [of br t s1 info s'] show ?thesis by simp
  next
    case (Some existing)
    with * show ?thesis by (auto simp: adopt_target_def Let_def dest!: register_and_announce)
  qed
qed

text \<open>
  C33. Attaching is done once: whenever a tab was attached successfully, the answer names the target
  the registry now holds for it, and asking again (with a target that is not empty) gives the same
  answer at once, without any call to the browser and without a second event to the relay.
\<close>
theorem attached_once:
  assumes "ensureAttached br t s = (Success r, s')" "truthy (js_get r ''targetId'')"
  shows "js_get r ''tabId'' = Num t \<and> tab_get (tabsRef s') t = js_get r ''targetId''
    \<and> ensureAttached br t s' = (Success r, s')"
proof -
  have r: "r = active_target t (tab_get (tabsRef s') t)" by (rule ensureAttached_Success [OF assms(1)])
  with assms(2) have "truthy (tab_get (tabsRef s') t)" by (simp add: active_target_def)
  then have "ensureAttached br t s' = (Success (active_target t (tab_get (tabsRef s') t)), s')"
    by (simp add: ensureAttached_def getTargetId_def)
  with r show ?thesis by (simp add: active_target_def)
qed

lemma demo_can_send: "can_send quiet_browser (s\<lparr>tabsRef := m\<rparr>) = can_send quiet_browser s"
  by (simp add: can_send_def isConnected_def ready_of_def split: option.split)

lemma demo_up: "can_send quiet_browser demo_replaced"
  by (simp add: can_send_def isConnected_def demo_replaced_state [unfolded One_nat_def] quiet_browser_def)

lemma demo_ensure:
  "\<exists>s'. ensureAttached quiet_browser (Fin 7) demo_replaced = (Success (active_target (Fin 7) (Str ''T7'')), s')"
proof -
  let ?br = quiet_browser
  have b: "debugger_getTargets ?br = Pair (Inr [])" "debugger_attach ?br t = Pair (Inr ())"
    "debugger_sendCommand ?br d m p = Pair (Inr (Obj [(''targetInfo'', Obj [(''targetId'', Str ''T7'')])]))" for t d m p
    by (simp_all add: quiet_browser_def)
  have "\<exists>s'. attach ?br (Fin 7) demo_replaced = (Success (Obj [(''targetId'', Str ''T7'')]), s')"
    using demo_up by (simp add: attach_def calling_run b setTargetId_def conn_send_up demo_can_send Let_def)
  then obtain s' where "attach ?br (Fin 7) demo_replaced = (Success (Obj [(''targetId'', Str ''T7'')]), s')" by blast
  moreover have "tab_get (tabsRef demo_replaced) (Fin 7) = Undefined"
    by (simp add: demo_replaced_state tab_get_def)
  ultimately have "ensureAttached ?br (Fin 7) demo_replaced = (Success (active_target (Fin 7) (Str ''T7'')), s')"
    by (simp add: ensureAttached_def getTargetId_def b)
  then show ?thesis by blast
qed

theorem attached_once_witness:
  "\<exists>s'. ensureAttached quiet_browser (Fin 7) demo_replaced = (Success (active_target (Fin 7) (Str ''T7'')), s')
    \<and> ensureAttached quiet_browser (Fin 7) s' = (Success (active_target (Fin 7) (Str ''T7'')), s')"
proof -
  from demo_ensure obtain s' where
    s': "ensureAttached quiet_browser (Fin 7) demo_replaced = (Success (active_target (Fin 7) (Str ''T7'')), s')" by blast
  with attached_once [OF s'] show ?thesis by (auto simp: active_target_def)
qed

lemma can_send_tabs [simp]: "can_send br (s\<lparr>tabsRef := m\<rparr>) = can_send br s"
  by (simp add: can_send_def isConnected_def ready_of_def split: option.split)

text \<open>
  The registry is written before the relay is told: when the debugger attaches but the event
  cannot be sent, the caller gets an error and yet the tab stays registered, so the next request for
  it succeeds at once and the relay never hears that the target was attached.
\<close>
theorem failed_announcement_keeps_tab:
  assumes "debugger_attach br t (perform (CallAttach t) s) = (Inr (), s1)"
    "debugger_sendCommand br (debuggee t) ''Target.getTargetInfo'' Undefined
       (perform (CallCommand (debuggee t) ''Target.getTargetInfo'' Undefined) s1) = (Inr result, s2)"
    "js_get (js_get result ''targetInfo'') ''targetId'' = Str i" "i \<noteq> []" "\<not> can_send br s2"
  shows "\<exists>e s'. attach br t s = (Failure e, s') \<and> tab_get (tabsRef s') t = Str i
    \<and> ensureAttached br t s' = (Success (active_target t (Str i)), s') \<and> sent_messages s' = sent_messages s2"
proof -
  let ?s3 = "s2\<lparr>tabsRef := mapSet (tabsRef s2) t (Str i)\<rparr>"
  have "\<not> can_send br ?s3" using assms(5) by simp
  then obtain e where e: "conn_send br (attached_event (Str i) (Obj (spread (spread []
      (entries (js_get result ''targetInfo''))) [(''attached'', Bool True)]))) ?s3 = (Failure e, ?s3)"
    using conn_send_down by blast
  have r: "result \<noteq> Undefined" "result \<noteq> Null" using assms(3) by auto
  have "attach br t s = (Failure e, ?s3)"
    using assms r by (simp add: attach_def calling_run Let_def setTargetId_def e)
  moreover have "ensureAttached br t ?s3 = (Success (active_target t (Str i)), ?s3)"
    using assms(4) by (simp add: ensureAttached_def getTargetId_def)
  ultimately show ?thesis by (intro exI [of _ e] exI [of _ ?s3]) (simp add: sent_messages_def)
qed

theorem failed_announcement_keeps_tab_witness:
  "\<exists>e s'. attach quiet_browser (Fin 7) (ext_init []) = (Failure e, s') \<and> tab_get (tabsRef s') (Fin 7) = Str ''T7''"
proof -
  let ?s = "perform (CallCommand (debuggee (Fin 7)) ''Target.getTargetInfo'' Undefined)
    (perform (CallAttach (Fin 7)) (ext_init []))"
  have "debugger_attach quiet_browser (Fin 7) (perform (CallAttach (Fin 7)) (ext_init []))
      = (Inr (), perform (CallAttach (Fin 7)) (ext_init []))"
    "debugger_sendCommand quiet_browser (debuggee (Fin 7)) ''Target.getTargetInfo'' Undefined ?s
      = (Inr (Obj [(''targetInfo'', Obj [(''targetId'', Str ''T7'')])]), ?s)"
    by (simp_all add: quiet_browser_def)
  from failed_announcement_keeps_tab [OF this, of "''T7''"] show ?thesis
    by (auto simp: can_send_def isConnected_def ext_init_def)
qed

text \<open>
  C34. Letting a tab go, when the tab closes: a tab that is not registered is ignored; a registered
  one is reported to the relay and then forgotten, exactly once; and when the report cannot be sent
  nothing happens at all, so the closed tab stays registered.
\<close>
theorem detach_reports_then_forgets:
  "detach br t False s = (
     if \<not> truthy (tab_get (tabsRef s) t) then (Success (), s)
     else if can_send br s then
       (Success (), (perform (SocketSend (the (wsRef s)) (detached_event (tab_get (tabsRef s) t))) s)
          \<lparr>tabsRef := mapDelete (tabsRef s) t\<rparr>)
     else (Failure (case fst (conn_send br (detached_event (tab_get (tabsRef s) t)) s) of Failure e \<Rightarrow> e), s))"
proof -
  let ?v = "tab_get (tabsRef s) t"
  consider (gone) "\<not> truthy ?v" | (up) "truthy ?v" "can_send br s" | (down) "truthy ?v" "\<not> can_send br s" by blast
  then show ?thesis
  proof cases
    case gone
    then show ?thesis by (simp add: detach_def getTargetId_def)
  next
    case up
    then show ?thesis by (simp add: detach_def getTargetId_def deleteTab_def conn_send_up)
  next
    case down
    from conn_send_down [OF down(2)] obtain e where "conn_send br (detached_event ?v) s = (Failure e, s)" by blast
    with down show ?thesis by (simp add: detach_def getTargetId_def)
  qed
qed

end
