(* ===== verification/StoredState.thy ===== *)
theory StoredState
  imports TabProperties
begin

text \<open>
  The type of the stored state along every run of the background process, and the popup's requests as
  the background answers them: the port that is stored, refusals, switching on and off.
\<close>

section \<open>A well-typed storage\<close>

definition port_valid :: "js \<Rightarrow> bool" where
  "port_valid v \<longleftrightarrow> is_num v \<and> isInteger (the_num v) \<and> \<not> the_num v < Fin 1 \<and> \<not> the_num v > Fin 65535"

definition state_typed :: "active_state \<Rightarrow> bool" where
  "state_typed st \<longleftrightarrow> is_bool (st_isActive st) \<and> port_valid (st_port st)"

text \<open>An entry of this or an older version: a flag, and a port that is valid if there is one.\<close>

definition entry_typed :: "js \<Rightarrow> bool" where
  "entry_typed v \<longleftrightarrow> (truthy v \<longrightarrow> is_bool (js_get v ''isActive'')
     \<and> (is_num (js_get v ''port'') \<longrightarrow> port_valid (js_get v ''port'')))"

definition storage_typed :: "ext \<Rightarrow> bool" where
  "storage_typed s \<longleftrightarrow> entry_typed (stored STORAGE_KEY s) \<and> entry_typed (stored LEGACY_STORAGE_KEY s)"

lemma port_valid_default: "port_valid (Num DEFAULT_PORT)"
  by (simp add: port_valid_def DEFAULT_PORT_def is_num_def the_num_def)

lemma storage_typed_cong: "storageLocal s' = storageLocal s \<Longrightarrow> storage_typed s' = storage_typed s"
  by (simp add: storage_typed_def stored_def)

lemma storage_typed_perform [simp]: "storage_typed (perform e s) = storage_typed s"
  by (rule storage_typed_cong) simp

lemma entry_typed_state: "state_typed st \<Longrightarrow> entry_typed (active_state_js st)"
  by (simp add: entry_typed_def state_typed_def)

lemma keeps_typed_set:
  "polite br storage_typed \<Longrightarrow> state_typed st \<Longrightarrow> keeps storage_typed (storage_set br STORAGE_KEY (active_state_js st))"
  unfolding storage_set_def
  by (intro keeps_then keeps_calling keeps_modify) (auto simp: polite_calls, auto simp: storage_typed_def entry_typed_state)

lemma keeps_typed_remove: "polite br storage_typed \<Longrightarrow> keeps storage_typed (storage_remove br LEGACY_STORAGE_KEY)"
  unfolding storage_remove_def
  by (intro keeps_then keeps_calling keeps_modify) (auto simp: polite_calls, auto simp: storage_typed_def entry_typed_def)

text \<open>The state a read works on, once the storage has answered.\<close>

definition state_read :: "browser \<Rightarrow> js \<Rightarrow> js \<Rightarrow> active_state ext_eff" where
  "state_read br state legacyState = (
        if truthy state then
          if is_num (js_get state ''port'') then eff_succeed (active_state_of_js state)
          else
            let migratedState = \<lparr>st_isActive = js_get state ''isActive'', st_port = Num DEFAULT_PORT\<rparr>
            in eff_then (storage_set br STORAGE_KEY (active_state_js migratedState)) (eff_succeed migratedState)
        else if truthy legacyState then
          let migratedState = \<lparr>st_isActive = js_get legacyState ''isActive'',
                st_port = (if is_num (js_get legacyState ''port'') then js_get legacyState ''port''
                           else Num DEFAULT_PORT)\<rparr>
          in eff_then (storage_set br STORAGE_KEY (active_state_js migratedState))
               (eff_then (storage_remove br LEGACY_STORAGE_KEY) (eff_succeed migratedState))
        else eff_succeed \<lparr>st_isActive = Bool False, st_port = Num DEFAULT_PORT\<rparr>)"

lemma state_get_read: "state_get br = eff_mapError (unknownException br) (eff_bind (eff_call (storage_call br)) (\<lambda>_.
    eff_bind (eff_gets (\<lambda>s. (stored STORAGE_KEY s, stored LEGACY_STORAGE_KEY s))) (\<lambda>(state, legacyState). state_read br state legacyState)))"
  by (simp add: state_get_def state_read_def)

definition read_typed :: "('e, active_state) exit \<Rightarrow> bool" where
  "read_typed x \<longleftrightarrow> (case x of Success st \<Rightarrow> state_typed st | _ \<Rightarrow> True)"

text \<open>A program that keeps the storage typed and whose result, if it has one, is typed.\<close>

definition typed_program :: "active_state ext_eff \<Rightarrow> bool" where
  "typed_program m \<longleftrightarrow> (\<forall>s. storage_typed s \<longrightarrow> storage_typed (snd (m s)) \<and> read_typed (fst (m s)))"

lemma typed_succeed: "state_typed st \<Longrightarrow> typed_program (eff_succeed st)"
  by (simp add: typed_program_def read_typed_def)

lemma typed_then: "keeps storage_typed m \<Longrightarrow> typed_program n \<Longrightarrow> typed_program (eff_then m n)"
  by (auto simp: typed_program_def keeps_def eff_then_def eff_bind_def read_typed_def split: prod.split exit.split)

lemma typed_state_read:
  assumes "polite br storage_typed" "entry_typed state" "entry_typed legacyState"
  shows "typed_program (state_read br state legacyState)"
proof -
  have 1: "state_typed (active_state_of_js state)" if "truthy state" "is_num (js_get state ''port'')"
    using that assms(2) by (simp add: state_typed_def active_state_of_js_def entry_typed_def)
  have 2: "state_typed \<lparr>st_isActive = js_get state ''isActive'', st_port = Num DEFAULT_PORT\<rparr>" if "truthy state"
    using that assms(2) port_valid_default by (simp add: state_typed_def entry_typed_def)
  have 3: "state_typed \<lparr>st_isActive = js_get legacyState ''isActive'', st_port = (if is_num (js_get legacyState ''port'')
      then js_get legacyState ''port'' else Num DEFAULT_PORT)\<rparr>" if "truthy legacyState"
    using that assms(3) port_valid_default by (simp add: state_typed_def entry_typed_def)
  have 4: "state_typed \<lparr>st_isActive = Bool False, st_port = Num DEFAULT_PORT\<rparr>"
    using port_valid_default by (simp add: state_typed_def is_bool_def)
  show ?thesis
    using 1 2 3 4 keeps_typed_remove [OF assms(1)] keeps_typed_set [OF assms(1)]
    by (auto simp: state_read_def Let_def intro!: typed_succeed typed_then)
qed

lemma typed_state_get: "polite br storage_typed \<Longrightarrow> typed_program (state_get br)"
  unfolding typed_program_def
proof (intro allI impI)
  fix s
  assume pol: "polite br storage_typed" and s: "storage_typed s"
  obtain r s1 where c: "storage_call br s = (r, s1)" by fastforce
  have s1: "storage_typed s1" using polite_calls(1) [OF pol s] by (simp add: c)
  show "storage_typed (snd (state_get br s)) \<and> read_typed (fst (state_get br s))"
  proof (cases r)
    case (Inl e)
    then show ?thesis using c s1
      by (simp add: state_get_read eff_mapError_def eff_catch_run eff_bind_run eff_call_run read_typed_def)
  next
    case (Inr u)
    have "typed_program (state_read br (stored STORAGE_KEY s1) (stored LEGACY_STORAGE_KEY s1))"
      using s1 by (intro typed_state_read pol) (simp_all add: storage_typed_def)
    with s1 Inr c show ?thesis
      by (auto simp: typed_program_def state_get_read eff_mapError_def eff_catch_run eff_bind_run eff_call_run read_typed_def
          split: prod.split exit.split)
  qed
qed


section \<open>The connection leaves the storage alone\<close>

lemma attempt_storage [simp]:
  "storageLocal (attempt_failed e s) = storageLocal s" "storageLocal (resume_failure w i s) = storageLocal s"
  "storageLocal (resume_open w s) = storageLocal s" "storageLocal (open_attempt br st s) = storageLocal s"
  "storageLocal (closeSocket s) = storageLocal s" "storageLocal (snd (rawSend br w m s)) = storageLocal s"
  by (auto simp: attempt_failed_def resume_failure_def resume_open_def open_attempt_def closeSocket_def rawSend_def Let_def
      split: option.split)

lemma handlers_storage:
  "storageLocal (on_open w s) = storageLocal s" "storageLocal (on_error w s) = storageLocal s"
  "storageLocal (on_timeout w s) = storageLocal s" "storageLocal (on_close w c r s) = storageLocal s"
  "storageLocal (on_message br w dat s) = storageLocal s"
  by (auto simp: on_open_def on_error_def on_timeout_def on_close_def on_message_def Let_def
      split: option.split handlers.split sum.split)

lemma typed_loop: "polite br storage_typed \<Longrightarrow> storage_typed s \<Longrightarrow> storage_typed (maintainLoop br s)"
proof -
  assume "polite br storage_typed" "storage_typed s"
  from typed_state_get [OF this(1)] this(2) have "storage_typed (snd (state_get br s))"
    by (simp add: typed_program_def)
  then have read: "state_get br s = (x, t) \<Longrightarrow> storage_typed t" for x t by simp
  have same: "storage_typed (open_attempt br st t) = storage_typed t" "storage_typed (attempt_failed e t) = storage_typed t"
    "storage_typed (goto f t) = storage_typed t" for st t e f
    by (rule storage_typed_cong; simp)+
  show ?thesis
    using \<open>storage_typed s\<close> read
    by (auto simp: maintainLoop_def same split: option.split fiber.split exit.split prod.split)
qed

lemma switches_storage: "storageLocal (startMaintaining s) = storageLocal s" "storageLocal (disconnect s) = storageLocal s"
  by (simp_all add: startMaintaining_def disconnect_def Let_def split: option.split)

lemma typed_conn_step: "polite br storage_typed \<Longrightarrow> storage_typed s \<Longrightarrow> storage_typed (conn_step br i s)"
proof (cases "i = FiberRuns")
  case True
  assume "polite br storage_typed" "storage_typed s"
  with True show ?thesis by (simp add: typed_loop)
next
  case False
  assume "storage_typed s"
  moreover from False have "storageLocal (conn_step br i s) = storageLocal s"
    by (cases i) (simp_all add: handlers_storage switches_storage)
  ultimately show ?thesis by (simp add: storage_typed_def stored_def)
qed

lemma port_valid_nat: "port_valid (Num p) \<Longrightarrow> \<exists>n \<in> {1..65535}. p = num_of_nat n"
proof -
  assume v: "port_valid (Num p)"
  then obtain r where p: "p = Fin r" by (cases p) (auto simp: port_valid_def is_num_def the_num_def)
  with v have r: "of_int \<lfloor>r\<rfloor> = r" "1 \<le> r" "r \<le> 65535"
    by (auto simp: port_valid_def is_num_def the_num_def not_less)
  then have "1 \<le> \<lfloor>r\<rfloor>" "\<lfloor>r\<rfloor> \<le> 65535" by (simp_all add: floor_le_iff)
  then have "1 \<le> nat \<lfloor>r\<rfloor>" "nat \<lfloor>r\<rfloor> \<le> 65535" by linarith+
  moreover from \<open>1 \<le> \<lfloor>r\<rfloor>\<close> have "of_nat (nat \<lfloor>r\<rfloor>) = (of_int \<lfloor>r\<rfloor> :: rat)" by (intro of_nat_nat) simp
  ultimately show ?thesis by (intro bexI [of _ "nat \<lfloor>r\<rfloor>"]) (simp_all add: p num_of_nat_def r(1))
qed

lemma state_typed_values:
  "state_typed st \<Longrightarrow> is_bool (st_isActive st) \<and> (\<exists>n \<in> {1..65535}. st_port st = Num (num_of_nat n))"
proof -
  assume st: "state_typed st"
  then obtain p where "st_port st = Num p" by (cases "st_port st") (auto simp: state_typed_def port_valid_def is_num_def)
  with st port_valid_nat [of p] show ?thesis by (simp add: state_typed_def)
qed


section \<open>Every run keeps the stored state typed\<close>

interpretation typed_services: service_contract br "\<lambda>s. polite br storage_typed \<longrightarrow> storage_typed s"
    "\<lambda>st. polite br storage_typed \<longrightarrow> state_typed st" is_bool "\<lambda>_. True" "\<lambda>_. True" "\<lambda>_. True" for br
proof unfold_locales
  fix st s s' v n i
  have keeps: "keeps (\<lambda>s. polite br storage_typed \<longrightarrow> storage_typed s) m"
    if "polite br storage_typed \<Longrightarrow> keeps storage_typed m" for m :: "'a ext_eff"
    using that by (cases "polite br storage_typed") (simp_all add: keeps_def)
  show "polite br (\<lambda>s. polite br storage_typed \<longrightarrow> storage_typed s)"
    by (cases "polite br storage_typed") (simp_all, simp add: polite_def)
  show "keeps (\<lambda>s. polite br storage_typed \<longrightarrow> storage_typed s) (state_get br)"
    by (rule keepsI) (use typed_state_get [of br] in \<open>auto simp: typed_program_def\<close>)
  show "polite br storage_typed \<longrightarrow> state_typed st"
    if "polite br storage_typed \<longrightarrow> storage_typed s" "state_get br s = (Success st, s')"
    using that typed_state_get [of br] by (auto simp: typed_program_def read_typed_def dest!: spec [of _ s])
  show "keeps (\<lambda>s. polite br storage_typed \<longrightarrow> storage_typed s) (state_set br st)"
    if "polite br storage_typed \<longrightarrow> state_typed st"
    by (rule keepsI, rule impI)
      (use that keeps_mapError [OF keeps_typed_set, of br st] in \<open>auto simp: state_set_def keeps_def\<close>)
  show "polite br storage_typed \<longrightarrow> state_typed \<lparr>st_isActive = v, st_port = st_port st\<rparr>"
    if "polite br storage_typed \<longrightarrow> state_typed st" "is_bool v"
    using that by (simp add: state_typed_def)
  show "polite br storage_typed \<longrightarrow> state_typed \<lparr>st_isActive = st_isActive st, st_port = Num n\<rparr>"
    if "polite br storage_typed \<longrightarrow> state_typed st" "isInteger n" "\<not> n < Fin 1" "\<not> Fin 65535 < n"
    using that by (simp add: state_typed_def port_valid_def is_num_def the_num_def)
qed (simp_all add: typed_conn_step, simp_all add: storage_typed_def stored_def)

text \<open>
  C14. The stored state keeps its type: from a storage whose entries have boolean flags and valid
  ports (or none), whatever relay, browser, popup and service worker do, as long as the popup's
  requests carry boolean flags, every read gives a boolean flag and a port that is an integer
  between 1 and 65535, so the address the loop connects to is always well formed.
\<close>
theorem stored_state_typed:
  assumes "polite br storage_typed" "storage_typed (ext_init st0)" "list_all (ok_event is_bool) evs"
    and "state_get br (bg_run br st0 evs) = (Success st, s')"
  shows "is_bool (st_isActive st) \<and> (\<exists>n \<in> {1..65535}. st_port st = Num (num_of_nat n))"
proof -
  have "storage_typed (bg_run br st0 evs)"
    using typed_services.kept_run [of br "ext_init st0" evs] assms by (simp add: bg_run_def)
  with typed_state_get [OF assms(1)] assms(4) have "state_typed st"
    by (fastforce simp: typed_program_def read_typed_def)
  then show ?thesis by (rule state_typed_values)
qed

theorem stored_state_typed_witness:
  "\<exists>st s'. state_get quiet_browser (bg_run quiet_browser [(LEGACY_STORAGE_KEY, Obj [(''isActive'', Bool True)])]
       [WorkerStarts, PopupMessage (Obj [(''type'', Str ''setState''), (''isActive'', Bool False)])]) = (Success st, s')
     \<and> is_bool (st_isActive st) \<and> (\<exists>n \<in> {1..65535}. st_port st = Num (num_of_nat n))"
proof -
  let ?st0 = "[(LEGACY_STORAGE_KEY, Obj [(''isActive'', Bool True)])]"
  let ?evs = "[WorkerStarts, PopupMessage (Obj [(''type'', Str ''setState''), (''isActive'', Bool False)])]"
  have "storage_typed (ext_init ?st0)" "list_all (ok_event is_bool) ?evs"
    by (simp_all add: storage_typed_def entry_typed_def stored_def ext_init_def mapGet_def is_num_def ok_event_def is_bool_def)
  note typed = stored_state_typed [OF quiet_polite this]
  obtain st s' where run: "state_get quiet_browser (bg_run quiet_browser ?st0 ?evs) = (Success st, s')"
    by (rule state_get_total [OF quiet_storage])
  show ?thesis by (intro exI conjI) (rule run, rule typed [OF run, THEN conjunct1], rule typed [OF run, THEN conjunct2])
qed


section \<open>What the popup may change\<close>

lemma migrated_current:
  "stored STORAGE_KEY s = active_state_js st \<Longrightarrow> is_num (st_port st) \<Longrightarrow> migrated s = st"
  by (simp add: migrated_def)

lemma isConnected_same:
  assumes "wsRef s' = wsRef s" "sockets s' = sockets s"
  shows "isConnected s' = isConnected s"
proof -
  have "ready_of s' = ready_of s" by (rule ext) (simp add: ready_of_def assms)
  then show ?thesis by (simp add: isConnected_def assms split: option.split)
qed

text \<open>A read does not change what the next read gives.\<close>

lemma state_get_stable:
  assumes "storage_ok br"
  obtains s' where "state_get br s = (Success (migrated s), s')" "migrated s' = migrated s" "isConnected s' = isConnected s"
proof -
  obtain s' where s': "state_get br s = (Success (migrated s), s')"
    "stored STORAGE_KEY s' = active_state_js (migrated s) \<or> s' = s" "wsRef s' = wsRef s" "sockets s' = sockets s"
    using state_get_total [OF assms, of s] by metis
  moreover from s'(2) have "migrated s' = migrated s" by (auto simp: migrated_current migrated_num)
  moreover from s'(3,4) have "isConnected s' = isConnected s" by (rule isConnected_same)
  ultimately show ?thesis using that by blast
qed

definition reply_of_state :: "ext \<Rightarrow> active_state \<Rightarrow> state_response" where
  "reply_of_state s st = \<lparr>sr_isActive = st_isActive st, sr_isConnected = isConnected s, sr_port = st_port st,
     sr_error = None, sr_errorInfo = None\<rparr>"

lemma readStateResponse_run:
  assumes "storage_ok br"
  obtains s' where "readStateResponse br s = (Success (reply_of_state s (migrated s)), s')"
    "migrated s' = migrated s" "isConnected s' = isConnected s"
proof -
  obtain s' where "state_get br s = (Success (migrated s), s')" "migrated s' = migrated s" "isConnected s' = isConnected s"
    using state_get_stable [OF assms, of s] by metis
  then show ?thesis
    by (intro that [of s']) (simp_all add: readStateResponse_def checkConnection_def reply_of_state_def)
qed

text \<open>A request that fails is answered with the state as it is and the error.\<close>

lemma runStateRequest_failed:
  assumes "storage_ok br" "effect s = (Failure e, t)"
  obtains s' where "runStateRequest br effect s
      = (stateResponseWithError (fiberFailure br e) (Some (reply_of_state t (migrated t))), s')"
    "migrated s' = migrated t" "isConnected s' = isConnected t"
proof -
  obtain s' where "readStateResponse br t = (Success (reply_of_state t (migrated t)), s')" "migrated s' = migrated t"
      "isConnected s' = isConnected t"
    using readStateResponse_run [OF assms(1), of t] by metis
  then show ?thesis by (intro that [of s']) (simp_all add: runStateRequest_def assms(2) sendStateErrorResponse_def)
qed

lemma reply_with_error [simp]:
  "map_option ei_code (sr_errorInfo (stateResponseWithError e (Some r))) = Some ''BACKGROUND_MESSAGE_FAILED''"
  "sr_error (stateResponseWithError e (Some r)) = Some (errorToMessage e)"
  "sr_isActive (stateResponseWithError e (Some r)) = sr_isActive r"
  "sr_isConnected (stateResponseWithError e (Some r)) = sr_isConnected r"
  "sr_port (stateResponseWithError e (Some r)) = sr_port r"
  by (simp_all add: stateResponseWithError_def Let_def toExtensionErrorInfo_code toExtensionErrorInfo_message no_fallback_def)

text \<open>
  A port is taken when it may be taken: while the extension is off, a request of the popup with
  an integer between 1 and 65535 is stored with the flag unchanged and confirmed without error; any
  other value, and any value while the extension is on, leaves the stored state and is answered with
  that state and an error.
\<close>
theorem port_request:
  assumes "storage_ok br" "on_popup_message br (Obj [(''type'', Str ''setPort''), (''port'', v)]) s = (Some r, s')"
  shows "(if port_valid v \<and> \<not> truthy (st_isActive (migrated s))
      then migrated s' = \<lparr>st_isActive = st_isActive (migrated s), st_port = v\<rparr> \<and> sr_error r = None
      else migrated s' = migrated s \<and> sr_error r \<noteq> None)
    \<and> sr_isActive r = st_isActive (migrated s) \<and> sr_port r = st_port (migrated s')
    \<and> sr_isConnected r = isConnected s"
proof -
  obtain t where t: "state_get br s = (Success (migrated s), t)" "migrated t = migrated s" "isConnected t = isConnected s"
    using state_get_stable [OF assms(1), of s] by metis
  from assms(2) have r: "runStateRequest br (set_port br v) s = (r, s')"
    by (cases "runStateRequest br (set_port br v) s") (simp add: on_popup_message_def Let_def)
  show ?thesis
  proof (cases "port_valid v \<and> \<not> truthy (st_isActive (migrated s))")
    case True
    let ?st = "\<lparr>st_isActive = st_isActive (migrated s), st_port = v\<rparr>"
    let ?u = "(perform (StorageSet STORAGE_KEY (active_state_js ?st)) t)
        \<lparr>storageLocal := mapSet (storageLocal t) STORAGE_KEY (active_state_js ?st)\<rparr>"
    have u: "migrated ?u = ?st" using True by (intro migrated_current) (simp_all add: port_valid_def)
    have "isConnected ?u = isConnected t" by (rule isConnected_same) simp_all
    moreover obtain w where w: "readStateResponse br ?u = (Success (reply_of_state ?u (migrated ?u)), w)"
        "migrated w = migrated ?u"
      using readStateResponse_run [OF assms(1), of ?u] by metis
    have "set_port br v s = readStateResponse br ?u"
      using True t(1) by (simp add: set_port_def port_valid_def state_set_run [OF assms(1)])
    ultimately have "r = reply_of_state ?u ?st" "s' = w" using r w(1) u by (simp_all add: runStateRequest_def)
    with \<open>isConnected ?u = isConnected t\<close> show ?thesis using True u w(2) t(3) by (simp add: reply_of_state_def)
  next
    case False
    have "\<exists>e. set_port br v s = (Failure e, t)"
    proof (cases "port_valid v")
      case True
      with False t(1) show ?thesis by (auto simp: set_port_def port_valid_def)
    next
      case False
      then show ?thesis using t(1) by (auto simp: set_port_def port_valid_def)
    qed
    then obtain e where e: "set_port br v s = (Failure e, t)" ..
    obtain w where "runStateRequest br (set_port br v) s
        = (stateResponseWithError (fiberFailure br e) (Some (reply_of_state t (migrated t))), w)" "migrated w = migrated t"
      using runStateRequest_failed [where effect = "set_port br v", OF assms(1) e] by metis
    with r False t show ?thesis by (auto simp: reply_of_state_def)
  qed
qed

theorem port_request_witness:
  "migrated (snd (on_popup_message quiet_browser (Obj [(''type'', Str ''setPort''), (''port'', Num (num_of_nat 80))]) (ext_init [])))
     = \<lparr>st_isActive = Bool False, st_port = Num (num_of_nat 80)\<rparr>"
proof -
  obtain r s' where run: "on_popup_message quiet_browser (Obj [(''type'', Str ''setPort''), (''port'', Num (num_of_nat 80))])
      (ext_init []) = (Some r, s')"
    by (cases "runStateRequest quiet_browser (set_port quiet_browser (Num (num_of_nat 80))) (ext_init [])")
      (simp add: on_popup_message_def Let_def)
  have "port_valid (Num (num_of_nat 80))" by (simp add: port_valid_def is_num_def the_num_def num_of_nat_def)
  moreover have "migrated (ext_init []) = \<lparr>st_isActive = Bool False, st_port = Num DEFAULT_PORT\<rparr>"
    by (simp add: migrated_def stored_def ext_init_def mapGet_def)
  ultimately show ?thesis using port_request [OF quiet_storage run] run by simp
qed

text \<open>
  Every error the popup is shown carries the same code: the fallback code given for unknown errors
  wins over the code the error has, so \<open>INVALID_PORT\<close> and \<open>PORT_CHANGE_WHILE_ACTIVE\<close> never arrive.
\<close>
theorem popup_error_code:
  "map_option ei_code (sr_errorInfo (stateResponseWithError error base)) = Some ''BACKGROUND_MESSAGE_FAILED''"
  by (simp add: stateResponseWithError_def Let_def toExtensionErrorInfo_code no_fallback_def)

end
