(* ===== verification/JsText.thy ===== *)
theory JsText
  imports JsValue "HOL-Library.Sublist"
begin

text \<open>
  Text functions of the language the scripts use: searching for a substring, splitting lines, case
  conversion, \<open>parseInt\<close>, and \<open>JSON.stringify\<close> with an indentation. A string is a list of
  characters; case conversion covers the Latin-1 letters.
\<close>

section \<open>Searching\<close>

text \<open>\<open>s.indexOf(p)\<close> for a non-empty \<open>p\<close>; \<open>None\<close> stands for \<open>-1\<close>.\<close>

fun indexOf :: "string \<Rightarrow> string \<Rightarrow> nat option" where
  "indexOf [] p = (if p = [] then Some 0 else None)"
| "indexOf (c # s) p = (if prefix p (c # s) then Some 0 else map_option Suc (indexOf s p))"

definition str_includes :: "string \<Rightarrow> string \<Rightarrow> bool" where
  "str_includes s p \<longleftrightarrow> indexOf s p \<noteq> None"

lemma indexOf_SomeD: "indexOf s p = Some i \<Longrightarrow> prefix p (drop i s) \<and> i + length p \<le> length s"
proof (induction s p arbitrary: i rule: indexOf.induct)
  case (1 p)
  then show ?case by (simp split: if_splits)
next
  case (2 c s p)
  show ?case
  proof (cases "prefix p (c # s)")
    case True
    with "2.prems" show ?thesis by (auto dest: prefix_length_le)
  next
    case False
    with 2 show ?thesis by auto
  qed
qed

lemma indexOf_split: "indexOf s p = Some i \<Longrightarrow> s = take i s @ p @ drop (i + length p) s"
proof -
  assume "indexOf s p = Some i"
  then have "prefix p (drop i s)" by (blast dest: indexOf_SomeD)
  then obtain t where "drop i s = p @ t" by (auto simp: prefix_def)
  moreover from this have "drop (i + length p) s = t" by (metis add.commute append_eq_conv_conj drop_drop)
  ultimately show ?thesis by (metis append_take_drop_id)
qed

lemma indexOf_None: "indexOf s p = None \<longleftrightarrow> (\<nexists>u v. s = u @ p @ v)"
proof (induction s p rule: indexOf.induct)
  case (1 p)
  then show ?case by auto
next
  case (2 c s p)
  show ?case
  proof (cases "prefix p (c # s)")
    case True
    then obtain v where "c # s = [] @ p @ v" by (auto simp: prefix_def)
    with True show ?thesis by (metis indexOf.simps(2) option.distinct(1))
  next
    case False
    have "(\<exists>u v. c # s = u @ p @ v) \<longleftrightarrow> (\<exists>u v. s = u @ p @ v)"
    proof
      assume "\<exists>u v. c # s = u @ p @ v"
      then obtain u v where uv: "c # s = u @ p @ v" by blast
      with False have "u \<noteq> []" by (auto simp: prefix_def)
      with uv have "s = tl u @ p @ v" by (cases u) auto
      then show "\<exists>u v. s = u @ p @ v" by blast
    next
      assume "\<exists>u v. s = u @ p @ v"
      then show "\<exists>u v. c # s = u @ p @ v" by (metis append_Cons)
    qed
    with False 2 show ?thesis by auto
  qed
qed

lemma str_includes_iff: "str_includes s p \<longleftrightarrow> (\<exists>u v. s = u @ p @ v)"
  by (simp add: str_includes_def indexOf_None)

text \<open>More text behind a hit does not move it.\<close>

lemma indexOf_append: "indexOf s p = Some i \<Longrightarrow> indexOf (s @ t) p = Some i"
proof (induction s p arbitrary: i rule: indexOf.induct)
  case (1 p)
  then show ?case by (cases t) (auto split: if_splits)
next
  case (2 c s p)
  show ?case
  proof (cases "prefix p (c # s)")
    case True
    then have "prefix p (c # s @ t)" by (metis append_Cons prefix_prefix)
    with True "2.prems" show ?thesis by simp
  next
    case False
    with "2.prems" obtain j where j: "indexOf s p = Some j" "i = Suc j" by auto
    then have "length p \<le> length s" by (auto dest: indexOf_SomeD)
    with False have "\<not> prefix p (c # s @ t)"
      by (metis append_Cons le_SucI length_Cons prefix_length_prefix prefixI)
    with False j "2.IH" show ?thesis by simp
  qed
qed

text \<open>The first hit: text without the pattern's first character in front of it is skipped.\<close>

lemma indexOf_skip: "c \<notin> set u \<Longrightarrow> indexOf (u @ (c # p) @ v) (c # p) = Some (length u)"
  by (induction u) auto


section \<open>Lines\<close>

text \<open>\<open>s.split(/\r?\n/)\<close>: a line break with the carriage return in front of it, if any, separates.\<close>

fun split_lines_onto :: "string \<Rightarrow> string \<Rightarrow> string list" where
  "split_lines_onto acc [] = [rev acc]"
| "split_lines_onto acc (c # s) = (
     if c = CHR 0x0A then rev acc # split_lines_onto [] s
     else case s of
         d # s' \<Rightarrow> if c = CHR 0x0D \<and> d = CHR 0x0A then rev acc # split_lines_onto [] s'
                  else split_lines_onto (c # acc) s
       | [] \<Rightarrow> split_lines_onto (c # acc) s)"

definition split_lines :: "string \<Rightarrow> string list" where
  "split_lines s = split_lines_onto [] s"

lemma split_lines_onto_single: "CHR 0x0A \<notin> set s \<Longrightarrow> split_lines_onto acc s = [rev acc @ s]"
proof (induction s arbitrary: acc)
  case (Cons c s)
  then show ?case by (cases s) auto
qed simp

lemma split_lines_single: "CHR 0x0A \<notin> set s \<Longrightarrow> split_lines s = [s]"
  by (simp add: split_lines_def split_lines_onto_single)

lemma printable_no_newline: "printable s \<Longrightarrow> CHR 0x0A \<notin> set s"
  by (auto simp: printable_def list_all_iff)


section \<open>Case conversion\<close>

definition lower_char :: "char \<Rightarrow> char" where
  "lower_char c = (let n = (of_char c :: nat) in
     if (65 \<le> n \<and> n \<le> 90) \<or> (192 \<le> n \<and> n \<le> 222 \<and> n \<noteq> 215) then char_of (n + 32) else c)"

definition toLowerCase :: "string \<Rightarrow> string" where
  "toLowerCase s = map lower_char s"

definition upper_char :: "char \<Rightarrow> char" where
  "upper_char c = (let n = (of_char c :: nat) in
     if (97 \<le> n \<and> n \<le> 122) \<or> (224 \<le> n \<and> n \<le> 254 \<and> n \<noteq> 247) then char_of (n - 32) else c)"

definition toUpperCase :: "string \<Rightarrow> string" where
  "toUpperCase s = map upper_char s"


section \<open>\<open>Number.parseInt(s, 10)\<close>\<close>

definition parseInt :: "string \<Rightarrow> jsnum" where
  "parseInt s0 = (
     let s = trimStart s0;
         neg = (case s of [] \<Rightarrow> False | c # _ \<Rightarrow> c = CHR ''-'');
         u = (case s of [] \<Rightarrow> [] | c # u \<Rightarrow> if c = CHR ''-'' \<or> c = CHR ''+'' then u else s);
         ds = takeWhile is_digit u
     in if ds = [] then NaN
        else let n = round_num (of_nat (digits_val ds)) in if neg then num_neg n else n)"

definition integer_or_not_finite :: "jsnum \<Rightarrow> bool" where
  "integer_or_not_finite n \<longleftrightarrow> (isFinite n \<longrightarrow> isInteger n)"

lemma integer_or_not_finite_round: "integer_or_not_finite (round_num (of_nat n))"
  "integer_or_not_finite (num_neg (round_num (of_nat n)))"
  by (simp_all add: integer_or_not_finite_def round_num_def)

lemma parseInt_integer: "integer_or_not_finite (parseInt s)"
proof -
  have "integer_or_not_finite NaN" by (simp add: integer_or_not_finite_def)
  then show ?thesis
    by (auto simp: parseInt_def Let_def integer_or_not_finite_round)
qed


section \<open>\<open>JSON.stringify\<close> with an indentation\<close>

definition spaces :: "nat \<Rightarrow> string" where
  "spaces n = replicate n (CHR 0x20)"

definition line_break :: "nat \<Rightarrow> string" where
  "line_break n = CHR 0x0A # spaces n"

text \<open>The gap is at most ten spaces wide; \<open>n\<close> is the current indentation.\<close>

fun pretty :: "nat \<Rightarrow> nat \<Rightarrow> js \<Rightarrow> string" where
  "pretty g n (Arr xs) =
     (if xs = [] then ''[]''
      else ''['' @ line_break (n + g) @ join ('','' @ line_break (n + g)) (map (pretty g (n + g)) xs)
        @ line_break n @ '']'')"
| "pretty g n (Obj ps) =
     (let members = concat (map (\<lambda>(k, v). if v = Undefined then []
            else [json_quote k @ '': '' @ pretty g (n + g) v]) ps)
      in if members = [] then ''{}''
         else ''{'' @ line_break (n + g) @ join ('','' @ line_break (n + g)) members @ line_break n @ ''}'')"
| "pretty g n v = stringify v"

definition stringify_indented :: "nat \<Rightarrow> js \<Rightarrow> string" where
  "stringify_indented indent v = (if indent = 0 then stringify v else pretty (min 10 indent) 0 v)"

end
