(* ===== verification/SkillClient.thy ===== *)
theory SkillClient
  imports JsText RelayHttp
begin

text \<open>
  The relay's HTTP clients among the skill scripts: the health check, the command call and the text
  of a relay error (each script has its own copy), and the whole of
  \<open>skill/scripts/get-active-target.ts\<close>, which prints the active tab's target.
\<close>

section \<open>Requests\<close>

datatype http_req = HealthReq | CommandReq js

text \<open>What \<open>fetch\<close> and reading the body text give: a rejection, or a status and a text.\<close>

datatype fetched = FetchFails thrown | Fetched nat string

definition response_ok :: "nat \<Rightarrow> bool" where
  "response_ok status \<longleftrightarrow> 200 \<le> status \<and> status \<le> 299"

definition command_body :: "string \<Rightarrow> js \<Rightarrow> js" where
  "command_body method params = Obj [(''method'', Str method), (''params'', params)]"

text \<open>A property read of \<open>null\<close> or \<open>undefined\<close> throws \<open>te\<close>, a \<open>TypeError\<close>.\<close>

definition is_nullish :: "js \<Rightarrow> bool" where
  "is_nullish v \<longleftrightarrow> v = Undefined \<or> v = Null"

definition has_keys :: "js \<Rightarrow> bool" where
  "has_keys v \<longleftrightarrow> entries v \<noteq> [] \<or> (is_str v \<and> the_str v \<noteq> [])"

section \<open>The script \<open>get-active-target.ts\<close>\<close>

definition gat_formatRelayError :: "js \<Rightarrow> js" where
  "gat_formatRelayError response = (
     let errorInfo = js_get response ''errorInfo'' in
     if truthy errorInfo then Str (join '' | '' (
         [js_String (js_get errorInfo ''code'') @ '': '' @ js_String (js_get errorInfo ''message'')]
         @ (if truthy (js_get errorInfo ''details'') \<and> has_keys (js_get errorInfo ''details'')
            then [''details='' @ stringify (js_get errorInfo ''details'')] else [])
         @ (if truthy (js_get errorInfo ''cause'') then [''cause='' @ js_String (js_get errorInfo ''cause'')] else [])))
     else nullish (js_get response ''error'') (Str ''Unknown relay error''))"

text \<open>What follows the answer to \<open>/health\<close> and to \<open>/command\<close>; \<open>parse\<close> is \<open>response.json()\<close>.\<close>

definition gat_assertRelayHealthy :: "json_parser \<Rightarrow> thrown \<Rightarrow> string \<Rightarrow> fetched \<Rightarrow> thrown + unit" where
  "gat_assertRelayHealthy parse te url answer = (case answer of
      FetchFails e \<Rightarrow> Inl (newError (''Relay is unreachable at '' @ url
        @ ''. Ask the user to manually start it with: bun .agents/skills/vibe-browser/scripts/relay.ts''))
    | Fetched status body \<Rightarrow> (case parse body of
          Inl e \<Rightarrow> Inl e
        | Inr payload \<Rightarrow>
            if is_nullish payload then Inl te
            else if response_ok status \<and> truthy (js_get payload ''ok'') then Inr ()
            else
              let probeMessage = js_get (js_get (js_get payload ''checks'') ''activeTargetProbe'') ''message'';
                  action = js_String (nullish (js_get payload ''action'')
                     (Str ''Ask the user to manually recover the relay and extension.''));
                  detail = (if truthy probeMessage then js_String probeMessage @ '' '' @ action else action)
              in Inl (newError (trim (''Relay is not ready at '' @ url @ ''. '' @ detail)))))"

definition gat_call :: "json_parser \<Rightarrow> thrown \<Rightarrow> fetched \<Rightarrow> thrown + js" where
  "gat_call parse te answer = (case answer of
      FetchFails e \<Rightarrow> Inl e
    | Fetched status body \<Rightarrow> (case parse body of
          Inl e \<Rightarrow> Inl e
        | Inr payload \<Rightarrow>
            if response_ok status then Inr payload
            else if is_nullish payload then Inl te
            else Inl (newError (js_String (gat_formatRelayError payload)))))"

definition evalInPage_body :: "string \<Rightarrow> string \<Rightarrow> js" where
  "evalInPage_body targetId expression = command_body ''cdp'' (Obj [(''method'', Str ''Runtime.evaluate''),
     (''targetId'', Str targetId), (''params'', Obj [(''expression'', Str expression),
        (''returnByValue'', Bool True), (''awaitPromise'', Bool True)])])"

definition getNestedValue :: "js \<Rightarrow> string" where
  "getNestedValue payload = (
     if \<not> isRecord payload then ''(unknown)''
     else let result = js_get payload ''result'' in
       if is_str (js_get result ''value'') then the_str (js_get result ''value'')
       else if is_str (js_get result ''description'') then the_str (js_get result ''description'')
       else ''(unknown)'')"

text \<open>The process: the requests it has made, the lines it has printed, its exit code.\<close>

record gat =
  gat_requests :: "http_req list"
  gat_lines :: "string list"
  gat_errors :: "js list"
  gat_exitCode :: nat

definition gat_init :: gat where
  "gat_init = \<lparr>gat_requests = [], gat_lines = [], gat_errors = [], gat_exitCode = 0\<rparr>"

type_synonym 'a gat_eff = "(gat, thrown, 'a) eff"

text \<open>The relay as the script sees it: an answer to each request, after those made before.\<close>

type_synonym server = "http_req list \<Rightarrow> http_req \<Rightarrow> fetched"

definition request :: "server \<Rightarrow> http_req \<Rightarrow> fetched gat_eff" where
  "request serve r = (\<lambda>s. (Success (serve (gat_requests s) r), s\<lparr>gat_requests := gat_requests s @ [r]\<rparr>))"

definition print :: "string \<Rightarrow> unit gat_eff" where
  "print l = eff_modify (\<lambda>s. s\<lparr>gat_lines := gat_lines s @ [l]\<rparr>)"

definition gat_command :: "json_parser \<Rightarrow> thrown \<Rightarrow> server \<Rightarrow> js \<Rightarrow> js gat_eff" where
  "gat_command parse te serve body =
     eff_bind (request serve (CommandReq body)) (\<lambda>answer. eff_try (gat_call parse te answer))"

definition read_result :: "thrown \<Rightarrow> js \<Rightarrow> js gat_eff" where
  "read_result te payload = (if is_nullish payload then eff_fail te else eff_succeed (js_get payload ''result''))"

definition gat_main :: "json_parser \<Rightarrow> thrown \<Rightarrow> string \<Rightarrow> server \<Rightarrow> unit gat_eff" where
  "gat_main parse te url serve =
     eff_then (print (''Checking relay health... '' @ url))
     (eff_bind (request serve HealthReq) (\<lambda>health.
      eff_then (eff_try (gat_assertRelayHealthy parse te url health))
      (eff_bind (gat_command parse te serve (command_body ''tab'' (Obj [(''method'', Str ''tab.getActiveTarget'')]))) (\<lambda>active.
       eff_bind (read_result te active) (\<lambda>result.
       let targetId = (if isRecord result then js_get result ''targetId'' else Undefined) in
       if \<not> is_str targetId \<or> the_str targetId = [] then
         eff_fail (newError (''tab.getActiveTarget returned no targetId. raw='' @ stringify_indented 2 active))
       else
         eff_bind (gat_command parse te serve (evalInPage_body (the_str targetId) ''location.href'')) (\<lambda>urlRes.
         eff_bind (gat_command parse te serve (evalInPage_body (the_str targetId) ''document.title'')) (\<lambda>titleRes.
         eff_then (print (''targetId='' @ the_str targetId))
         (eff_then (eff_bind (read_result te urlRes) (\<lambda>r. print (''url='' @ getNestedValue r)))
           (eff_bind (read_result te titleRes) (\<lambda>r. print (''title='' @ getNestedValue r)))))))))))"

text \<open>The \<open>catch\<close> at the end of the script.\<close>

definition gat_run :: "json_parser \<Rightarrow> thrown \<Rightarrow> string \<Rightarrow> server \<Rightarrow> gat" where
  "gat_run parse te url serve = (case gat_main parse te url serve gat_init of
      (Success _, s) \<Rightarrow> s
    | (Failure e, s) \<Rightarrow> s\<lparr>gat_errors := gat_errors s @ [case e of Exn m _ \<Rightarrow> Str m | Thrown v \<Rightarrow> v], gat_exitCode := 1\<rparr>
    | (Defect e, s) \<Rightarrow> s\<lparr>gat_errors := gat_errors s @ [case e of Exn m _ \<Rightarrow> Str m | Thrown v \<Rightarrow> v], gat_exitCode := 1\<rparr>)"


section \<open>The copies in \<open>record-network.ts\<close>\<close>

definition rec_formatRelayError :: "js \<Rightarrow> js" where
  "rec_formatRelayError response = (
     let errorInfo = js_get response ''errorInfo'' in
     if truthy errorInfo then Str (join '' | '' (
         [js_String (js_get errorInfo ''code'') @ '': '' @ js_String (js_get errorInfo ''message'')]
         @ (if truthy (js_get errorInfo ''details'') \<and> has_keys (js_get errorInfo ''details'')
            then [''details='' @ stringify (js_get errorInfo ''details'')] else [])
         @ (if truthy (js_get errorInfo ''cause'') then [''cause='' @ js_String (js_get errorInfo ''cause'')] else [])))
     else nullish (js_get response ''error'') (Str ''Unknown relay error''))"

definition rec_assertRelayHealthy :: "json_parser \<Rightarrow> thrown \<Rightarrow> string \<Rightarrow> fetched \<Rightarrow> thrown + unit" where
  "rec_assertRelayHealthy parse te url answer = (case answer of
      FetchFails e \<Rightarrow> Inl (newError (''Relay is unreachable at '' @ url
        @ ''. Ask the user to manually start it with: bun .agents/skills/vibe-browser/scripts/relay.ts''))
    | Fetched status body \<Rightarrow> (case parse body of
          Inl e \<Rightarrow> Inl e
        | Inr payload \<Rightarrow>
            if is_nullish payload then Inl te
            else if response_ok status \<and> truthy (js_get payload ''ok'') then Inr ()
            else
              let probeMessage = js_get (js_get (js_get payload ''checks'') ''activeTargetProbe'') ''message'';
                  action = nullish (js_get payload ''action'')
                     (Str ''Ask the user to manually recover the relay and extension.'')
              in Inl (newError (''Relay is not ready at '' @ url @ ''. ''
                   @ (if truthy probeMessage then js_String probeMessage @ '' '' else []) @ js_String action))))"

definition rec_call :: "json_parser \<Rightarrow> thrown \<Rightarrow> fetched \<Rightarrow> thrown + js" where
  "rec_call parse te answer = (case answer of
      FetchFails e \<Rightarrow> Inl e
    | Fetched status body \<Rightarrow> (case parse body of
          Inl e \<Rightarrow> Inl e
        | Inr payload \<Rightarrow>
            if \<not> response_ok status then
              (if is_nullish payload then Inl te else Inl (newError (js_String (rec_formatRelayError payload))))
            else Inr payload))"

lemma rec_formatRelayError_eq: "rec_formatRelayError = gat_formatRelayError"
  by (rule ext) (simp add: rec_formatRelayError_def gat_formatRelayError_def)

lemma rec_call_eq: "rec_call = gat_call"
  by (intro ext) (auto simp: rec_call_def gat_call_def rec_formatRelayError_eq split: fetched.split sum.split)

end
