(* ===== verification/SkillProperties.thy ===== *)
theory SkillProperties
  imports SkillClient
begin

text \<open>
  Properties of the clients: the text of a relay error as the user of a script sees it, and the
  outcomes of \<open>get-active-target.ts\<close>.
\<close>

section \<open>Relay errors\<close>

lemma gat_format_info:
  assumes "error_info_ok e" "case ei_details e of None \<Rightarrow> True | Some d \<Rightarrow> json_value d"
    and "js_get v ''errorInfo'' = wire (errorInfoToJson e)"
  shows "gat_formatRelayError v = Str (formatErrorInfo e)"
proof -
  have t: "truthy (wire (errorInfoToJson e))" by (simp add: errorInfoToJson_def)
  have d: "js_get (wire (errorInfoToJson e)) ''details'' = (case ei_details e of None \<Rightarrow> Undefined | Some d \<Rightarrow> d)"
    using assms(1,2) by (auto simp: errorInfoToJson_def wire_json_value error_info_ok_def opt_prop_def split: option.split)
  have c: "js_get (wire (errorInfoToJson e)) ''cause''
      = (case ei_cause e of None \<Rightarrow> Undefined | Some s \<Rightarrow> if s = [] then Undefined else Str s)"
    using assms(1) by (auto simp: errorInfoToJson_def error_info_ok_def opt_prop_def split: option.split)
  have m: "js_get (wire (errorInfoToJson e)) ''code'' = Str (ei_code e)"
    "js_get (wire (errorInfoToJson e)) ''message'' = Str (ei_message e)"
    by (simp_all add: errorInfoToJson_def)
  have "truthy d \<and> has_keys d \<longleftrightarrow> entries d \<noteq> []" if "ei_details e = Some d" for d
    using assms(1) that by (cases d) (auto simp: error_info_ok_def has_keys_def is_str_def)
  with t d c m assms(3) show ?thesis
    by (auto simp: gat_formatRelayError_def formatErrorInfo_def Let_def split: option.split)
qed

text \<open>An answer of the relay as it travels: its status and the text of its body.\<close>

definition fetched_of :: "http_response \<Rightarrow> fetched" where
  "fetched_of r = Fetched (hr_status r) (case hr_body r of Json v \<Rightarrow> stringify v | _ \<Rightarrow> [])"

lemma wire_errorInfo_body:
  "js_get (wire (Obj [(''ok'', a), (''result'', b), (''error'', c), (''errorInfo'', errorInfoToJson e)])) ''errorInfo''
     = wire (errorInfoToJson e)"
  by (simp add: errorInfoToJson_def del: wire.simps(7)) (simp add: js_get_wire_Obj)

text \<open>
  C29. The relay's errors reach the user unchanged: when the relay refuses a body with an error, or
  answers a command whose response is an error response, both scripts' calls throw, and the message
  is the relay's own text for that error, with code, message, details and cause.
\<close>
theorem relay_errors_reach_the_user:
  assumes "\<And>b. hr_body r = Json b \<Longrightarrow> parse (stringify b) = Inr (wire b)"
    and "error_info_ok e" "case ei_details e of None \<Rightarrow> True | Some d \<Rightarrow> json_value d"
    and "r = bad_request e \<or> r = command_reply (makeErrorResponse i e)"
  shows "gat_call parse te (fetched_of r) = Inl (newError (formatErrorInfo e))
    \<and> rec_call parse te (fetched_of r) = Inl (newError (formatErrorInfo e))"
proof -
  obtain x y z where b: "hr_body r = Json (Obj [(''ok'', x), (''result'', y), (''error'', z), (''errorInfo'', errorInfoToJson e)])"
    using assms(2,4) by (auto simp: bad_request_def command_reply_def error_info_roundtrip)
  let ?b = "Obj [(''ok'', x), (''result'', y), (''error'', z), (''errorInfo'', errorInfoToJson e)]"
  note w = wire_errorInfo_body [of x y z e]
  have "400 \<le> hr_status r"
    using assms(2,4) commandErrorToStatus_make [of e i] code_status_ge [of "ei_code e"]
    by (auto simp: bad_request_def command_reply_def)
  then have "\<not> response_ok (hr_status r)" by (simp add: response_ok_def)
  moreover have "\<not> is_nullish (wire ?b)" by (simp add: is_nullish_def)
  moreover have "gat_call parse te (fetched_of r) = (if response_ok (hr_status r) then Inr (wire ?b)
      else if is_nullish (wire ?b) then Inl te else Inl (newError (js_String (gat_formatRelayError (wire ?b)))))"
    by (simp add: gat_call_def fetched_of_def b assms(1) [OF b] del: wire.simps stringify.simps)
  ultimately have "gat_call parse te (fetched_of r) = Inl (newError (formatErrorInfo e))"
    using gat_format_info [OF assms(2,3) w] by (simp del: wire.simps)
  then show ?thesis by (simp add: rec_call_eq)
qed

theorem relay_errors_reach_the_user_witness:
  "gat_call (\<lambda>_. Inr (wire (case hr_body (bad_request (makeErrorInfo ''INVALID_JSON'' ''No'' None None)) of Json b \<Rightarrow> b | _ \<Rightarrow> Null)))
     (newError ''t'') (fetched_of (bad_request (makeErrorInfo ''INVALID_JSON'' ''No'' None None)))
   = Inl (newError ''INVALID_JSON: No'')"
  using relay_errors_reach_the_user [of "bad_request (makeErrorInfo ''INVALID_JSON'' ''No'' None None)"
      "\<lambda>_. Inr (wire (case hr_body (bad_request (makeErrorInfo ''INVALID_JSON'' ''No'' None None)) of Json b \<Rightarrow> b | _ \<Rightarrow> Null))"
      "makeErrorInfo ''INVALID_JSON'' ''No'' None None" undefined "newError ''t''"]
  by (simp add: error_info_ok_def formatErrorInfo_def del: wire.simps)


section \<open>The active target\<close>

definition active_body :: js where
  "active_body = command_body ''tab'' (Obj [(''method'', Str ''tab.getActiveTarget'')])"

text \<open>The answers a server may give: nothing, a text that is no JSON, or an object.\<close>

definition answers_objects :: "json_parser \<Rightarrow> server \<Rightarrow> bool" where
  "answers_objects parse serve \<longleftrightarrow> (\<forall>rs r. case serve rs r of FetchFails e \<Rightarrow> True
     | Fetched status body \<Rightarrow> (case parse body of Inl e \<Rightarrow> True | Inr v \<Rightarrow> \<not> is_nullish v))"

lemma gat_call_object: "answers_objects parse serve \<Longrightarrow> gat_call parse te (serve rs r) = Inr v \<Longrightarrow> \<not> is_nullish v"
  by (fastforce simp: answers_objects_def gat_call_def split: fetched.splits sum.splits if_splits)

text \<open>
  C30. The script reports all or nothing. Either it made its four requests, the relay named a non-empty
  target, and it prints that target with the page's address and title as the relay returned them and
  exits with 0; or it prints none of the three, reports exactly one error and exits with 1.
\<close>
theorem gat_all_or_nothing:
  assumes "answers_objects parse serve"
  shows "let s = gat_run parse te url serve; hello = ''Checking relay health... '' @ url in
    (gat_exitCode s = 0 \<and> gat_errors s = [] \<and> (\<exists>active t urlRes titleRes.
       gat_requests s = [HealthReq, CommandReq active_body, CommandReq (evalInPage_body t ''location.href''),
          CommandReq (evalInPage_body t ''document.title'')]
       \<and> gat_call parse te (serve (take 1 (gat_requests s)) (gat_requests s ! 1)) = Inr active
       \<and> js_get (js_get active ''result'') ''targetId'' = Str t \<and> t \<noteq> []
       \<and> gat_call parse te (serve (take 2 (gat_requests s)) (gat_requests s ! 2)) = Inr urlRes
       \<and> gat_call parse te (serve (take 3 (gat_requests s)) (gat_requests s ! 3)) = Inr titleRes
       \<and> gat_lines s = [hello, ''targetId='' @ t, ''url='' @ getNestedValue (js_get urlRes ''result''),
           ''title='' @ getNestedValue (js_get titleRes ''result'')]))
    \<or> (gat_exitCode s = 1 \<and> length (gat_errors s) = 1 \<and> gat_lines s = [hello])"
proof -
  note run = gat_run_def gat_main_def gat_command_def request_def print_def eff_bind_run eff_then_def
    gat_init_def read_result_def eff_try_def active_body_def [symmetric]
  show ?thesis
  proof (cases "gat_assertRelayHealthy parse te url (serve [] HealthReq)")
    case (Inl e)
    then show ?thesis by (simp add: run)
  next
    case (Inr u)
    note h = this
    let ?r1 = "[HealthReq]"
    show ?thesis
    proof (cases "gat_call parse te (serve ?r1 (CommandReq active_body))")
      case (Inl e)
      with h show ?thesis by (simp add: run)
    next
      case (Inr active)
      note a = this
      from gat_call_object [OF assms a] have na: "\<not> is_nullish active" .
      show ?thesis
      proof (cases "isRecord (js_get active ''result'') \<and> (\<exists>t. js_get (js_get active ''result'') ''targetId'' = Str t \<and> t \<noteq> [])")
        case False
        let ?T = "if isRecord (js_get active ''result'') then js_get (js_get active ''result'') ''targetId'' else Undefined"
        from False have "\<not> is_str ?T \<or> the_str ?T = []" by (cases ?T) (auto split: if_splits)
        with h a na show ?thesis by (simp add: run)
      next
        case True
        then obtain t where t: "js_get (js_get active ''result'') ''targetId'' = Str t" "t \<noteq> []" by blast
        let ?e1 = "CommandReq (evalInPage_body t ''location.href'')" and ?e2 = "CommandReq (evalInPage_body t ''document.title'')"
        let ?r2 = "[HealthReq, CommandReq active_body]"
        show ?thesis
        proof (cases "gat_call parse te (serve ?r2 ?e1)")
          case (Inl e)
          with h a na t True show ?thesis by (simp add: run)
        next
          case (Inr urlRes)
          note u = this gat_call_object [OF assms this]
          show ?thesis
          proof (cases "gat_call parse te (serve (?r2 @ [?e1]) ?e2)")
            case (Inl e)
            with h a na t u True show ?thesis by (simp add: run)
          next
            case (Inr titleRes)
            note v = this gat_call_object [OF assms this]
            show ?thesis
              using h a na t u v True by (simp add: run numeral_2_eq_2 numeral_3_eq_3)
          qed
        qed
      qed
    qed
  qed
qed

definition skill_parse :: json_parser where
  "skill_parse s = (if s = ''a'' then Inr (Obj [(''ok'', Bool True)])
     else Inr (Obj [(''ok'', Bool True), (''result'',
        Obj [(''targetId'', Str ''T1''), (''result'', Obj [(''value'', Str ''x'')])])]))"

definition demo_server :: server where
  "demo_server rs r = Fetched 200 (if rs = [] then ''a'' else ''b'')"

lemma demo_exit: "gat_exitCode (gat_run skill_parse (newError ''t'') ''u'' demo_server) = 0"
  by (simp add: gat_run_def gat_main_def gat_command_def request_def print_def eff_bind_run eff_then_def
    gat_init_def read_result_def eff_try_def demo_server_def gat_assertRelayHealthy_def gat_call_def skill_parse_def
    response_ok_def is_nullish_def is_str_def the_str_def)

theorem gat_all_or_nothing_witness:
  "length (gat_lines (gat_run skill_parse (newError ''t'') ''u'' demo_server)) = 4
   \<and> gat_errors (gat_run skill_parse (newError ''t'') ''u'' demo_server) = []"
proof -
  have "answers_objects skill_parse demo_server"
    by (simp add: answers_objects_def demo_server_def skill_parse_def is_nullish_def)
  from gat_all_or_nothing [OF this, of "newError ''t''" "''u''"] show ?thesis
    by (auto simp: Let_def demo_exit)
qed

end
