(* ===== verification/Popup.thy ===== *)
theory Popup
  imports Background
begin

text \<open>
  The extension's popup, \<open>extension/entrypoints/popup/main.ts\<close>: the page's controls, the answers of
  the background script shown on them, and the requests the user's actions send. The page is a
  machine over the user's actions, the poll timer and the answers.
\<close>

section \<open>The page\<close>

text \<open>
  What a number input does to a value it is given and the number it reads its text as are the
  browser's; a focused input is the active element.
\<close>

record dom =
  sanitize :: "string \<Rightarrow> string"
  numberOf :: "string \<Rightarrow> jsnum"

record popup =
  pp_latest :: "state_response option"
  pp_checked :: bool
  pp_disabled :: bool
  pp_value :: string
  pp_focused :: bool
  pp_status :: string
  pp_connection :: string
  pp_class :: string
  pp_reports :: nat
  pp_polling :: bool
  pp_sent :: "js list"

definition defaultState :: state_response where
  "defaultState = \<lparr>sr_isActive = Bool False, sr_isConnected = False, sr_port = Num (Fin 9111),
     sr_error = None, sr_errorInfo = None\<rparr>"

definition latest_or_default :: "popup \<Rightarrow> state_response" where
  "latest_or_default p = (case pp_latest p of Some r \<Rightarrow> r | None \<Rightarrow> defaultState)"

text \<open>\<open>chrome.runtime.lastError\<close> is absent, or present with or without a message.\<close>

definition getMessageFailureState :: "string option option \<Rightarrow> popup \<Rightarrow> state_response" where
  "getMessageFailureState lastError p = (case lastError of
      None \<Rightarrow> latest_or_default p
    | Some message \<Rightarrow>
        let m = (case message of Some m \<Rightarrow> m | None \<Rightarrow> ''Background message failed'')
        in (latest_or_default p)\<lparr>sr_error := Some m,
             sr_errorInfo := Some \<lparr>ei_code = ''RUNTIME_MESSAGE_FAILED'', ei_message = m, ei_details = None, ei_cause = None\<rparr>\<rparr>)"

definition set_value :: "dom \<Rightarrow> string \<Rightarrow> popup \<Rightarrow> popup" where
  "set_value d v p = p\<lparr>pp_value := sanitize d v\<rparr>"

definition connection_text :: "state_response \<Rightarrow> string \<times> string" where
  "connection_text state = (case sr_error state of
      Some (c # cs) \<Rightarrow>
        let errorCode = (case sr_errorInfo state of None \<Rightarrow> [] | Some i \<Rightarrow> ei_code i)
        in (if errorCode \<noteq> [] then (c # cs) @ '' ('' @ errorCode @ '')'' else c # cs, ''connection-status error'')
    | _ \<Rightarrow>
        if truthy (sr_isActive state) then
          (if sr_isConnected state then ''Connected to relay on :'' @ js_String (sr_port state) else ''Connecting...'',
           if sr_isConnected state then ''connection-status connected'' else ''connection-status connecting'')
        else ([], ''connection-status''))"

definition updateUI :: "dom \<Rightarrow> state_response \<Rightarrow> popup \<Rightarrow> popup" where
  "updateUI d state p0 = (
     let p1 = p0\<lparr>pp_latest := Some state, pp_checked := truthy (sr_isActive state), pp_disabled := truthy (sr_isActive state)\<rparr>;
         p2 = (if \<not> pp_focused p1 then set_value d (js_String (sr_port state)) p1 else p1);
         p3 = p2\<lparr>pp_status := (if truthy (sr_isActive state) then ''Active'' else ''Inactive'')\<rparr>
     in p3\<lparr>pp_connection := fst (connection_text state), pp_class := snd (connection_text state)\<rparr>)"

definition handleStateResponse :: "dom \<Rightarrow> string option option \<Rightarrow> state_response option \<Rightarrow> popup \<Rightarrow> popup" where
  "handleStateResponse d lastError response p = (
     if lastError \<noteq> None then updateUI d (getMessageFailureState lastError p) p
     else case response of Some r \<Rightarrow> updateUI d r p | None \<Rightarrow> p)"


section \<open>Requests\<close>

definition sendMessage :: "js \<Rightarrow> popup \<Rightarrow> popup" where
  "sendMessage m p = p\<lparr>pp_sent := pp_sent p @ [m]\<rparr>"

definition refreshState :: "popup \<Rightarrow> popup" where
  "refreshState p = sendMessage (Obj [(''type'', Str ''getState'')]) p"

definition on_toggle :: "popup \<Rightarrow> popup" where
  "on_toggle p = sendMessage (Obj [(''type'', Str ''setState''), (''isActive'', Bool (pp_checked p))]) p"

definition submitPort :: "dom \<Rightarrow> popup \<Rightarrow> popup" where
  "submitPort d p = (case pp_latest p of
      Some r \<Rightarrow>
        if truthy (sr_isActive r) then set_value d (js_String (sr_port r)) p
        else (let port = numberOf d (pp_value p) in
          if \<not> isInteger port \<or> port < Fin 1 \<or> port > Fin 65535 then
            set_value d (js_String (sr_port r)) (p\<lparr>pp_reports := Suc (pp_reports p)\<rparr>)
          else sendMessage (Obj [(''type'', Str ''setPort''), (''port'', Num port)]) p)
    | None \<Rightarrow>
        (let port = numberOf d (pp_value p) in
          if \<not> isInteger port \<or> port < Fin 1 \<or> port > Fin 65535 then p\<lparr>pp_reports := Suc (pp_reports p)\<rparr>
          else sendMessage (Obj [(''type'', Str ''setPort''), (''port'', Num port)]) p))"

definition on_keydown :: "dom \<Rightarrow> string \<Rightarrow> popup \<Rightarrow> popup" where
  "on_keydown d key p = (if key \<noteq> ''Enter'' then p else submitPort d p)"

text \<open>The page as the document declares it, after the script has run once.\<close>

definition popup_page :: popup where
  "popup_page = \<lparr>pp_latest = None, pp_checked = False, pp_disabled = False, pp_value = ''9111'', pp_focused = False,
     pp_status = ''Inactive'', pp_connection = [], pp_class = ''connection-status'', pp_reports = 0, pp_polling = False,
     pp_sent = []\<rparr>"

definition popup_start :: popup where
  "popup_start = (refreshState popup_page)\<lparr>pp_polling := True\<rparr>"

datatype popup_event =
    PollFires
  | UserToggles
  | UserTypes string
  | FocusMoves bool
  | PortChanges
  | KeyPressed string
  | Answered "string option option" "state_response option"
  | Unloads

fun popup_step :: "dom \<Rightarrow> popup_event \<Rightarrow> popup \<Rightarrow> popup" where
  "popup_step d PollFires p = (if pp_polling p then refreshState p else p)"
| "popup_step d UserToggles p = on_toggle (p\<lparr>pp_checked := \<not> pp_checked p\<rparr>)"
| "popup_step d (UserTypes t) p = (if pp_disabled p then p else p\<lparr>pp_value := t\<rparr>)"
| "popup_step d (FocusMoves b) p = p\<lparr>pp_focused := b\<rparr>"
| "popup_step d PortChanges p = submitPort d p"
| "popup_step d (KeyPressed key) p = on_keydown d key p"
| "popup_step d (Answered lastError response) p = handleStateResponse d lastError response p"
| "popup_step d Unloads p = p\<lparr>pp_polling := False\<rparr>"

end
