(* ===== verification/PopupProperties.thy ===== *)
theory PopupProperties
  imports Popup StoredState
begin

text \<open>
  The popup along every run of its page, and together with the background process: what it shows,
  what it asks for, and a change of the port from the input to the storage and back.
\<close>

section \<open>The invariant of the page\<close>

text \<open>A request the background answers, with a boolean flag or a valid port.\<close>

definition request_ok :: "js \<Rightarrow> bool" where
  "request_ok m \<longleftrightarrow> m = Obj [(''type'', Str ''getState'')]
     \<or> (\<exists>b. m = Obj [(''type'', Str ''setState''), (''isActive'', Bool b)])
     \<or> (\<exists>n \<in> {1..65535}. m = Obj [(''type'', Str ''setPort''), (''port'', Num (num_of_nat n))])"

definition displays :: "popup \<Rightarrow> state_response \<Rightarrow> bool" where
  "displays p r \<longleftrightarrow> pp_disabled p = truthy (sr_isActive r)
     \<and> pp_status p = (if truthy (sr_isActive r) then ''Active'' else ''Inactive'')
     \<and> (pp_connection p, pp_class p) = connection_text r"

definition popup_inv :: "popup \<Rightarrow> bool" where
  "popup_inv p \<longleftrightarrow> displays p (latest_or_default p) \<and> (\<forall>m \<in> set (pp_sent p). request_ok m)"

lemma popup_inv_start: "popup_inv popup_start"
  by (simp add: popup_inv_def displays_def popup_start_def popup_page_def refreshState_def sendMessage_def latest_or_default_def
      defaultState_def connection_text_def request_ok_def)

lemma set_value_frame [simp]:
  "pp_latest (set_value d v p) = pp_latest p" "pp_checked (set_value d v p) = pp_checked p"
  "pp_disabled (set_value d v p) = pp_disabled p" "pp_focused (set_value d v p) = pp_focused p"
  "pp_status (set_value d v p) = pp_status p" "pp_connection (set_value d v p) = pp_connection p"
  "pp_class (set_value d v p) = pp_class p" "pp_sent (set_value d v p) = pp_sent p"
  "pp_reports (set_value d v p) = pp_reports p" "pp_value (set_value d v p) = sanitize d v"
  by (simp_all add: set_value_def)

lemma updateUI_frame [simp]:
  "pp_latest (updateUI d r p) = Some r" "pp_sent (updateUI d r p) = pp_sent p"
  "pp_checked (updateUI d r p) = truthy (sr_isActive r)" "pp_disabled (updateUI d r p) = truthy (sr_isActive r)"
  "pp_value (updateUI d r p) = (if pp_focused p then pp_value p else sanitize d (js_String (sr_port r)))"
  "pp_connection (updateUI d r p) = fst (connection_text r)" "pp_class (updateUI d r p) = snd (connection_text r)"
  by (simp_all add: updateUI_def Let_def)

lemma updateUI_displays: "displays (updateUI d r p) r"
  by (simp add: displays_def updateUI_def Let_def)

lemma popup_inv_updateUI: "popup_inv p \<Longrightarrow> popup_inv (updateUI d r p)"
  by (simp add: popup_inv_def latest_or_default_def updateUI_displays)

lemma popup_inv_sends: "popup_inv p \<Longrightarrow> request_ok m \<Longrightarrow> popup_inv (sendMessage m p)"
  by (auto simp: popup_inv_def displays_def latest_or_default_def sendMessage_def)

lemma popup_inv_cong:
  assumes "popup_inv p" "pp_latest p' = pp_latest p" "pp_disabled p' = pp_disabled p" "pp_status p' = pp_status p"
    "pp_connection p' = pp_connection p" "pp_class p' = pp_class p" "pp_sent p' = pp_sent p"
  shows "popup_inv p'"
  using assms by (simp add: popup_inv_def displays_def latest_or_default_def)

lemma port_request_ok:
  assumes "isInteger n" "\<not> n < Fin 1" "\<not> n > Fin 65535"
  shows "request_ok (Obj [(''type'', Str ''setPort''), (''port'', Num n)])"
  using port_valid_nat [of n] assms by (auto simp: request_ok_def port_valid_def is_num_def the_num_def)

lemma popup_inv_submit: "popup_inv p \<Longrightarrow> popup_inv (submitPort d p)"
  by (auto simp: submitPort_def Let_def intro: port_request_ok popup_inv_sends popup_inv_cong split: option.split)

lemma popup_inv_step: "popup_inv p \<Longrightarrow> popup_inv (popup_step d e p)"
proof (cases e)
  case UserToggles
  assume "popup_inv p"
  with UserToggles show ?thesis
    by (auto simp: on_toggle_def request_ok_def intro!: popup_inv_sends intro: popup_inv_cong)
next
  case (KeyPressed k)
  assume "popup_inv p"
  with KeyPressed show ?thesis by (simp add: on_keydown_def popup_inv_submit)
next
  case (Answered l r)
  assume "popup_inv p"
  with Answered show ?thesis by (simp add: handleStateResponse_def popup_inv_updateUI split: option.split)
qed (auto simp: refreshState_def request_ok_def popup_inv_submit intro!: popup_inv_sends intro: popup_inv_cong)

interpretation popup_machine: machine "popup_step d" "\<lambda>p. p = popup_start" popup_inv for d
  by unfold_locales (auto simp: popup_inv_start popup_inv_step)

definition popup_run :: "dom \<Rightarrow> popup_event list \<Rightarrow> popup" where
  "popup_run d es = run_events (popup_step d) es popup_start"

lemma popup_run_inv: "popup_inv (popup_run d es)"
  using popup_machine.inv_reachable by (simp add: popup_run_def)


definition plain_dom :: dom where
  "plain_dom = \<lparr>sanitize = id, numberOf = (\<lambda>t. if t = ''8080'' then num_of_nat 8080 else NaN)\<rparr>"

definition popup_answer :: state_response where
  "popup_answer = \<lparr>sr_isActive = Bool True, sr_isConnected = True, sr_port = Num (num_of_nat 80), sr_error = None, sr_errorInfo = None\<rparr>"

lemma demo_latest: "latest_or_default (popup_run plain_dom [UserToggles, Answered None (Some popup_answer)]) = popup_answer"
  by (simp add: popup_run_def handleStateResponse_def latest_or_default_def)



section \<open>The popup and the background\<close>

text \<open>Requests that come from runs of the popup.\<close>

definition from_popup :: "bg_event \<Rightarrow> bool" where
  "from_popup e \<longleftrightarrow> (case e of PopupMessage m \<Rightarrow> \<exists>d es. m \<in> set (pp_sent (popup_run d es)) | _ \<Rightarrow> True)"

lemma request_ok_event: "request_ok m \<Longrightarrow> ok_event is_bool (PopupMessage m)"
  by (auto simp: request_ok_def ok_event_def is_bool_def)

lemma sent_ok: "m \<in> set (pp_sent (popup_run d es)) \<Longrightarrow> request_ok m"
  using popup_run_inv [of d es] by (simp add: popup_inv_def)

lemma from_popup_ok: "from_popup e \<Longrightarrow> ok_event is_bool e"
proof (cases e)
  case (PopupMessage m)
  assume "from_popup e"
  with PopupMessage show ?thesis by (auto simp: from_popup_def dest: sent_ok intro: request_ok_event)
qed (simp_all add: ok_event_def)

text \<open>
  C23. Everything the popup asks for is something the background answers and may store: each request
  of any run of the page gets an answer, and when all requests of a run of the background process
  come from popups, the stored flag is always a boolean and the stored port an integer between 1 and
  65535, whatever the user types and the relay and the browser do.
\<close>
theorem popup_requests_are_safe:
  assumes "polite br storage_typed" "storage_typed (ext_init st0)" "list_all from_popup evs"
  shows "(m \<in> set (pp_sent (popup_run d es)) \<longrightarrow> fst (on_popup_message br m (bg_run br st0 evs)) \<noteq> None)
    \<and> (state_get br (bg_run br st0 evs) = (Success st, s') \<longrightarrow>
         is_bool (st_isActive st) \<and> (\<exists>n \<in> {1..65535}. st_port st = Num (num_of_nat n)))"
proof (rule conjI; rule impI)
  assume "m \<in> set (pp_sent (popup_run d es))"
  from sent_ok [OF this] show "fst (on_popup_message br m (bg_run br st0 evs)) \<noteq> None"
    by (auto simp: request_ok_def on_popup_message_def Let_def)
next
  have "storage_typed (bg_run br st0 evs)"
    using typed_services.kept_run [of br "ext_init st0" evs] assms
    by (auto simp: bg_run_def list_all_iff intro: from_popup_ok)
  then have "read_typed (fst (state_get br (bg_run br st0 evs)))"
    using typed_state_get [OF assms(1)] by (simp add: typed_program_def)
  moreover assume "state_get br (bg_run br st0 evs) = (Success st, s')"
  ultimately have "state_typed st" by (simp add: read_typed_def)
  then show "is_bool (st_isActive st) \<and> (\<exists>n \<in> {1..65535}. st_port st = Num (num_of_nat n))"
    by (rule state_typed_values)
qed

theorem popup_requests_are_safe_witness:
  "fst (on_popup_message quiet_browser (Obj [(''type'', Str ''setState''), (''isActive'', Bool True)])
     (bg_run quiet_browser [] [WorkerStarts])) \<noteq> None"
proof -
  have "Obj [(''type'', Str ''setState''), (''isActive'', Bool True)] \<in> set (pp_sent (popup_run plain_dom [UserToggles]))"
    by (simp add: popup_run_def popup_start_def popup_page_def refreshState_def on_toggle_def sendMessage_def)
  moreover have "storage_typed (ext_init [])"
    by (simp add: storage_typed_def stored_def ext_init_def mapGet_def entry_typed_def)
  moreover have "list_all from_popup [WorkerStarts]" by (simp add: from_popup_def)
  ultimately show ?thesis using popup_requests_are_safe [OF quiet_polite] by metis
qed

text \<open>
  C22. A port goes from the input to the storage and back: with the extension off, submitting a number
  between 1 and 65535 sends exactly one request, the background stores the port, and the answer shown
  on the page carries that port, leaves the input open and shows no error. Anything else in the input
  is reported to the user, sends nothing, and an input whose state is known falls back to it.
\<close>
theorem popup_changes_port:
  assumes "storage_ok br" "\<not> truthy (sr_isActive (latest_or_default p))" "\<not> truthy (st_isActive (migrated s))"
  shows "if port_valid (Num (numberOf d (pp_value p)))
    then \<exists>m r s'. pp_sent (submitPort d p) = pp_sent p @ [m] \<and> on_popup_message br m s = (Some r, s')
      \<and> st_port (migrated s') = Num (numberOf d (pp_value p))
      \<and> pp_latest (handleStateResponse d None (Some r) (submitPort d p)) = Some r \<and> sr_port r = st_port (migrated s')
      \<and> \<not> pp_disabled (handleStateResponse d None (Some r) (submitPort d p))
      \<and> pp_class (handleStateResponse d None (Some r) (submitPort d p)) = ''connection-status''
    else pp_sent (submitPort d p) = pp_sent p \<and> pp_reports (submitPort d p) = Suc (pp_reports p)
      \<and> pp_value (submitPort d p) = (case pp_latest p of None \<Rightarrow> pp_value p | Some r \<Rightarrow> sanitize d (js_String (sr_port r)))"
proof (cases "port_valid (Num (numberOf d (pp_value p)))")
  case False
  with assms(2) show ?thesis
    by (auto simp: submitPort_def Let_def port_valid_def is_num_def the_num_def latest_or_default_def split: option.split)
next
  case True
  let ?m = "Obj [(''type'', Str ''setPort''), (''port'', Num (numberOf d (pp_value p)))]"
  have submit: "submitPort d p = sendMessage ?m p"
    using True assms(2)
    by (auto simp: submitPort_def Let_def port_valid_def is_num_def the_num_def latest_or_default_def split: option.split)
  obtain r s' where run: "on_popup_message br ?m s = (Some r, s')"
    by (cases "runStateRequest br (set_port br (Num (numberOf d (pp_value p)))) s") (simp add: on_popup_message_def Let_def)
  from port_request [OF assms(1) run] True assms(3)
  have r: "migrated s' = \<lparr>st_isActive = st_isActive (migrated s), st_port = Num (numberOf d (pp_value p))\<rparr>"
    "sr_error r = None" "\<not> truthy (sr_isActive r)" "sr_port r = st_port (migrated s')" by simp_all
  have "pp_sent (submitPort d p) = pp_sent p @ [?m]" by (simp add: submit sendMessage_def)
  with run r True show ?thesis
    by (auto simp: handleStateResponse_def connection_text_def intro!: exI [of _ ?m])
qed

theorem popup_changes_port_witness:
  "\<exists>m r s'. pp_sent (submitPort plain_dom (popup_start\<lparr>pp_value := ''8080''\<rparr>)) = pp_sent popup_start @ [m]
     \<and> on_popup_message quiet_browser m (ext_init []) = (Some r, s') \<and> st_port (migrated s') = Num (num_of_nat 8080)"
proof -
  let ?p = "popup_start\<lparr>pp_value := ''8080''\<rparr>"
  have n: "numberOf plain_dom (pp_value ?p) = num_of_nat 8080" by (simp add: plain_dom_def)
  have a: "\<not> truthy (sr_isActive (latest_or_default ?p))"
    by (simp add: popup_start_def popup_page_def latest_or_default_def defaultState_def refreshState_def sendMessage_def)
  have b: "\<not> truthy (st_isActive (migrated (ext_init [])))"
    by (simp add: migrated_def stored_def ext_init_def mapGet_def)
  have v: "port_valid (Num (num_of_nat 8080))" by (simp add: port_valid_def is_num_def the_num_def num_of_nat_def)
  have sent: "pp_sent ?p = pp_sent popup_start" by simp
  show ?thesis
    using popup_changes_port [OF quiet_storage a b, of plain_dom, unfolded n if_P [OF v] sent] by blast
qed

end
