(* ===== verification/SseReader.thy ===== *)
theory SseReader
  imports JsText RelayState
begin

text \<open>
  Reading the relay's event stream, the buffer of \<open>streamSse\<close> in \<open>skill/scripts/record-network.ts\<close>:
  decoded text is appended, every complete event (up to a blank line) is cut off and its data lines
  are joined. The text may arrive in any pieces; what is read does not depend on them, and what the
  relay writes is read back.
\<close>

section \<open>The buffer\<close>

definition event_end :: string where
  "event_end = newline @ newline"

definition sse_data :: "string \<Rightarrow> string option" where
  "sse_data rawEvent = (
     let dataLines = map (\<lambda>l. trimStart (drop (length ''data:'') l)) (filter (prefix ''data:'') (split_lines rawEvent))
     in if dataLines = [] then None else Some (join newline dataLines))"

definition opt_list :: "'a option \<Rightarrow> 'a list" where
  "opt_list v = (case v of None \<Rightarrow> [] | Some a \<Rightarrow> [a])"

lemma opt_list_simps [simp]: "opt_list None = []" "opt_list (Some a) = [a]"
  by (simp_all add: opt_list_def)

text \<open>
  The inner \<open>while (true)\<close>, which the code leaves when no event end is found: the texts it hands on,
  in order, and the buffer it leaves. A loop that never left would have no value.
\<close>

partial_function (option) sse_drain :: "string \<Rightarrow> (string list \<times> string) option" where
  "sse_drain buffer = (case indexOf buffer event_end of
      None \<Rightarrow> Some ([], buffer)
    | Some sep \<Rightarrow> Option.bind (sse_drain (drop (sep + 2) buffer))
        (\<lambda>(texts, rest). Some (opt_list (sse_data (take sep buffer)) @ texts, rest)))"

text \<open>The outer loop: one decoded piece after the other.\<close>

fun sse_read :: "string \<Rightarrow> string list \<Rightarrow> (string list \<times> string) option" where
  "sse_read buffer [] = Some ([], buffer)"
| "sse_read buffer (chunk # chunks) = (case sse_drain (buffer @ chunk) of
      None \<Rightarrow> None
    | Some (texts, rest) \<Rightarrow> map_option (\<lambda>(texts', rest'). (texts @ texts', rest')) (sse_read rest chunks))"


section \<open>Laws\<close>

lemma event_end_length [simp]: "length event_end = 2"
  by (simp add: event_end_def newline_def)

lemma sse_drain_done: "indexOf buffer event_end = None \<Longrightarrow> sse_drain buffer = Some ([], buffer)"
  by (subst sse_drain.simps) simp

lemma sse_drain_event: "indexOf buffer event_end = Some sep \<Longrightarrow>
    sse_drain buffer = map_option (\<lambda>(texts, rest). (opt_list (sse_data (take sep buffer)) @ texts, rest))
      (sse_drain (drop (sep + 2) buffer))"
  by (subst sse_drain.simps) (cases "sse_drain (drop (sep + 2) buffer)", auto)

text \<open>Induction over the events of a buffer: each takes at least its end away.\<close>

lemma buffer_induct [case_names Done Event]:
  assumes "\<And>buffer. indexOf buffer event_end = None \<Longrightarrow> P buffer"
    "\<And>buffer sep. indexOf buffer event_end = Some sep \<Longrightarrow> P (drop (sep + 2) buffer) \<Longrightarrow> P buffer"
  shows "P buffer"
proof (induction buffer rule: length_induct)
  case (1 buffer)
  show ?case
  proof (cases "indexOf buffer event_end")
    case None
    then show ?thesis by (rule assms(1))
  next
    case (Some sep)
    then have "length (drop (sep + 2) buffer) < length buffer" by (auto dest!: indexOf_SomeD)
    with 1 have "P (drop (sep + 2) buffer)" by blast
    with Some show ?thesis by (rule assms(2))
  qed
qed

lemma sse_drain_total: "\<exists>texts rest. sse_drain buffer = Some (texts, rest) \<and> indexOf rest event_end = None"
proof (induction buffer rule: buffer_induct)
  case (Done buffer)
  then show ?case by (simp add: sse_drain_done)
next
  case (Event buffer sep)
  then show ?case by (auto simp: sse_drain_event)
qed

lemma sse_drain_rest: "sse_drain buffer = Some (texts, rest) \<Longrightarrow> indexOf rest event_end = None"
  using sse_drain_total [of buffer] by auto

text \<open>Text that arrives later continues the work on what was left.\<close>

lemma sse_drain_append: "sse_drain buffer = Some (texts, rest) \<Longrightarrow>
    sse_drain (buffer @ later) = map_option (\<lambda>(texts', rest'). (texts @ texts', rest')) (sse_drain (rest @ later))"
proof (induction buffer arbitrary: texts rule: buffer_induct)
  case (Done buffer)
  then have "texts = []" "rest = buffer" by (simp_all add: sse_drain_done)
  then show ?case by (cases "sse_drain (rest @ later)") auto
next
  case (Event buffer sep)
  from Event.prems Event.hyps obtain texts' where t: "sse_drain (drop (sep + 2) buffer) = Some (texts', rest)"
    "texts = opt_list (sse_data (take sep buffer)) @ texts'"
    by (auto simp: sse_drain_event)
  from Event.hyps have len: "sep + 2 \<le> length buffer" by (auto dest: indexOf_SomeD)
  have "indexOf (buffer @ later) event_end = Some sep" using Event.hyps by (rule indexOf_append)
  then have "sse_drain (buffer @ later) = map_option (\<lambda>(ts, r). (opt_list (sse_data (take sep buffer)) @ ts, r))
      (sse_drain (drop (sep + 2) buffer @ later))"
    using len by (simp add: sse_drain_event)
  also have "\<dots> = map_option (\<lambda>(texts', rest'). (texts @ texts', rest')) (sse_drain (rest @ later))"
    using Event.IH [OF t(1)] t(2) by (cases "sse_drain (rest @ later)") auto
  finally show ?case .
qed

lemma sse_read_from: "indexOf buffer event_end = None \<Longrightarrow> sse_read buffer chunks = sse_drain (buffer @ concat chunks)"
proof (induction chunks arbitrary: buffer)
  case Nil
  then show ?case by (simp add: sse_drain_done)
next
  case (Cons chunk chunks)
  obtain texts rest where d: "sse_drain (buffer @ chunk) = Some (texts, rest)" "indexOf rest event_end = None"
    using sse_drain_total by blast
  from sse_drain_append [OF d(1), of "concat chunks"] Cons.IH [OF d(2)] d(1)
  show ?case by simp
qed


section \<open>What the relay writes\<close>

text \<open>A message of the relay, always an object, or the comment that keeps the stream alive.\<close>

datatype sse_item = Message "(string \<times> js) list" | Keepalive

fun item_text :: "sse_item \<Rightarrow> string" where
  "item_text (Message ps) = sse_frame (Obj ps)"
| "item_text Keepalive = '': keepalive'' @ newline @ newline"

fun item_data :: "sse_item \<Rightarrow> string list" where
  "item_data (Message ps) = [stringify (Obj ps)]"
| "item_data Keepalive = []"

definition item_line :: "sse_item \<Rightarrow> string" where
  "item_line i = (case i of Message ps \<Rightarrow> ''data: '' @ stringify (Obj ps) | Keepalive \<Rightarrow> '': keepalive'')"

lemma item_text_line: "item_text i = item_line i @ event_end"
  by (cases i) (simp_all add: item_line_def sse_frame_def event_end_def)

lemma item_line_printable: "printable (item_line i)"
  by (cases i) (simp_all add: item_line_def printable_stringify del: stringify.simps)

lemma item_line_data: "opt_list (sse_data (item_line i)) = item_data i"
proof -
  have "split_lines (item_line i) = [item_line i]"
    by (intro split_lines_single printable_no_newline item_line_printable)
  moreover have "trimStart ('' '' @ stringify (Obj ps)) = stringify (Obj ps)" for ps
    by (simp add: trimStart_def is_space_def)
  ultimately show ?thesis
    by (cases i) (simp_all add: sse_data_def item_line_def del: stringify.simps)
qed

lemma sse_drain_item: "sse_drain (item_text i @ later) =
    map_option (\<lambda>(texts, rest). (item_data i @ texts, rest)) (sse_drain later)"
proof -
  have "CHR 0x0A \<notin> set (item_line i)" by (intro printable_no_newline item_line_printable)
  then have "indexOf (item_text i @ later) event_end = Some (length (item_line i))"
    using indexOf_skip [of "CHR 0x0A" "item_line i" newline later]
    by (simp add: item_text_line event_end_def newline_def)
  from sse_drain_event [OF this] show ?thesis
    by (simp add: item_text_line item_line_data)
qed

lemma sse_drain_items: "sse_drain (concat (map item_text items)) = Some (concat (map item_data items), [])"
  by (induction items) (simp_all add: sse_drain_item sse_drain_done event_end_def newline_def)


section \<open>Properties\<close>

text \<open>
  C25. The loop that cuts events off the buffer always ends, and when it does no complete event is
  left in the buffer.
\<close>
theorem sse_loop_ends:
  "\<exists>texts rest. sse_drain buffer = Some (texts, rest) \<and> \<not> str_includes rest (newline @ newline)
     \<and> (\<exists>front. buffer = front @ rest)"
proof -
  have "\<exists>front. buffer = front @ rest" if "sse_drain buffer = Some (texts, rest)" for texts rest
    using that
  proof (induction buffer arbitrary: texts rule: buffer_induct)
    case (Done buffer)
    then show ?case by (simp add: sse_drain_done)
  next
    case (Event buffer sep)
    then obtain front where "drop (sep + 2) buffer = front @ rest" by (auto simp: sse_drain_event)
    then have "buffer = (take (sep + 2) buffer @ front) @ rest" by (metis append.assoc append_take_drop_id)
    then show ?case by blast
  qed
  then show ?thesis using sse_drain_total [of buffer] by (fastforce simp: str_includes_def event_end_def)
qed

text \<open>
  C26. What is read does not depend on how the text is cut into pieces: reading piece by piece gives
  the same messages in the same order, and leaves the same buffer, as reading the whole text at once.
\<close>
theorem sse_pieces_do_not_matter:
  "sse_read [] chunks = sse_drain (concat chunks)"
  using sse_read_from [of "[]" chunks] by (simp add: event_end_def newline_def)

text \<open>
  The recorder reads what the relay writes: whatever messages and keepalive comments the relay
  puts on the stream, and however the network cuts their text, the recorder gets exactly the texts
  of the messages, in order, and nothing is left in its buffer.
\<close>
theorem sse_stream_roundtrip:
  assumes "concat chunks = concat (map item_text items)"
  shows "sse_read [] chunks = Some (concat (map item_data items), [])"
  using sse_read_from [of "[]" chunks] assms sse_drain_items [of items] by (simp add: event_end_def newline_def)

theorem sse_stream_roundtrip_witness:
  "sse_read [] [take 7 (sse_frame (Obj [])), drop 7 (sse_frame (Obj [])) @ '': keep'', ''alive'' @ newline, newline]
    = Some ([''{}''], [])"
  using sse_stream_roundtrip [of "[take 7 (sse_frame (Obj [])), drop 7 (sse_frame (Obj [])) @ '': keep'', ''alive'' @ newline, newline]"
      "[Message [], Keepalive]"] by (simp add: sse_frame_def newline_def)

end
