(* ===== verification/Recorder.thy ===== *)
theory Recorder
  imports SseReader SkillClient
begin

text \<open>
  The network recorder, \<open>skill/scripts/record-network.ts\<close>: its configuration, the stop signal and
  the log writer, the table of HTTP requests under way and the table of web sockets, and what each
  network event does to them. Calls to the relay are started here; their answers come later.
\<close>

section \<open>Configuration\<close>

record rec_config =
  cf_relayUrl :: string
  cf_targetId :: "string option"
  cf_outFile :: string
  cf_autoStop :: jsnum
  cf_indent :: jsnum
  cf_allTargets :: bool
  cf_raw :: bool
  cf_http :: bool
  cf_ws :: bool
  cf_httpOnly :: bool
  cf_maxBody :: jsnum
  cf_urlIncludes :: string
  cf_redact :: bool
  cf_maxPayload :: jsnum

definition getPositionalArgs :: "string list \<Rightarrow> string list" where
  "getPositionalArgs args = filter (\<lambda>a. a \<noteq> [] \<and> \<not> prefix ''-'' a) args"

definition getTargetIdFromArgs :: "(string \<Rightarrow> string option) \<Rightarrow> string list \<Rightarrow> string option" where
  "getTargetIdFromArgs env args = (case getPositionalArgs args of
      fromArg # _ \<Rightarrow> Some fromArg
    | [] \<Rightarrow> (case env ''TARGET_ID'' of Some t \<Rightarrow> if t \<noteq> [] then Some t else None | None \<Rightarrow> None))"

definition env_or :: "(string \<Rightarrow> string option) \<Rightarrow> string \<Rightarrow> string \<Rightarrow> string" where
  "env_or env k d = (case env k of Some v \<Rightarrow> v | None \<Rightarrow> d)"

text \<open>\<open>process.env.K ? Number.parseInt(process.env.K, 10) : d\<close>.\<close>

definition env_int :: "(string \<Rightarrow> string option) \<Rightarrow> string \<Rightarrow> jsnum \<Rightarrow> jsnum" where
  "env_int env k d = (case env k of Some v \<Rightarrow> if v \<noteq> [] then parseInt v else d | None \<Rightarrow> d)"

definition parse_trimmed :: "string \<Rightarrow> jsnum" where
  "parse_trimmed s = (if trim s = [] then Fin 0 else parseInt (trim s))"

definition auto_stop :: "(string \<Rightarrow> string option) \<Rightarrow> string list \<Rightarrow> jsnum" where
  "auto_stop env args = (
     let pos = getPositionalArgs args;
         fromArg = parse_trimmed (if 2 < length pos then pos ! 2 else []) in
     if isFinite fromArg \<and> fromArg > Fin 0 then fromArg
     else let fromEnv = parse_trimmed (env_or env ''AUTO_STOP_MS'' []) in
       if isFinite fromEnv then fromEnv else Fin 0)"

definition read_rec_config :: "(string \<Rightarrow> string option) \<Rightarrow> string list \<Rightarrow> rec_config" where
  "read_rec_config env args = (let pos = getPositionalArgs args in \<lparr>
     cf_relayUrl = env_or env ''RELAY_URL'' ''http://localhost:9111'',
     cf_targetId = getTargetIdFromArgs env args,
     cf_outFile = (if 1 < length pos then pos ! 1 else env_or env ''OUT_FILE'' ''network-events.jsonl''),
     cf_autoStop = auto_stop env args,
     cf_indent = env_int env ''JSONL_INDENT'' (Fin 2),
     cf_allTargets = (env ''ALL_TARGETS'' = Some ''1''),
     cf_raw = (env ''RAW'' = Some ''1''),
     cf_http = (env ''INCLUDE_HTTP'' \<noteq> Some ''0''),
     cf_ws = (env ''INCLUDE_WS'' \<noteq> Some ''0''),
     cf_httpOnly = (env ''HTTP_ONLY'' = Some ''1''),
     cf_maxBody = env_int env ''MAX_BODY_CHARS'' (Fin 0),
     cf_urlIncludes = trim (env_or env ''URL_INCLUDES'' []),
     cf_redact = (env ''REDACT_HEADERS'' = Some ''1''),
     cf_maxPayload = env_int env ''MAX_PAYLOAD_CHARS'' (Fin 0)\<rparr>)"

definition rec_target :: "rec_config \<Rightarrow> string" where
  "rec_target cfg = (case cf_targetId cfg of Some t \<Rightarrow> t | None \<Rightarrow> [])"


section \<open>Stop signal and writer\<close>

datatype stop_callback = AbortStream

record stop_signal =
  ss_stopped :: bool
  ss_reason :: "string option"
  ss_callbacks :: "stop_callback list"

text \<open>Both operations give the callbacks that run, and the signal afterwards.\<close>

definition ss_stop :: "string option \<Rightarrow> stop_signal \<Rightarrow> stop_callback list \<times> stop_signal" where
  "ss_stop reason sig = (
     if ss_stopped sig then ([], sig)
     else (ss_callbacks sig, \<lparr>ss_stopped = True,
       ss_reason = Some (case reason of Some s \<Rightarrow> s | None \<Rightarrow> ''stop''), ss_callbacks = []\<rparr>))"

definition ss_onStop :: "stop_callback \<Rightarrow> stop_signal \<Rightarrow> stop_callback list \<times> stop_signal" where
  "ss_onStop cb sig = (
     if ss_stopped sig then ([cb], sig)
     else ([], sig\<lparr>ss_callbacks := ss_callbacks sig @ [cb]\<rparr>))"

text \<open>The writer; \<open>wr_written\<close> records the values whose text went to the stream.\<close>

record jsonl_writer =
  wr_stream :: string
  wr_closed :: bool
  wr_indent :: nat
  wr_first :: bool
  wr_written :: "js list"

definition writer_new :: "nat \<Rightarrow> jsonl_writer" where
  "writer_new indent = \<lparr>wr_stream = [], wr_closed = False, wr_indent = indent, wr_first = True, wr_written = []\<rparr>"

definition writer_write :: "js \<Rightarrow> jsonl_writer \<Rightarrow> jsonl_writer" where
  "writer_write obj w = (
     if wr_closed w then w
     else w\<lparr>wr_first := False,
       wr_stream := wr_stream w @ (if wr_first w then [] else newline) @ stringify_indented (wr_indent w) obj @ newline,
       wr_written := wr_written w @ [obj]\<rparr>)"

definition writer_close :: "jsonl_writer \<Rightarrow> jsonl_writer" where
  "writer_close w = w\<lparr>wr_closed := True\<rparr>"


section \<open>Bodies and headers\<close>

record truncation =
  tr_text :: string
  tr_truncated :: bool
  tr_originalLength :: nat

definition whole :: "string \<Rightarrow> truncation" where
  "whole s = \<lparr>tr_text = s, tr_truncated = False, tr_originalLength = length s\<rparr>"

text \<open>\<open>s.slice(0, n)\<close> for a positive finite \<open>n\<close>.\<close>

definition slice_to :: "jsnum \<Rightarrow> string \<Rightarrow> string" where
  "slice_to n s = (case n of Fin r \<Rightarrow> take (nat \<lfloor>r\<rfloor>) s | _ \<Rightarrow> s)"

definition truncateBody :: "rec_config \<Rightarrow> string \<Rightarrow> truncation" where
  "truncateBody cfg body = (
     if \<not> isFinite (cf_maxBody cfg) \<or> cf_maxBody cfg \<le> Fin 0 then whole body
     else if num_of_nat (length body) \<le> cf_maxBody cfg then whole body
     else \<lparr>tr_text = slice_to (cf_maxBody cfg) body @ newline @ ''[truncated to '' @ num_text (cf_maxBody cfg) @ '' chars]'',
           tr_truncated = True, tr_originalLength = length body\<rparr>)"

definition truncateText :: "rec_config \<Rightarrow> string \<Rightarrow> truncation" where
  "truncateText cfg t = (
     if \<not> truthy (Num (cf_maxPayload cfg)) \<or> cf_maxPayload cfg \<le> Fin 0 then whole t
     else if num_of_nat (length t) \<le> cf_maxPayload cfg then whole t
     else \<lparr>tr_text = slice_to (cf_maxPayload cfg) t, tr_truncated = True, tr_originalLength = length t\<rparr>)"

definition secret_header :: "string \<Rightarrow> bool" where
  "secret_header k \<longleftrightarrow> toLowerCase k \<in> {''cookie'', ''authorization'', ''proxy-authorization''}"

text \<open>Assigning to \<open>__proto__\<close> makes no property of the new object.\<close>

definition redactHeaderMap :: "rec_config \<Rightarrow> js \<Rightarrow> js" where
  "redactHeaderMap cfg headers = (
     if \<not> cf_redact cfg then headers
     else if \<not> is_object headers then headers
     else Obj (map (\<lambda>(k, v). (k, if secret_header k then Str ''[REDACTED]'' else v))
       (filter (\<lambda>(k, v). k \<noteq> ''__proto__'') (entries headers))))"


section \<open>Records\<close>

text \<open>\<open>HttpRecord\<close>. A response gets its properties one by one; \<open>http_meta\<close> are those of the request event.\<close>

record http_request_part =
  q_url :: string
  q_method :: string
  q_headers :: js
  q_headersExtraInfo :: js
  q_extraInfo :: js
  q_referrerPolicy :: js
  q_postData :: js
  q_postDataTruncated :: bool
  q_postDataOriginalLength :: js

record http_record =
  ht_at :: string
  ht_targetId :: js
  ht_requestId :: string
  ht_meta :: "(string \<times> js) list"
  ht_request :: http_request_part
  ht_raw :: "js list option"
  ht_response :: "(string, js) jmap option"
  ht_error :: "js option"

definition request_part_js :: "http_request_part \<Rightarrow> js" where
  "request_part_js q = Obj [(''url'', Str (q_url q)), (''method'', Str (q_method q)), (''headers'', q_headers q),
     (''headersExtraInfo'', q_headersExtraInfo q), (''extraInfo'', q_extraInfo q),
     (''referrerPolicy'', q_referrerPolicy q), (''postData'', q_postData q),
     (''postDataTruncated'', Bool (q_postDataTruncated q)), (''postDataOriginalLength'', q_postDataOriginalLength q)]"

definition http_record_js :: "http_record \<Rightarrow> js" where
  "http_record_js h = Obj (
     [(''type'', Str ''http''), (''at'', Str (ht_at h)), (''targetId'', ht_targetId h), (''requestId'', Str (ht_requestId h))]
     @ ht_meta h @ [(''request'', request_part_js (ht_request h))]
     @ opt_prop ''raw'' (map_option Arr (ht_raw h))
     @ opt_prop ''response'' (map_option Obj (ht_response h))
     @ opt_prop ''error'' (ht_error h))"

record conn_meta =
  cn_requestId :: string
  cn_targetId :: js
  cn_url :: js
  cn_createdAt :: js
  cn_filteredOut :: bool

text \<open>A call to the relay whose answer is awaited, by what is done with the answer.\<close>

datatype rec_task = EnableNetwork | EnablePage | PostData string | ResponseBody string js | DisableNetwork | DisablePage

text \<open>Where \<open>main\<close> and \<open>streamSse\<close> are.\<close>

datatype rec_phase =
    Enabling | Settling | FetchingStream | ReadingStream string | CancellingStream | BackingOff
  | StreamEnded | MainFailed thrown

record recorder =
  rw :: jsonl_writer
  stopSig :: stop_signal
  httpRecords :: "(string, http_record) jmap"
  wsConns :: "(string, conn_meta) jmap"
  cleaned :: bool
  streamAborted :: bool
  inflight :: "(nat, rec_task) jmap"
  nextCall :: nat
  calls :: "js list"
  rec_phase :: rec_phase

definition written :: "recorder \<Rightarrow> js list" where
  "written r = wr_written (rw r)"

definition rec_write :: "js \<Rightarrow> recorder \<Rightarrow> recorder" where
  "rec_write obj r = r\<lparr>rw := writer_write obj (rw r)\<rparr>"

definition start_call :: "rec_task \<Rightarrow> js \<Rightarrow> recorder \<Rightarrow> recorder" where
  "start_call t body r = r\<lparr>inflight := mapSet (inflight r) (nextCall r) t, nextCall := Suc (nextCall r),
     calls := calls r @ [body]\<rparr>"

definition cdp_body :: "string \<Rightarrow> string \<Rightarrow> js \<Rightarrow> js" where
  "cdp_body method tid params = command_body ''cdp''
     (Obj [(''method'', Str method), (''targetId'', Str tid), (''params'', params)])"

definition put_record :: "http_record \<Rightarrow> recorder \<Rightarrow> recorder" where
  "put_record h r = r\<lparr>httpRecords := mapSet (httpRecords r) (ht_requestId h) h\<rparr>"

definition emitHttpAndDelete :: "string \<Rightarrow> recorder \<Rightarrow> recorder" where
  "emitHttpAndDelete requestId r = (case mapGet (httpRecords r) requestId of
      None \<Rightarrow> r
    | Some h \<Rightarrow> (rec_write (http_record_js h) r)\<lparr>httpRecords := mapDelete (httpRecords r) requestId\<rparr>)"

definition push_raw :: "rec_config \<Rightarrow> js \<Rightarrow> http_record \<Rightarrow> http_record" where
  "push_raw cfg rawMsg h = (if cf_raw cfg then h\<lparr>ht_raw := map_option (\<lambda>xs. xs @ [rawMsg]) (ht_raw h)\<rparr> else h)"

definition raw_start :: "rec_config \<Rightarrow> js \<Rightarrow> js list option" where
  "raw_start cfg rawMsg = (if cf_raw cfg then Some [rawMsg] else None)"

definition object_or_null :: "js \<Rightarrow> js" where
  "object_or_null v = (if is_object v then v else Null)"

definition opt_str :: "string option \<Rightarrow> js" where
  "opt_str t = (case t of Some s \<Rightarrow> Str s | None \<Rightarrow> Null)"

definition http_url :: "string \<Rightarrow> bool" where
  "http_url url \<longleftrightarrow> prefix ''http://'' url \<or> prefix ''https://'' url"

text \<open>The record made for a request whose start was not seen.\<close>

definition bare_request :: "string \<Rightarrow> http_request_part" where
  "bare_request url = \<lparr>q_url = url, q_method = [], q_headers = Null, q_headersExtraInfo = Null, q_extraInfo = Null,
     q_referrerPolicy = Null, q_postData = Null, q_postDataTruncated = False, q_postDataOriginalLength = Null\<rparr>"

definition bare_record :: "rec_config \<Rightarrow> string \<Rightarrow> string \<Rightarrow> string option \<Rightarrow> string \<Rightarrow> js \<Rightarrow> http_record" where
  "bare_record cfg now requestId evTargetId url rawMsg = \<lparr>ht_at = now, ht_targetId = opt_str evTargetId,
     ht_requestId = requestId, ht_meta = [], ht_request = bare_request url, ht_raw = raw_start cfg rawMsg,
     ht_response = None, ht_error = None\<rparr>"

end
