(* ===== verification/RecorderEvents.thy ===== *)
theory RecorderEvents
  imports Recorder
begin

text \<open>
  The event handlers of the recorder, \<open>onHttpEvent\<close>, \<open>onWsEvent\<close> and \<open>onMsg\<close> of
  \<open>skill/scripts/record-network.ts\<close>, with what happens when an awaited body arrives. \<open>now\<close> is the
  clock's reading while the handler runs.
\<close>

section \<open>HTTP events\<close>

definition str_of :: "js \<Rightarrow> string" where
  "str_of v = js_String (nullish v (Str []))"

definition on_request :: "rec_config \<Rightarrow> string \<Rightarrow> string \<Rightarrow> js \<Rightarrow> string option \<Rightarrow> js \<Rightarrow> recorder \<Rightarrow> recorder" where
  "on_request cfg now requestId evParams evTargetId rawMsg r = (
     let req = js_get evParams ''request''; url = str_of (js_get req ''url'') in
     if cf_httpOnly cfg \<and> \<not> http_url url then r
     else
       let h = \<lparr>ht_at = now, ht_targetId = opt_str evTargetId, ht_requestId = requestId,
             ht_meta = map (\<lambda>k. (k, nullish (js_get evParams k) Null)) [''loaderId'', ''frameId'', ''documentURL'', ''initiator''],
             ht_request = \<lparr>q_url = url, q_method = str_of (js_get req ''method''),
               q_headers = object_or_null (js_get req ''headers''), q_headersExtraInfo = Null, q_extraInfo = Null,
               q_referrerPolicy = nullish (js_get req ''referrerPolicy'') Null, q_postData = Null,
               q_postDataTruncated = False, q_postDataOriginalLength = Null\<rparr>,
             ht_raw = raw_start cfg rawMsg, ht_response = None, ht_error = None\<rparr>;
           r1 = put_record h r;
           methodUpper = toUpperCase (str_of (js_get req ''method''));
           shouldTryPost = (truthy (js_get req ''hasPostData'') \<or> (methodUpper \<noteq> ''GET'' \<and> methodUpper \<noteq> ''HEAD''));
           tid = (case evTargetId of Some t \<Rightarrow> t | None \<Rightarrow> rec_target cfg)
       in if shouldTryPost \<and> tid \<noteq> [] then
            start_call (PostData requestId)
              (cdp_body ''Network.getRequestPostData'' tid (Obj [(''requestId'', Str requestId)])) r1
          else r1)"

text \<open>\<open>fetchRequestPostData\<close> after its call, and what follows it.\<close>

definition post_data_of :: "rec_config \<Rightarrow> thrown + js \<Rightarrow> truncation option" where
  "post_data_of cfg answer = (case answer of
      Inl e \<Rightarrow> None
    | Inr resp \<Rightarrow>
        if \<not> truthy resp \<or> \<not> truthy (js_get resp ''ok'') then None
        else let postData = js_get (js_get resp ''result'') ''postData'' in
          if is_str postData then Some (truncateBody cfg (the_str postData)) else None)"

definition on_post_data :: "rec_config \<Rightarrow> string \<Rightarrow> thrown + js \<Rightarrow> recorder \<Rightarrow> recorder" where
  "on_post_data cfg requestId answer r = (case mapGet (httpRecords r) requestId of
      None \<Rightarrow> r
    | Some current \<Rightarrow> (case post_data_of cfg answer of
          None \<Rightarrow> r
        | Some t \<Rightarrow> put_record (current\<lparr>ht_request := (ht_request current)\<lparr>q_postData := Str (tr_text t),
             q_postDataTruncated := tr_truncated t,
             q_postDataOriginalLength := Num (num_of_nat (tr_originalLength t))\<rparr>\<rparr>) r))"

definition on_request_extra :: "rec_config \<Rightarrow> string \<Rightarrow> js \<Rightarrow> js \<Rightarrow> recorder \<Rightarrow> recorder" where
  "on_request_extra cfg requestId evParams rawMsg r = (case mapGet (httpRecords r) requestId of
      None \<Rightarrow> r
    | Some current \<Rightarrow>
        let hdrs = js_get evParams ''headers'';
            q = ht_request current;
            q1 = (if is_object hdrs then q\<lparr>q_headersExtraInfo := hdrs\<rparr> else q)
        in put_record (push_raw cfg rawMsg
             (current\<lparr>ht_request := q1\<lparr>q_extraInfo := nullish evParams Null\<rparr>\<rparr>)) r)"

definition response_part :: "js \<Rightarrow> string \<Rightarrow> js \<Rightarrow> (string, js) jmap" where
  "response_part resp url old = (
     let num_or_null = (\<lambda>v. if is_num v then v else Null) in
     [(''url'', Str url), (''status'', num_or_null (js_get resp ''status'')),
      (''statusText'', nullish (js_get resp ''statusText'') Null), (''mimeType'', nullish (js_get resp ''mimeType'') Null),
      (''protocol'', nullish (js_get resp ''protocol'') Null),
      (''remoteIPAddress'', nullish (js_get resp ''remoteIPAddress'') Null),
      (''remotePort'', num_or_null (js_get resp ''remotePort'')),
      (''fromDiskCache'', Bool (truthy (js_get resp ''fromDiskCache''))),
      (''fromServiceWorker'', Bool (truthy (js_get resp ''fromServiceWorker''))),
      (''headers'', object_or_null (js_get resp ''headers'')),
      (''headersExtraInfo'', nullish (js_get old ''headersExtraInfo'') Null),
      (''extraInfo'', nullish (js_get old ''extraInfo'') Null),
      (''body'', nullish (js_get old ''body'') Null),
      (''bodyBase64Encoded'', nullish (js_get old ''bodyBase64Encoded'') (Bool False)),
      (''bodyTruncated'', nullish (js_get old ''bodyTruncated'') (Bool False)),
      (''bodyOriginalLength'', nullish (js_get old ''bodyOriginalLength'') Null),
      (''bodyError'', nullish (js_get old ''bodyError'') Null)])"

definition response_js :: "http_record \<Rightarrow> js" where
  "response_js h = (case ht_response h of None \<Rightarrow> Undefined | Some m \<Rightarrow> Obj m)"

definition on_response :: "rec_config \<Rightarrow> string \<Rightarrow> string \<Rightarrow> js \<Rightarrow> string option \<Rightarrow> js \<Rightarrow> recorder \<Rightarrow> recorder" where
  "on_response cfg now requestId evParams evTargetId rawMsg r = (
     let resp = js_get evParams ''response''; url = str_of (js_get resp ''url'') in
     if cf_httpOnly cfg \<and> \<not> http_url url then r
     else
       let current = (case mapGet (httpRecords r) requestId of
              Some h \<Rightarrow> h | None \<Rightarrow> bare_record cfg now requestId evTargetId url rawMsg)
       in put_record (current\<lparr>ht_targetId := nullish (ht_targetId current) (opt_str evTargetId),
            ht_response := Some (response_part resp url (response_js current))\<rparr>) r)"

definition on_response_extra :: "rec_config \<Rightarrow> string \<Rightarrow> js \<Rightarrow> js \<Rightarrow> recorder \<Rightarrow> recorder" where
  "on_response_extra cfg requestId evParams rawMsg r = (case mapGet (httpRecords r) requestId of
      None \<Rightarrow> r
    | Some current \<Rightarrow>
        let hdrs = js_get evParams ''headers'';
            resp1 = (if is_object hdrs then
                (case ht_response current of
                   None \<Rightarrow> Some [(''headers'', Null), (''headersExtraInfo'', hdrs)]
                 | Some m \<Rightarrow> Some (mapSet m ''headersExtraInfo'' hdrs))
              else ht_response current);
            resp2 = (case resp1 of None \<Rightarrow> [] | Some m \<Rightarrow> m)
        in put_record (push_raw cfg rawMsg
             (current\<lparr>ht_response := Some (mapSet resp2 ''extraInfo'' (nullish evParams Null))\<rparr>)) r)"

text \<open>\<open>fetchResponseBody\<close> after its call.\<close>

record body_result =
  br_body :: "truncation option"
  br_base64 :: bool
  br_error :: js

definition response_body_of :: "rec_config \<Rightarrow> thrown + js \<Rightarrow> body_result" where
  "response_body_of cfg answer = (
     let failed = (\<lambda>b e. \<lparr>br_body = None, br_base64 = b, br_error = e\<rparr>);
         resp = (case answer of
            Inr v \<Rightarrow> v
          | Inl error \<Rightarrow> Obj [(''ok'', Bool False), (''result'', Null),
              (''error'', Str (case error of Exn m ps \<Rightarrow> m | Thrown v \<Rightarrow> js_String v)), (''errorInfo'', Null)])
     in if \<not> truthy resp then failed False (Str ''cdp_call_failed'')
        else if \<not> truthy (js_get resp ''ok'') then failed False (rec_formatRelayError resp)
        else let body = js_get (js_get resp ''result'') ''body'';
                 base64Encoded = truthy (js_get (js_get resp ''result'') ''base64Encoded'')
          in if \<not> is_str body then failed base64Encoded (Str ''response_body_not_string'')
             else \<lparr>br_body = Some (truncateBody cfg (the_str body)), br_base64 = base64Encoded, br_error = Null\<rparr>)"

definition with_body :: "body_result \<Rightarrow> (string, js) jmap \<Rightarrow> (string, js) jmap" where
  "with_body b m = (
     let m1 = (case br_body b of
           None \<Rightarrow> m
         | Some t \<Rightarrow> mapSet (mapSet (mapSet (mapSet m ''body'' (Str (tr_text t)))
             ''bodyBase64Encoded'' (Bool (br_base64 b))) ''bodyTruncated'' (Bool (tr_truncated t)))
             ''bodyOriginalLength'' (Num (num_of_nat (tr_originalLength t))))
     in if truthy (br_error b) then mapSet m1 ''bodyError'' (br_error b) else m1)"

definition on_response_body :: "rec_config \<Rightarrow> string \<Rightarrow> js \<Rightarrow> thrown + js \<Rightarrow> recorder \<Rightarrow> recorder" where
  "on_response_body cfg requestId rawMsg answer r = (case mapGet (httpRecords r) requestId of
      None \<Rightarrow> r
    | Some h \<Rightarrow>
        let m = (case ht_response h of None \<Rightarrow> [] | Some m \<Rightarrow> m)
        in emitHttpAndDelete requestId (put_record (push_raw cfg rawMsg
             (h\<lparr>ht_response := Some (with_body (response_body_of cfg answer) m)\<rparr>)) r))"

definition on_finished :: "rec_config \<Rightarrow> string \<Rightarrow> string option \<Rightarrow> js \<Rightarrow> recorder \<Rightarrow> recorder" where
  "on_finished cfg requestId evTargetId rawMsg r = (case mapGet (httpRecords r) requestId of
      None \<Rightarrow> r
    | Some current \<Rightarrow>
        let tid = nullish (nullish (opt_str evTargetId) (ht_targetId current)) (Str (rec_target cfg)) in
        if truthy tid then
          start_call (ResponseBody requestId rawMsg)
            (cdp_body ''Network.getResponseBody'' (the_str tid) (Obj [(''requestId'', Str requestId)])) r
        else emitHttpAndDelete requestId (put_record (push_raw cfg rawMsg current) r))"

definition on_failed :: "rec_config \<Rightarrow> string \<Rightarrow> string \<Rightarrow> js \<Rightarrow> string option \<Rightarrow> js \<Rightarrow> recorder \<Rightarrow> recorder" where
  "on_failed cfg now requestId evParams evTargetId rawMsg r = (
     let current = (case mapGet (httpRecords r) requestId of
           Some h \<Rightarrow> h | None \<Rightarrow> bare_record cfg now requestId evTargetId [] rawMsg);
         failure = Obj [(''errorText'', nullish (js_get evParams ''errorText'') Null),
           (''canceled'', Bool (truthy (js_get evParams ''canceled''))),
           (''blockedReason'', nullish (js_get evParams ''blockedReason'') Null)]
     in emitHttpAndDelete requestId (put_record (push_raw cfg rawMsg (current\<lparr>ht_error := Some failure\<rparr>)) r))"

definition on_other_http :: "rec_config \<Rightarrow> string \<Rightarrow> js \<Rightarrow> recorder \<Rightarrow> recorder" where
  "on_other_http cfg requestId rawMsg r = (case mapGet (httpRecords r) requestId of
      None \<Rightarrow> r
    | Some current \<Rightarrow> if cf_raw cfg then put_record (push_raw cfg rawMsg current) r else r)"

definition onHttpEvent ::
  "rec_config \<Rightarrow> string \<Rightarrow> string \<Rightarrow> js \<Rightarrow> string option \<Rightarrow> js \<Rightarrow> recorder \<Rightarrow> recorder" where
  "onHttpEvent cfg now evMethod evParams evTargetId rawMsg r = (
     let requestId = str_of (js_get evParams ''requestId'') in
     if \<not> cf_http cfg \<or> prefix ''Network.webSocket'' evMethod \<or> requestId = [] then r
     else if evMethod = ''Network.requestWillBeSent'' then on_request cfg now requestId evParams evTargetId rawMsg r
     else if evMethod = ''Network.requestWillBeSentExtraInfo'' then on_request_extra cfg requestId evParams rawMsg r
     else if evMethod = ''Network.responseReceived'' then on_response cfg now requestId evParams evTargetId rawMsg r
     else if evMethod = ''Network.responseReceivedExtraInfo'' then on_response_extra cfg requestId evParams rawMsg r
     else if evMethod = ''Network.loadingFinished'' then on_finished cfg requestId evTargetId rawMsg r
     else if evMethod = ''Network.loadingFailed'' then on_failed cfg now requestId evParams evTargetId rawMsg r
     else on_other_http cfg requestId rawMsg r)"


section \<open>Web socket events\<close>

definition put_conn :: "conn_meta \<Rightarrow> recorder \<Rightarrow> recorder" where
  "put_conn c r = r\<lparr>wsConns := mapSet (wsConns r) (cn_requestId c) c\<rparr>"

definition getWsConn :: "string \<Rightarrow> string option \<Rightarrow> recorder \<Rightarrow> conn_meta" where
  "getWsConn requestId evTargetId r = (case mapGet (wsConns r) requestId of
      Some existing \<Rightarrow>
        if \<not> truthy (cn_targetId existing) \<and> truthy (opt_str evTargetId)
        then existing\<lparr>cn_targetId := opt_str evTargetId\<rparr> else existing
    | None \<Rightarrow> \<lparr>cn_requestId = requestId, cn_targetId = opt_str evTargetId, cn_url = Null, cn_createdAt = Null,
        cn_filteredOut = False\<rparr>)"

text \<open>\<open>isWsFilteredOut\<close> remembers its answer in the connection.\<close>

definition isWsFilteredOut :: "rec_config \<Rightarrow> conn_meta \<Rightarrow> bool \<times> conn_meta" where
  "isWsFilteredOut cfg conn = (
     if cn_filteredOut conn then (True, conn)
     else if cf_urlIncludes cfg = [] then (False, conn)
     else if \<not> truthy (cn_url conn) then (False, conn)
     else let out = \<not> str_includes (the_str (cn_url conn)) (cf_urlIncludes cfg)
       in (out, conn\<lparr>cn_filteredOut := out\<rparr>))"

definition raw_prop :: "rec_config \<Rightarrow> js \<Rightarrow> (string \<times> js) list" where
  "raw_prop cfg rawMsg = (if cf_raw cfg then [(''raw'', nullish rawMsg Null)] else [])"

definition ws_line :: "rec_config \<Rightarrow> string \<Rightarrow> string \<Rightarrow> conn_meta \<Rightarrow> (string \<times> js) list \<Rightarrow> js \<Rightarrow> js" where
  "ws_line cfg kind now conn ps rawMsg = Obj (
     [(''type'', Str kind), (''at'', Str now), (''targetId'', cn_targetId conn),
      (''requestId'', Str (cn_requestId conn)), (''url'', cn_url conn)] @ ps @ raw_prop cfg rawMsg)"

definition num_prop :: "js \<Rightarrow> string \<Rightarrow> js" where
  "num_prop v k = (if is_num (js_get v k) then js_get v k else Null)"

definition str_prop :: "js \<Rightarrow> string \<Rightarrow> js" where
  "str_prop v k = (if is_str (js_get v k) then js_get v k else Null)"

text \<open>The lines of the events after the creation: their type and their own properties; none for other events.\<close>

definition ws_event_part :: "rec_config \<Rightarrow> string \<Rightarrow> js \<Rightarrow> (string \<times> (string \<times> js) list) option" where
  "ws_event_part cfg evMethod evParams = (
     let stamp = (''timestamp'', num_prop evParams ''timestamp'');
         resp = js_get evParams ''response'' in
     if evMethod = ''Network.webSocketWillSendHandshakeRequest'' then Some (''ws_handshake_request'',
       [stamp, (''request'', Obj [(''headers'',
          redactHeaderMap cfg (nullish (js_get (js_get evParams ''request'') ''headers'') Null))])])
     else if evMethod = ''Network.webSocketHandshakeResponseReceived'' then Some (''ws_handshake_response'',
       [stamp, (''response'', Obj [(''status'', num_prop resp ''status''), (''statusText'', str_prop resp ''statusText''),
          (''headers'', redactHeaderMap cfg (nullish (js_get resp ''headers'') Null)),
          (''headersText'', str_prop resp ''headersText'')])])
     else if evMethod = ''Network.webSocketFrameSent'' \<or> evMethod = ''Network.webSocketFrameReceived'' then
       let trunc = truncateText cfg (if is_str (js_get resp ''payloadData'') then the_str (js_get resp ''payloadData'') else [])
       in Some (''ws_frame'',
         [(''direction'', Str (if suffix ''Sent'' evMethod then ''sent'' else ''received'')), stamp,
          (''opcode'', num_prop resp ''opcode''),
          (''mask'', if is_bool (js_get resp ''mask'') then js_get resp ''mask'' else Null),
          (''payloadData'', Str (tr_text trunc)), (''payloadTruncated'', Bool (tr_truncated trunc)),
          (''payloadOriginalLength'', Num (num_of_nat (tr_originalLength trunc)))])
     else if evMethod = ''Network.webSocketClosed'' then Some (''ws_closed'', [stamp])
     else if evMethod = ''Network.webSocketFrameError'' then Some (''ws_frame_error'',
       [stamp, (''errorMessage'', str_prop evParams ''errorMessage'')])
     else None)"

definition ws_event_line :: "rec_config \<Rightarrow> string \<Rightarrow> string \<Rightarrow> js \<Rightarrow> conn_meta \<Rightarrow> js \<Rightarrow> js option" where
  "ws_event_line cfg now evMethod evParams conn rawMsg =
     map_option (\<lambda>(kind, ps). ws_line cfg kind now conn ps rawMsg) (ws_event_part cfg evMethod evParams)"

definition on_ws_created :: "rec_config \<Rightarrow> string \<Rightarrow> js \<Rightarrow> conn_meta \<Rightarrow> js \<Rightarrow> recorder \<Rightarrow> recorder" where
  "on_ws_created cfg now evParams conn rawMsg r = (
     let url = str_prop evParams ''url'';
         c1 = conn\<lparr>cn_url := nullish (cn_url conn) url, cn_createdAt := nullish (cn_createdAt conn) (Str now)\<rparr>;
         (out, c2) = isWsFilteredOut cfg c1;
         r1 = put_conn c2 r
     in if out then r1
        else rec_write (ws_line cfg ''ws_created'' now c2
          [(''initiator'', nullish (js_get evParams ''initiator'') Null)] rawMsg) r1)"

definition on_ws_other :: "rec_config \<Rightarrow> string \<Rightarrow> string \<Rightarrow> js \<Rightarrow> conn_meta \<Rightarrow> js \<Rightarrow> recorder \<Rightarrow> recorder" where
  "on_ws_other cfg now evMethod evParams conn rawMsg r = (
     let c1 = (if is_str (js_get evParams ''url'') \<and> \<not> truthy (cn_url conn)
               then conn\<lparr>cn_url := js_get evParams ''url''\<rparr> else conn);
         (out, c2) = isWsFilteredOut cfg c1;
         r1 = put_conn c2 r
     in if out then r1
        else
          let r2 = (case ws_event_line cfg now evMethod evParams c2 rawMsg of None \<Rightarrow> r1 | Some l \<Rightarrow> rec_write l r1)
          in if evMethod = ''Network.webSocketClosed''
             then r2\<lparr>wsConns := mapDelete (wsConns r2) (cn_requestId c2)\<rparr> else r2)"

definition onWsEvent ::
  "rec_config \<Rightarrow> string \<Rightarrow> string \<Rightarrow> js \<Rightarrow> string option \<Rightarrow> js \<Rightarrow> recorder \<Rightarrow> recorder" where
  "onWsEvent cfg now evMethod evParams evTargetId rawMsg r = (
     let requestId = str_of (js_get evParams ''requestId'') in
     if \<not> cf_ws cfg \<or> \<not> prefix ''Network.webSocket'' evMethod \<or> requestId = [] then r
     else let conn = getWsConn requestId evTargetId r in
       if evMethod = ''Network.webSocketCreated'' then on_ws_created cfg now evParams conn rawMsg r
       else on_ws_other cfg now evMethod evParams conn rawMsg r)"


section \<open>Messages of the stream\<close>

text \<open>
  \<open>onMsg\<close>. \<open>None\<close> when it throws: a method that is not a string has no \<open>startsWith\<close>, and one of the
  two handlers, which are never both off, calls it.
\<close>

definition onMsg :: "rec_config \<Rightarrow> string \<Rightarrow> js \<Rightarrow> recorder \<Rightarrow> recorder option" where
  "onMsg cfg now msg r = (
     let method = js_get msg ''method''; params = js_get msg ''params'' in
     if method = Str ''sse_parse_error'' then
       Some (rec_write (Obj [(''type'', Str ''sse_parse_error''), (''at'', Str now), (''raw'', js_get msg ''raw'')]) r)
     else if method = Str ''status'' then
       Some (rec_write (Obj (spread [(''type'', Str ''status''), (''at'', Str now)] (entries msg))) r)
     else if method \<noteq> Str ''forwardCDPEvent'' then Some r
     else
       let evMethod = js_get params ''method''; evParams = js_get params ''params'';
           evTargetId = (if is_str (js_get params ''targetId'') then Some (the_str (js_get params ''targetId'')) else None)
       in if \<not> truthy evMethod then Some r
          else if \<not> cf_allTargets cfg \<and> evTargetId \<notin> {None, Some [], Some (rec_target cfg)} then Some r
          else if \<not> is_str evMethod then None
          else Some (onWsEvent cfg now (the_str evMethod) evParams evTargetId msg
             (onHttpEvent cfg now (the_str evMethod) evParams evTargetId msg r)))"

text \<open>One event text, with the \<open>try\<close> around its parsing and handling.\<close>

definition sse_parse_error :: "string \<Rightarrow> js" where
  "sse_parse_error dataText = Obj [(''method'', Str ''sse_parse_error''), (''raw'', Str dataText)]"

definition deliver :: "rec_config \<Rightarrow> json_parser \<Rightarrow> string \<Rightarrow> string \<Rightarrow> recorder \<Rightarrow> recorder" where
  "deliver cfg parse now dataText r = (
     let handled = (case parse dataText of Inl e \<Rightarrow> None | Inr msg \<Rightarrow> onMsg cfg now msg r)
     in case handled of
          Some r1 \<Rightarrow> r1
        | None \<Rightarrow> (case onMsg cfg now (sse_parse_error dataText) r of Some r1 \<Rightarrow> r1 | None \<Rightarrow> r))"

fun deliver_all :: "rec_config \<Rightarrow> json_parser \<Rightarrow> string \<Rightarrow> string list \<Rightarrow> recorder \<Rightarrow> recorder" where
  "deliver_all cfg parse now [] r = r"
| "deliver_all cfg parse now (t # ts) r = deliver_all cfg parse now ts (deliver cfg parse now t r)"

end
