(* ===== verification/RecorderRun.thy ===== *)
theory RecorderRun
  imports RecorderEvents
begin

text \<open>
  The recorder as a process, \<open>main\<close> and \<open>streamSse\<close> of \<open>skill/scripts/record-network.ts\<close>: starting,
  the connection to the event stream with its retries, the answers of the relay, stopping and the
  cleanup. It is a machine over what the process awaits: each event ends one await. A fetch or a read
  that was aborted delivers nothing more.
\<close>

section \<open>Stopping\<close>

fun run_callbacks :: "stop_callback list \<Rightarrow> recorder \<Rightarrow> recorder" where
  "run_callbacks [] r = r"
| "run_callbacks (AbortStream # cbs) r = run_callbacks cbs (r\<lparr>streamAborted := True\<rparr>)"

definition stop_line :: "string \<Rightarrow> string \<Rightarrow> js" where
  "stop_line now reason = Obj [(''type'', Str ''recorder_stop''), (''at'', Str now), (''reason'', Str reason)]"

definition flush_records :: "recorder \<Rightarrow> recorder" where
  "flush_records r = fold emitHttpAndDelete (mapKeys (httpRecords r)) r"

text \<open>\<open>cleanup\<close> up to its first await.\<close>

definition rec_cleanup :: "rec_config \<Rightarrow> string \<Rightarrow> string \<Rightarrow> recorder \<Rightarrow> recorder" where
  "rec_cleanup cfg now reason r = (
     if cleaned r then r
     else
       let (cbs, sig) = ss_stop (Some reason) (stopSig r);
           r1 = run_callbacks cbs (r\<lparr>cleaned := True, stopSig := sig\<rparr>);
           r2 = rec_write (stop_line now reason) (flush_records r1)
       in start_call DisableNetwork (cdp_body ''Network.disable'' (rec_target cfg) (Obj [])) r2)"


section \<open>The event stream\<close>

definition isAbortError :: "thrown \<Rightarrow> bool" where
  "isAbortError err = (
     let anyErr = thrown_view err; msg = js_get anyErr ''message'' in
     if \<not> truthy anyErr then False
     else if js_get anyErr ''name'' = Str ''AbortError'' then True
     else is_str msg \<and> (str_includes (the_str msg) ''aborted'' \<or> str_includes (the_str msg) ''AbortError''))"

text \<open>\<open>streamSse\<close> returns; \<open>main\<close> cleans up.\<close>

definition stream_end :: "rec_config \<Rightarrow> string \<Rightarrow> recorder \<Rightarrow> recorder" where
  "stream_end cfg now r = (rec_cleanup cfg now
     (case ss_reason (stopSig r) of Some s \<Rightarrow> s | None \<Rightarrow> ''stream_end'') r)\<lparr>rec_phase := StreamEnded\<rparr>"

definition loop_head :: "rec_config \<Rightarrow> string \<Rightarrow> recorder \<Rightarrow> recorder" where
  "loop_head cfg now r = (
     if ss_stopped (stopSig r) then stream_end cfg now r else r\<lparr>rec_phase := FetchingStream\<rparr>)"

definition backoff :: "rec_config \<Rightarrow> string \<Rightarrow> recorder \<Rightarrow> recorder" where
  "backoff cfg now r = (
     if ss_stopped (stopSig r) then loop_head cfg now r else r\<lparr>rec_phase := BackingOff\<rparr>)"

definition stream_error :: "rec_config \<Rightarrow> string \<Rightarrow> thrown \<Rightarrow> recorder \<Rightarrow> recorder" where
  "stream_error cfg now err r = (
     if streamAborted r \<or> ss_stopped (stopSig r) \<or> isAbortError err then stream_end cfg now r
     else backoff cfg now r)"

definition read_head :: "string \<Rightarrow> recorder \<Rightarrow> recorder" where
  "read_head buffer r = r\<lparr>rec_phase := (if ss_stopped (stopSig r) then CancellingStream else ReadingStream buffer)\<rparr>"

definition on_stream_chunk :: "rec_config \<Rightarrow> json_parser \<Rightarrow> string \<Rightarrow> string \<Rightarrow> string \<Rightarrow> recorder \<Rightarrow> recorder" where
  "on_stream_chunk cfg parse now buffer text r = (case sse_drain (buffer @ text) of
      None \<Rightarrow> r
    | Some (texts, rest) \<Rightarrow> read_head rest (deliver_all cfg parse now texts r))"

definition on_read_fails :: "rec_config \<Rightarrow> string \<Rightarrow> thrown \<Rightarrow> recorder \<Rightarrow> recorder" where
  "on_read_fails cfg now err r = (
     if streamAborted r \<or> ss_stopped (stopSig r) \<or> isAbortError err then r\<lparr>rec_phase := CancellingStream\<rparr>
     else stream_error cfg now err r)"

text \<open>After the pause of \<open>main\<close>: \<open>streamSse\<close> is entered.\<close>

definition stream_begin :: "rec_config \<Rightarrow> string \<Rightarrow> recorder \<Rightarrow> recorder" where
  "stream_begin cfg now r = (
     let (cbs, sig) = ss_onStop AbortStream (stopSig r)
     in loop_head cfg now (run_callbacks cbs (r\<lparr>stopSig := sig\<rparr>)))"


section \<open>Starting\<close>

definition rec_indent :: "rec_config \<Rightarrow> nat" where
  "rec_indent cfg = (case cf_indent cfg of Fin i \<Rightarrow> nat \<lfloor>i\<rfloor> | _ \<Rightarrow> 2)"

definition start_line :: "rec_config \<Rightarrow> string \<Rightarrow> js" where
  "start_line cfg now = Obj [(''type'', Str ''recorder_start''), (''at'', Str now),
     (''relayUrl'', Str (cf_relayUrl cfg)), (''outFile'', Str (cf_outFile cfg)),
     (''jsonlIndent'', Num (num_of_nat (rec_indent cfg))), (''targetId'', Str (rec_target cfg)),
     (''allTargets'', Bool (cf_allTargets cfg)), (''raw'', Bool (cf_raw cfg)), (''includeHttp'', Bool (cf_http cfg)),
     (''includeWs'', Bool (cf_ws cfg)), (''httpOnly'', Bool (cf_httpOnly cfg)), (''maxBodyChars'', Num (cf_maxBody cfg)),
     (''urlIncludes'', if cf_urlIncludes cfg = [] then Null else Str (cf_urlIncludes cfg)),
     (''maxPayloadChars'', Num (cf_maxPayload cfg)), (''redactHeaders'', Bool (cf_redact cfg))]"

definition recorder_new :: "rec_config \<Rightarrow> recorder" where
  "recorder_new cfg = \<lparr>rw = writer_new (rec_indent cfg),
     stopSig = \<lparr>ss_stopped = False, ss_reason = None, ss_callbacks = []\<rparr>,
     httpRecords = [], wsConns = [], cleaned = False, streamAborted = False, inflight = [], nextCall = 0,
     calls = [], rec_phase = Enabling\<rparr>"

text \<open>\<open>main\<close> up to the first command, given the answer of the health check.\<close>

definition rec_main :: "rec_config \<Rightarrow> json_parser \<Rightarrow> thrown \<Rightarrow> fetched \<Rightarrow> string \<Rightarrow> thrown + recorder" where
  "rec_main cfg parse te health now = (
     if \<not> cf_http cfg \<and> \<not> cf_ws cfg then Inl (newError ''Both INCLUDE_HTTP and INCLUDE_WS are disabled.'')
     else if \<not> suffix ''.jsonl'' (toLowerCase (cf_outFile cfg)) then
       Inl (newError (''OUT_FILE must end with .jsonl (got: '' @ cf_outFile cfg @ ''). This recorder only writes JSONL.''))
     else if rec_target cfg = [] then
       Inl (newError ''Missing targetId. Usage: bun .agents/skills/vibe-browser/scripts/record-network.ts <targetId> (or set env TARGET_ID)'')
     else case rec_assertRelayHealthy parse te (cf_relayUrl cfg) health of
         Inl e \<Rightarrow> Inl e
       | Inr u \<Rightarrow> Inr (start_call EnableNetwork (cdp_body ''Network.enable'' (rec_target cfg) (Obj []))
           (rec_write (start_line cfg now) (recorder_new cfg))))"


section \<open>The process\<close>

datatype rec_event =
    CallAnswered nat fetched
  | Settled
  | StreamOpened
  | StreamRefused nat string
  | StreamWithoutBody
  | StreamFetchFails thrown
  | StreamChunk string
  | StreamDone
  | StreamReadFails thrown
  | StreamCancelled
  | BackoffOver
  | Signal string
  | AutoStop

text \<open>After \<open>Network.enable\<close>: a refusal ends \<open>main\<close>, a success goes on with the next command.\<close>

definition on_network_enabled :: "rec_config \<Rightarrow> thrown \<Rightarrow> thrown + js \<Rightarrow> recorder \<Rightarrow> recorder" where
  "on_network_enabled cfg te outcome r = (case outcome of
      Inl e \<Rightarrow> r\<lparr>rec_phase := MainFailed e\<rparr>
    | Inr enabled \<Rightarrow>
        if is_nullish enabled then r\<lparr>rec_phase := MainFailed te\<rparr>
        else if \<not> truthy (js_get enabled ''ok'') then
          r\<lparr>rec_phase := MainFailed (newError (if truthy (js_get enabled ''error'')
             then js_String (js_get enabled ''error'') else ''Network.enable failed''))\<rparr>
        else start_call EnablePage (cdp_body ''Page.enable'' (rec_target cfg) (Obj [])) r)"

text \<open>What follows an awaited call: in \<open>main\<close>, in the handlers, and in the rest of \<open>cleanup\<close>.\<close>

definition on_call_answered :: "rec_config \<Rightarrow> json_parser \<Rightarrow> thrown \<Rightarrow> string \<Rightarrow> nat \<Rightarrow> fetched \<Rightarrow> recorder \<Rightarrow> recorder" where
  "on_call_answered cfg parse te now k answer r0 = (case mapGet (inflight r0) k of
      None \<Rightarrow> r0
    | Some t \<Rightarrow>
        let r = r0\<lparr>inflight := mapDelete (inflight r0) k\<rparr>; outcome = rec_call parse te answer in
        case t of
          EnableNetwork \<Rightarrow> on_network_enabled cfg te outcome r
        | EnablePage \<Rightarrow> r\<lparr>rec_phase := Settling\<rparr>
        | PostData requestId \<Rightarrow> on_post_data cfg requestId outcome r
        | ResponseBody requestId rawMsg \<Rightarrow> on_response_body cfg requestId rawMsg outcome r
        | DisableNetwork \<Rightarrow> start_call DisablePage (cdp_body ''Page.disable'' (rec_target cfg) (Obj [])) r
        | DisablePage \<Rightarrow> r\<lparr>rw := writer_close (rw r)\<rparr>)"

definition refused_error :: "nat \<Rightarrow> string \<Rightarrow> thrown" where
  "refused_error status body = newError (''SSE HTTP '' @ nat_text status @ '': '' @ body)"

definition stream_step :: "rec_config \<Rightarrow> json_parser \<Rightarrow> string \<Rightarrow> rec_event \<Rightarrow> recorder \<Rightarrow> recorder" where
  "stream_step cfg parse now e r = (case (rec_phase r, e) of
      (Settling, Settled) \<Rightarrow> stream_begin cfg now r
    | (FetchingStream, StreamOpened) \<Rightarrow> if streamAborted r then r else read_head [] r
    | (FetchingStream, StreamRefused status body) \<Rightarrow>
        stream_error cfg now (refused_error status body) r
    | (FetchingStream, StreamWithoutBody) \<Rightarrow>
        stream_error cfg now (newError ''SSE response has no body'') r
    | (FetchingStream, StreamFetchFails err) \<Rightarrow> stream_error cfg now err r
    | (ReadingStream buffer, StreamChunk text) \<Rightarrow>
        if streamAborted r then r else on_stream_chunk cfg parse now buffer text r
    | (ReadingStream buffer, StreamDone) \<Rightarrow> r\<lparr>rec_phase := CancellingStream\<rparr>
    | (ReadingStream buffer, StreamReadFails err) \<Rightarrow> on_read_fails cfg now err r
    | (CancellingStream, StreamCancelled) \<Rightarrow> backoff cfg now r
    | (BackingOff, BackoffOver) \<Rightarrow> loop_head cfg now r
    | _ \<Rightarrow> r)"

definition rec_step :: "rec_config \<Rightarrow> json_parser \<Rightarrow> thrown \<Rightarrow> string \<times> rec_event \<Rightarrow> recorder \<Rightarrow> recorder" where
  "rec_step cfg parse te = (\<lambda>(now, e) r. (case rec_phase r of
      MainFailed err \<Rightarrow> r
    | _ \<Rightarrow> (case e of
          CallAnswered k answer \<Rightarrow> on_call_answered cfg parse te now k answer r
        | Signal s \<Rightarrow> rec_cleanup cfg now s r
        | AutoStop \<Rightarrow>
            if isFinite (cf_autoStop cfg) \<and> cf_autoStop cfg > Fin 0
            then rec_cleanup cfg now (''AUTO_STOP_MS='' @ num_text (cf_autoStop cfg)) r else r
        | _ \<Rightarrow> stream_step cfg parse now e r)))"

definition rec_run :: "rec_config \<Rightarrow> json_parser \<Rightarrow> thrown \<Rightarrow> (string \<times> rec_event) list \<Rightarrow> recorder \<Rightarrow> recorder" where
  "rec_run cfg parse te es r = run_events (rec_step cfg parse te) es r"

end
