(* ===== verification/RecorderInvariant.thy ===== *)
theory RecorderInvariant
  imports RecorderRun
begin

text \<open>
  What every handler of the recorder keeps, and from it the invariant of the process: no record
  leaves the table without being written, stopping and cleaning up go together, and the cleanup's
  line is the last one.
\<close>

section \<open>What a handler may do\<close>

definition tracked :: "recorder \<Rightarrow> string \<Rightarrow> bool" where
  "tracked r i \<longleftrightarrow> mapGet (httpRecords r) i \<noteq> None"

text \<open>The file: the text of each line and a line break, with an empty line between two.\<close>

definition file_text :: "nat \<Rightarrow> js list \<Rightarrow> string" where
  "file_text n ls = join newline (map (\<lambda>l. stringify_indented n l @ newline) ls)"

definition writer_ok :: "jsonl_writer \<Rightarrow> bool" where
  "writer_ok w \<longleftrightarrow> wr_stream w = file_text (wr_indent w) (wr_written w) \<and> (wr_first w \<longleftrightarrow> wr_written w = [])"

lemma join_snoc: "join sep (xs @ [x]) = (if xs = [] then x else join sep xs @ sep @ x)"
  by (induction sep xs rule: join.induct) auto

lemma writer_ok_write: "writer_ok w \<Longrightarrow> writer_ok (writer_write l w)"
  by (auto simp: writer_ok_def writer_write_def file_text_def join_snoc)

text \<open>The table is keyed by the request ids, and the file is what was written.\<close>

definition keyed :: "recorder \<Rightarrow> bool" where
  "keyed r \<longleftrightarrow> mapWf (httpRecords r) \<and> (\<forall>i h. mapGet (httpRecords r) i = Some h \<longrightarrow> ht_requestId h = i)
     \<and> writer_ok (rw r)"

text \<open>Lines are only added, and a record that is gone from the table is among the added ones.\<close>

definition record_line :: "string \<Rightarrow> js \<Rightarrow> bool" where
  "record_line i l \<longleftrightarrow> (\<exists>h. l = http_record_js h \<and> ht_requestId h = i)"

definition kept :: "recorder \<Rightarrow> recorder \<Rightarrow> bool" where
  "kept r r' \<longleftrightarrow> (\<exists>new. written r' = written r @ new
     \<and> (\<forall>i. tracked r i \<longrightarrow> tracked r' i \<or> (\<exists>l \<in> set new. record_line i l)))"

lemma kept_refl [simp]: "kept r r"
  by (simp add: kept_def)

lemma kept_trans: "kept a b \<Longrightarrow> kept b c \<Longrightarrow> kept a c"
  unfolding kept_def
proof (elim exE conjE)
  fix new new'
  assume w: "written b = written a @ new" "written c = written b @ new'"
    and k: "\<forall>i. tracked a i \<longrightarrow> tracked b i \<or> (\<exists>l\<in>set new. record_line i l)"
      "\<forall>i. tracked b i \<longrightarrow> tracked c i \<or> (\<exists>l\<in>set new'. record_line i l)"
  from w have "written c = written a @ (new @ new')" by simp
  moreover from k have "\<forall>i. tracked a i \<longrightarrow> tracked c i \<or> (\<exists>l\<in>set (new @ new'). record_line i l)" by auto
  ultimately show "\<exists>new. written c = written a @ new \<and> (\<forall>i. tracked a i \<longrightarrow> tracked c i \<or> (\<exists>l\<in>set new. record_line i l))"
    by blast
qed

fun fetch_task :: "rec_task \<Rightarrow> bool" where
  "fetch_task (PostData i) = True"
| "fetch_task (ResponseBody i m) = True"
| "fetch_task _ = False"

definition moves :: "recorder \<Rightarrow> recorder \<Rightarrow> bool" where
  "moves r r' \<longleftrightarrow> stopSig r' = stopSig r \<and> cleaned r' = cleaned r \<and> streamAborted r' = streamAborted r
     \<and> rec_phase r' = rec_phase r \<and> wr_closed (rw r') = wr_closed (rw r)
     \<and> wr_indent (rw r') = wr_indent (rw r)
     \<and> (\<forall>k t. mapGet (inflight r') k = Some t \<longrightarrow> mapGet (inflight r) k = Some t \<or> fetch_task t)
     \<and> (keyed r \<longrightarrow> keyed r' \<and> (\<not> wr_closed (rw r) \<longrightarrow> kept r r'))"

lemma moves_fields:
  assumes "moves r r'"
  shows "stopSig r' = stopSig r" "cleaned r' = cleaned r" "streamAborted r' = streamAborted r" "rec_phase r' = rec_phase r"
    "wr_closed (rw r') = wr_closed (rw r)" "wr_indent (rw r') = wr_indent (rw r)"
  using assms by (simp_all add: moves_def)

lemma moves_keyed: "moves r r' \<Longrightarrow> keyed r \<Longrightarrow> keyed r'"
  by (simp add: moves_def)

lemma keyed_writer: "keyed r \<Longrightarrow> writer_ok (rw r)"
  by (simp add: keyed_def)

lemma moves_refl [simp]: "moves r r"
  by (simp add: moves_def)

lemma moves_trans: "moves a b \<Longrightarrow> moves b c \<Longrightarrow> moves a c"
  unfolding moves_def by (metis kept_trans)

lemma written_write: "\<not> wr_closed (rw r) \<Longrightarrow> written (rec_write l r) = written r @ [l]"
  by (simp add: written_def rec_write_def writer_write_def)

lemma writer_write_closed [simp]: "wr_closed (writer_write l w) = wr_closed w" "wr_indent (writer_write l w) = wr_indent w"
  by (simp_all add: writer_write_def)

lemma written_frame [simp]:
  "written (r\<lparr>httpRecords := m\<rparr>) = written r" "written (r\<lparr>wsConns := c\<rparr>) = written r"
  "written (r\<lparr>inflight := f\<rparr>) = written r" "written (r\<lparr>inflight := f, nextCall := n, calls := cs\<rparr>) = written r"
  "written (r\<lparr>rec_phase := p\<rparr>) = written r" "written (r\<lparr>stopSig := g\<rparr>) = written r"
  "written (r\<lparr>cleaned := b\<rparr>) = written r" "written (r\<lparr>streamAborted := b\<rparr>) = written r"
  by (simp_all add: written_def)

lemma rec_write_frame [simp]:
  "stopSig (rec_write l r) = stopSig r" "cleaned (rec_write l r) = cleaned r"
  "streamAborted (rec_write l r) = streamAborted r" "rec_phase (rec_write l r) = rec_phase r"
  "inflight (rec_write l r) = inflight r" "httpRecords (rec_write l r) = httpRecords r"
  "wsConns (rec_write l r) = wsConns r" "nextCall (rec_write l r) = nextCall r"
  "wr_closed (rw (rec_write l r)) = wr_closed (rw r)" "wr_indent (rw (rec_write l r)) = wr_indent (rw r)"
  "rw (rec_write l r) = writer_write l (rw r)" "calls (rec_write l r) = calls r"
  by (simp_all add: rec_write_def)

lemma moves_write: "moves r (rec_write l r)"
  by (auto simp: moves_def keyed_def kept_def tracked_def written_write writer_ok_write)

lemma moves_put: "moves r (put_record h r)"
  by (auto simp: moves_def keyed_def kept_def tracked_def put_record_def)

lemma moves_conn: "moves r (put_conn c r)" "moves r (r\<lparr>wsConns := m\<rparr>)"
  by (auto simp: moves_def keyed_def kept_def tracked_def put_conn_def)

lemma moves_call: "fetch_task t \<Longrightarrow> moves r (start_call t b r)"
  by (auto simp: moves_def keyed_def kept_def tracked_def start_call_def)

lemma moves_emit: "moves r (emitHttpAndDelete i r)"
proof (cases "mapGet (httpRecords r) i")
  case None
  then show ?thesis by (simp add: emitHttpAndDelete_def)
next
  case (Some h)
  let ?r' = "(rec_write (http_record_js h) r)\<lparr>httpRecords := mapDelete (httpRecords r) i\<rparr>"
  have "kept r ?r'" if "keyed r" "\<not> wr_closed (rw r)"
  proof -
    from that Some have "record_line i (http_record_js h)" by (auto simp: record_line_def keyed_def)
    with that show ?thesis unfolding kept_def
      by (intro exI [of _ "[http_record_js h]"]) (auto simp: written_write tracked_def)
  qed
  with Some show ?thesis by (auto simp: emitHttpAndDelete_def moves_def keyed_def writer_ok_write)
qed

lemmas moves_basic = moves_write moves_put moves_conn moves_call moves_emit

lemma moves_put_emit: "moves r (emitHttpAndDelete i (put_record h r))"
  by (rule moves_trans [OF moves_put moves_emit])

lemma moves_put_call: "fetch_task t \<Longrightarrow> moves r (start_call t b (put_record h r))"
  by (rule moves_trans [OF moves_put moves_call])

lemmas moves_http = moves_basic moves_put_emit moves_put_call

lemma moves_http_handlers [simp]:
  "moves r (on_request cfg now i ps t raw r)" "moves r (on_request_extra cfg i ps raw r)"
  "moves r (on_response cfg now i ps t raw r)" "moves r (on_response_extra cfg i ps raw r)"
  "moves r (on_finished cfg i t raw r)" "moves r (on_failed cfg now i ps t raw r)"
  "moves r (on_other_http cfg i raw r)"
  unfolding on_request_def on_request_extra_def on_response_def on_response_extra_def
    on_finished_def on_failed_def on_other_http_def Let_def
  by (simp_all only: moves_http moves_refl fetch_task.simps split: option.split if_split) simp_all

lemma moves_onHttpEvent: "moves r (onHttpEvent cfg now m ps t raw r)"
  by (simp add: onHttpEvent_def Let_def)

lemma moves_on_post_data: "moves r (on_post_data cfg i a r)"
proof (cases "mapGet (httpRecords r) i")
  case (Some h)
  then show ?thesis
    by (cases "post_data_of cfg a") (simp_all only: on_post_data_def option.case moves_put moves_refl)
qed (simp add: on_post_data_def)

lemma moves_on_response_body: "moves r (on_response_body cfg i raw a r)"
proof (cases "mapGet (httpRecords r) i")
  case (Some h)
  then show ?thesis by (simp only: on_response_body_def option.case Let_def moves_put_emit)
qed (simp add: on_response_body_def)

lemmas moves_answers = moves_on_post_data moves_on_response_body

lemma moves_conn_write: "moves r (rec_write l (put_conn c r))"
  "moves r ((rec_write l (put_conn c r))\<lparr>wsConns := m\<rparr>)" "moves r ((put_conn c r)\<lparr>wsConns := m\<rparr>)"
  by (rule moves_trans [OF moves_conn(1) moves_write],
      rule moves_trans [OF moves_trans [OF moves_conn(1) moves_write] moves_conn(2)],
      rule moves_trans [OF moves_conn(1) moves_conn(2)])

lemma moves_ws_handlers [simp]:
  "moves r (on_ws_created cfg now ps c raw r)" "moves r (on_ws_other cfg now m ps c raw r)"
  unfolding on_ws_created_def on_ws_other_def Let_def
  by (simp_all only: moves_basic moves_conn_write split: option.split if_split prod.split) simp_all

lemma moves_onWsEvent: "moves r (onWsEvent cfg now m ps t raw r)"
  by (simp add: onWsEvent_def Let_def)

lemma moves_onMsg: "onMsg cfg now msg r = Some r' \<Longrightarrow> moves r r'"
  unfolding onMsg_def Let_def
  by (auto split: if_split_asm intro: moves_write moves_trans [OF moves_onHttpEvent moves_onWsEvent])

lemma moves_deliver: "moves r (deliver cfg parse now t r)"
  unfolding deliver_def Let_def by (auto split: option.split sum.split dest: moves_onMsg)

lemma moves_deliver_all: "moves r (deliver_all cfg parse now ts r)"
  by (induction ts arbitrary: r) (auto intro: moves_trans [OF moves_deliver])


section \<open>The invariant\<close>

definition streaming :: "rec_phase \<Rightarrow> bool" where
  "streaming p = (case p of FetchingStream \<Rightarrow> True | ReadingStream b \<Rightarrow> True | CancellingStream \<Rightarrow> True
     | BackingOff \<Rightarrow> True | _ \<Rightarrow> False)"

lemma streaming_simps [simp]:
  "streaming FetchingStream" "streaming (ReadingStream b)" "streaming CancellingStream" "streaming BackingOff"
  "\<not> streaming Enabling" "\<not> streaming Settling" "\<not> streaming StreamEnded" "\<not> streaming (MainFailed e)"
  by (simp_all add: streaming_def)

definition ends_with_stop :: "js list \<Rightarrow> bool" where
  "ends_with_stop ls \<longleftrightarrow> (\<exists>front now reason. ls = front @ [stop_line now reason])"

definition rec_inv :: "recorder \<Rightarrow> bool" where
  "rec_inv r \<longleftrightarrow> keyed r
     \<and> (cleaned r \<longleftrightarrow> ss_stopped (stopSig r))
     \<and> (cleaned r \<longrightarrow> httpRecords r = [] \<and> ends_with_stop (written r))
     \<and> (wr_closed (rw r) \<longrightarrow> cleaned r)
     \<and> (\<forall>k t. mapGet (inflight r) k = Some t \<longrightarrow> t = DisableNetwork \<or> t = DisablePage \<longrightarrow> cleaned r)
     \<and> (streaming (rec_phase r) \<longrightarrow> (if cleaned r then streamAborted r else ss_callbacks (stopSig r) \<noteq> []))
     \<and> (rec_phase r = StreamEnded \<longrightarrow> cleaned r)"

lemma rec_inv_new: "rec_inv (start_call EnableNetwork b (rec_write l (recorder_new cfg)))"
  by (simp add: rec_inv_def keyed_def start_call_def recorder_new_def writer_new_def rec_write_def writer_write_def
      writer_ok_def file_text_def)

lemma moves_inflight: "moves r r' \<Longrightarrow> mapGet (inflight r') k = Some t \<Longrightarrow> \<not> fetch_task t \<Longrightarrow> mapGet (inflight r) k = Some t"
  unfolding moves_def by blast

text \<open>A handler that runs before the cleanup.\<close>

lemma rec_inv_moves:
  assumes "moves r r'" "rec_inv r" "\<not> cleaned r"
  shows "rec_inv r' \<and> kept r r'"
proof -
  from assms have "\<not> wr_closed (rw r)" by (auto simp: rec_inv_def)
  moreover have "cleaned r" if "mapGet (inflight r') k = Some t" "t = DisableNetwork \<or> t = DisablePage" for k t
  proof -
    from that(2) have "\<not> fetch_task t" by auto
    with moves_inflight [OF assms(1) that(1)] have "mapGet (inflight r) k = Some t" .
    with that assms(2) show ?thesis by (auto simp: rec_inv_def)
  qed
  ultimately show ?thesis using assms by (auto simp: rec_inv_def moves_def)
qed

lemma kept_frame [simp]:
  "kept r (r'\<lparr>inflight := f\<rparr>) = kept r r'" "kept r (r'\<lparr>inflight := f, nextCall := n, calls := cs\<rparr>) = kept r r'"
  "kept r (r'\<lparr>rec_phase := p\<rparr>) = kept r r'" "kept r (r'\<lparr>stopSig := g\<rparr>) = kept r r'"
  "kept r (r'\<lparr>streamAborted := b\<rparr>) = kept r r'" "kept (r\<lparr>cleaned := b\<rparr>) r' = kept r r'" "kept (r\<lparr>stopSig := g\<rparr>) r' = kept r r'"
  "kept (r\<lparr>streamAborted := b\<rparr>) r' = kept r r'" "kept (r\<lparr>inflight := f\<rparr>) r' = kept r r'"
  by (simp_all add: kept_def tracked_def)

lemma keyed_frame [simp]:
  "keyed (r\<lparr>inflight := f\<rparr>) = keyed r" "keyed (r\<lparr>inflight := f, nextCall := n, calls := cs\<rparr>) = keyed r"
  "keyed (r\<lparr>rec_phase := p\<rparr>) = keyed r" "keyed (r\<lparr>stopSig := g\<rparr>) = keyed r" "keyed (r\<lparr>streamAborted := b\<rparr>) = keyed r"
  "keyed (r\<lparr>cleaned := b\<rparr>) = keyed r" "keyed (r\<lparr>rw := writer_close (rw r)\<rparr>) = keyed r"
  by (simp_all add: keyed_def writer_ok_def writer_close_def)

lemma rec_inv_phase:
  "rec_inv r \<Longrightarrow> (streaming p \<Longrightarrow> streaming (rec_phase r)) \<Longrightarrow> (p = StreamEnded \<Longrightarrow> cleaned r) \<Longrightarrow> rec_inv (r\<lparr>rec_phase := p\<rparr>)"
  by (auto simp: rec_inv_def)

lemma rec_inv_answered: "rec_inv r \<Longrightarrow> rec_inv (r\<lparr>inflight := mapDelete (inflight r) k\<rparr>)"
  by (auto simp: rec_inv_def split: if_split_asm)

lemma rec_inv_call:
  "rec_inv r \<Longrightarrow> (t = DisableNetwork \<or> t = DisablePage \<Longrightarrow> cleaned r) \<Longrightarrow> rec_inv (start_call t b r)"
  by (auto simp: rec_inv_def start_call_def split: if_split_asm)


section \<open>Cleanup\<close>

lemma moves_flush: "moves r (fold emitHttpAndDelete is r)"
  by (induction "is" arbitrary: r) (auto intro: moves_trans [OF moves_emit])

lemma emit_table: "httpRecords (emitHttpAndDelete i r) = mapDelete (httpRecords r) i"
  by (auto simp: emitHttpAndDelete_def mapDelete_notin mapKeys_get split: option.split)

lemma flush_step:
  assumes "httpRecords r = (i, h) # m" "mapWf ((i, h) # m)" "\<not> wr_closed (rw r)"
  shows "written (emitHttpAndDelete i r) = written r @ [http_record_js h]" "httpRecords (emitHttpAndDelete i r) = m"
proof -
  from assms(2) have "mapDelete m i = m" by (intro mapDelete_notin) (auto simp: mapWf_def mapKeys_def)
  with assms(1) show "httpRecords (emitHttpAndDelete i r) = m" by (simp add: emit_table)
  show "written (emitHttpAndDelete i r) = written r @ [http_record_js h]"
    using assms by (simp add: emitHttpAndDelete_def mapGet_def written_write)
qed

lemma emit_closed [simp]: "wr_closed (rw (emitHttpAndDelete i r)) = wr_closed (rw r)"
  using moves_emit [of r i] by (simp add: moves_def)

lemma flush_all:
  "httpRecords r = m \<Longrightarrow> mapWf m \<Longrightarrow> \<not> wr_closed (rw r) \<Longrightarrow>
     written (fold emitHttpAndDelete (map fst m) r) = written r @ map (http_record_js \<circ> snd) m
     \<and> httpRecords (fold emitHttpAndDelete (map fst m) r) = []"
proof (induction m arbitrary: r)
  case (Cons p m)
  obtain i h where p: "p = (i, h)" by (cases p)
  note step = flush_step [OF Cons.prems(1,2) [unfolded p] Cons.prems(3)]
  from Cons.prems(2) have "mapWf m" by (simp add: mapWf_def)
  from Cons.IH [OF step(2) this] step(1) p Cons.prems(3) show ?case by simp
qed simp

lemma run_callbacks_frame [simp]:
  "httpRecords (run_callbacks cbs r) = httpRecords r" "written (run_callbacks cbs r) = written r"
  "stopSig (run_callbacks cbs r) = stopSig r" "cleaned (run_callbacks cbs r) = cleaned r"
  "inflight (run_callbacks cbs r) = inflight r" "rec_phase (run_callbacks cbs r) = rec_phase r"
  "rw (run_callbacks cbs r) = rw r" "streamAborted (run_callbacks cbs r) = (streamAborted r \<or> cbs \<noteq> [])"
  by (induction cbs r rule: run_callbacks.induct) simp_all

text \<open>What the cleanup does, the first time.\<close>

lemma rec_cleanup_effect:
  assumes "rec_inv r" "\<not> cleaned r" and r'_def: "r' = rec_cleanup cfg now reason r"
  shows "cleaned r'" "ss_stopped (stopSig r')" "ss_reason (stopSig r') = Some reason" "httpRecords r' = []"
    "written r' = written r @ map (http_record_js \<circ> snd) (httpRecords r) @ [stop_line now reason]"
    "rec_phase r' = rec_phase r" "streamAborted r' = (streamAborted r \<or> ss_callbacks (stopSig r) \<noteq> [])"
    "wr_closed (rw r') = wr_closed (rw r)" "wr_indent (rw r') = wr_indent (rw r)" "ss_callbacks (stopSig r') = []" "writer_ok (rw r')"
proof -
  from assms(1,2) have inv: "keyed r" "\<not> ss_stopped (stopSig r)" "\<not> wr_closed (rw r)"
    by (auto simp: rec_inv_def)
  let ?sig = "\<lparr>ss_stopped = True, ss_reason = Some reason, ss_callbacks = []\<rparr>"
  let ?r1 = "run_callbacks (ss_callbacks (stopSig r)) (r\<lparr>cleaned := True, stopSig := ?sig\<rparr>)"
  have f: "written (flush_records ?r1) = written r @ map (http_record_js \<circ> snd) (httpRecords r)"
    "httpRecords (flush_records ?r1) = []"
    using flush_all [of ?r1 "httpRecords r"] inv by (simp_all add: flush_records_def mapKeys_def keyed_def)
  have r': "r' = start_call DisableNetwork (cdp_body ''Network.disable'' (rec_target cfg) (Obj []))
      (rec_write (stop_line now reason) (flush_records ?r1))"
    using assms(2) inv by (simp add: r'_def rec_cleanup_def ss_stop_def)
  note flush = moves_flush [of ?r1 "mapKeys (httpRecords ?r1)", folded flush_records_def]
  have k: "keyed ?r1" using inv(1) by (simp add: keyed_def)
  note w_ok = keyed_writer [OF moves_keyed [OF flush k]]
  have c: "wr_indent (rw (flush_records ?r1)) = wr_indent (rw r)" "cleaned (flush_records ?r1)" "stopSig (flush_records ?r1) = ?sig"
    "rec_phase (flush_records ?r1) = rec_phase r" "wr_closed (rw (flush_records ?r1)) = wr_closed (rw r)"
    "streamAborted (flush_records ?r1) = (streamAborted r \<or> ss_callbacks (stopSig r) \<noteq> [])"
    using moves_fields [OF flush] by simp_all
  let ?x = "flush_records ?r1"
  have rw: "rw r' = writer_write (stop_line now reason) (rw ?x)" and w: "written r' = written ?x @ [stop_line now reason]"
    and rest: "cleaned r' = cleaned ?x" "stopSig r' = stopSig ?x" "httpRecords r' = httpRecords ?x"
      "rec_phase r' = rec_phase ?x" "streamAborted r' = streamAborted ?x"
    using written_write [of ?x "stop_line now reason"] c(5) inv(3) by (simp_all add: r' start_call_def)
  show "written r' = written r @ map (http_record_js \<circ> snd) (httpRecords r) @ [stop_line now reason]"
    using w f(1) by simp
  show "wr_closed (rw r') = wr_closed (rw r)" "wr_indent (rw r') = wr_indent (rw r)" "writer_ok (rw r')"
    using c w_ok by (simp_all only: rw writer_write_closed writer_ok_write)
  show "cleaned r'" "ss_stopped (stopSig r')" "ss_reason (stopSig r') = Some reason" "httpRecords r' = []"
    "rec_phase r' = rec_phase r" "streamAborted r' = (streamAborted r \<or> ss_callbacks (stopSig r) \<noteq> [])"
    "ss_callbacks (stopSig r') = []"
    using c f(2) by (simp_all only: rest stop_signal.simps)
qed

end
