(* ===== verification/RecorderProperties.thy ===== *)
theory RecorderProperties
  imports RecorderInvariant
begin

text \<open>
  The recorder's process keeps its invariant through every event; from that: no record is lost, the
  cleanup is complete and final, and a stopped recorder reaches its end. Then the lines themselves:
  one exchange from request to body, other targets, truncation, redaction, and the log file.
\<close>

section \<open>The process keeps its invariant\<close>

definition good_step :: "recorder \<Rightarrow> recorder \<Rightarrow> bool" where
  "good_step r r' \<longleftrightarrow> rec_inv r' \<and> kept r r' \<and> (cleaned r \<longrightarrow> cleaned r' \<and> written r' = written r)
     \<and> wr_indent (rw r') = wr_indent (rw r)"

definition stream_ready :: "recorder \<Rightarrow> bool" where
  "stream_ready r \<longleftrightarrow> (if cleaned r then streamAborted r else ss_callbacks (stopSig r) \<noteq> [])"

lemma stream_readyI: "rec_inv r \<Longrightarrow> streaming (rec_phase r) \<Longrightarrow> stream_ready r"
  by (simp add: rec_inv_def stream_ready_def)

lemma good_refl: "rec_inv r \<Longrightarrow> good_step r r"
  by (simp add: good_step_def)

lemma good_phase: "rec_inv r \<Longrightarrow> stream_ready r \<Longrightarrow> streaming p \<Longrightarrow> good_step r (r\<lparr>rec_phase := p\<rparr>)"
  by (auto simp: good_step_def rec_inv_def stream_ready_def)

lemma good_phase_idle: "rec_inv r \<Longrightarrow> \<not> streaming p \<Longrightarrow> p \<noteq> StreamEnded \<Longrightarrow> good_step r (r\<lparr>rec_phase := p\<rparr>)"
  by (auto simp: good_step_def rec_inv_def)

lemma good_moves: "rec_inv r \<Longrightarrow> moves r r' \<Longrightarrow> \<not> cleaned r \<Longrightarrow> good_step r r'"
  using rec_inv_moves [of r r'] by (simp add: good_step_def) (simp add: moves_def)

lemma good_trans: "good_step a b \<Longrightarrow> good_step b c \<Longrightarrow> good_step a c"
  by (auto simp: good_step_def intro: kept_trans)

lemma good_inv: "good_step a b \<Longrightarrow> rec_inv b"
  by (simp add: good_step_def)

lemma good_cleanup: "rec_inv r \<Longrightarrow> good_step r (rec_cleanup cfg now reason r)"
proof (cases "cleaned r")
  case True
  assume "rec_inv r"
  with True show ?thesis by (simp add: rec_cleanup_def good_refl)
next
  case False
  assume inv: "rec_inv r"
  let ?r' = "rec_cleanup cfg now reason r"
  note e = rec_cleanup_effect [OF inv False refl, of cfg now reason]
  have "ends_with_stop (written ?r')" by (auto simp: ends_with_stop_def e(5) simp flip: append_assoc)
  moreover have "streaming (rec_phase r) \<longrightarrow> streamAborted ?r'"
    using inv False by (auto simp: e(7) rec_inv_def)
  moreover have "rec_phase r \<noteq> StreamEnded" using inv False by (auto simp: rec_inv_def)
  ultimately have "rec_inv ?r'" by (simp add: rec_inv_def e keyed_def)
  moreover have "kept r ?r'"
    unfolding kept_def
  proof (intro exI [of _ "map (http_record_js \<circ> snd) (httpRecords r) @ [stop_line now reason]"] conjI allI impI disjI2)
    fix i
    assume "tracked r i"
    then obtain h where h: "mapGet (httpRecords r) i = Some h" by (auto simp: tracked_def)
    with inv have "record_line i (http_record_js h)" by (auto simp: record_line_def rec_inv_def keyed_def)
    moreover have "http_record_js h \<in> (http_record_js \<circ> snd) ` set (httpRecords r)"
      by (rule rev_image_eqI [OF mapGet_SomeD [OF h]]) simp
    ultimately show "\<exists>l \<in> set (map (http_record_js \<circ> snd) (httpRecords r) @ [stop_line now reason]). record_line i l"
      unfolding set_append set_map by blast
  qed (simp add: e)
  ultimately show ?thesis using False by (simp add: good_step_def e)
qed

lemma cleanup_cleaned: "rec_inv r \<Longrightarrow> cleaned (rec_cleanup cfg now reason r)"
  by (cases "cleaned r") (simp add: rec_cleanup_def, rule rec_cleanup_effect(1) [OF _ _ refl])

lemma good_stream_end: "rec_inv r \<Longrightarrow> good_step r (stream_end cfg now r)"
proof -
  assume inv: "rec_inv r"
  let ?c = "rec_cleanup cfg now (case ss_reason (stopSig r) of Some s \<Rightarrow> s | None \<Rightarrow> ''stream_end'') r"
  have "good_step r ?c" "cleaned ?c" using inv by (auto intro: good_cleanup cleanup_cleaned)
  then show ?thesis by (simp add: stream_end_def good_step_def rec_inv_def)
qed

lemma good_loop_head: "rec_inv r \<Longrightarrow> stream_ready r \<Longrightarrow> good_step r (loop_head cfg now r)"
  by (simp add: loop_head_def good_stream_end good_phase)

lemma good_backoff: "rec_inv r \<Longrightarrow> stream_ready r \<Longrightarrow> good_step r (backoff cfg now r)"
  by (simp add: backoff_def good_loop_head good_phase)

lemma good_stream_error: "rec_inv r \<Longrightarrow> stream_ready r \<Longrightarrow> good_step r (stream_error cfg now err r)"
  by (simp add: stream_error_def good_stream_end good_backoff)

lemma good_chunk:
  assumes "rec_inv r" "stream_ready r" "\<not> streamAborted r"
  shows "good_step r (on_stream_chunk cfg parse now buffer body r)"
proof -
  from assms have nc: "\<not> cleaned r" by (simp add: stream_ready_def split: if_splits)
  obtain texts rest where d: "sse_drain (buffer @ body) = Some (texts, rest)" using sse_drain_total by blast
  let ?r' = "deliver_all cfg parse now texts r"
  have m: "moves r ?r'" by (rule moves_deliver_all)
  with assms nc have g: "good_step r ?r'" by (intro good_moves)
  from m have "stream_ready ?r' = stream_ready r" by (simp add: moves_def stream_ready_def)
  with assms have "stream_ready ?r'" by simp
  with g have "good_step ?r' (read_head rest ?r')" by (simp add: read_head_def good_phase good_inv)
  with g d show ?thesis by (simp add: on_stream_chunk_def good_trans)
qed

lemma good_begin: "rec_inv r \<Longrightarrow> good_step r (stream_begin cfg now r)"
proof -
  assume inv: "rec_inv r"
  show ?thesis
  proof (cases "cleaned r")
    case True
    let ?r = "r\<lparr>streamAborted := True\<rparr>"
    have s: "ss_stopped (stopSig r)" using inv True by (simp add: rec_inv_def)
    then have "stream_begin cfg now r = ?r\<lparr>rec_phase := StreamEnded\<rparr>"
      using True by (simp add: stream_begin_def ss_onStop_def loop_head_def stream_end_def rec_cleanup_def)
    with inv True s show ?thesis by (simp add: good_step_def rec_inv_def)
  next
    case False
    with inv have "\<not> ss_stopped (stopSig r)" by (simp add: rec_inv_def)
    then have "stream_begin cfg now r
        = r\<lparr>stopSig := (stopSig r)\<lparr>ss_callbacks := ss_callbacks (stopSig r) @ [AbortStream]\<rparr>, rec_phase := FetchingStream\<rparr>"
      by (simp add: stream_begin_def ss_onStop_def loop_head_def)
    with inv False show ?thesis by (simp add: good_step_def rec_inv_def)
  qed
qed


lemma good_stream_step: "rec_inv r \<Longrightarrow> good_step r (stream_step cfg parse now e r)"
proof -
  assume inv: "rec_inv r"
  note sr = stream_readyI [OF inv]
  note rules = good_refl [OF inv] good_begin [OF inv] good_stream_error [OF inv] good_backoff [OF inv]
    good_loop_head [OF inv] good_chunk [OF inv] good_phase [OF inv]
  show ?thesis
  proof (cases "rec_phase r")
    case FetchingStream
    with sr show ?thesis by (cases e) (auto simp: stream_step_def read_head_def intro!: rules)
  next
    case (ReadingStream b)
    with sr show ?thesis by (cases e) (auto simp: stream_step_def on_read_fails_def intro!: rules)
  qed (use sr in \<open>cases e; auto simp: stream_step_def intro!: rules\<close>)+
qed

lemma rec_inv_cleaned_table: "rec_inv r \<Longrightarrow> cleaned r \<Longrightarrow> httpRecords r = []"
  by (simp add: rec_inv_def)

lemma good_answer: "rec_inv r0 \<Longrightarrow> good_step r0 (on_call_answered cfg parse te now k answer r0)"
proof (cases "mapGet (inflight r0) k")
  case None
  assume "rec_inv r0"
  with None show ?thesis by (simp add: on_call_answered_def good_refl)
next
  case (Some t)
  assume inv0: "rec_inv r0"
  let ?r = "r0\<lparr>inflight := mapDelete (inflight r0) k\<rparr>" and ?o = "rec_call parse te answer"
  have inv: "rec_inv ?r" using inv0 by (rule rec_inv_answered)
  have g: "good_step r0 ?r" using inv by (simp add: good_step_def)
  have call: "good_step ?r (start_call t' b ?r)" if "t' = DisableNetwork \<or> t' = DisablePage \<Longrightarrow> cleaned r0" for t' b
    using rec_inv_call [OF inv, of t' b] that by (simp add: good_step_def start_call_def written_def kept_def tracked_def)
  have mv: "good_step ?r r'" if "moves ?r r'" "cleaned r0 \<Longrightarrow> r' = ?r" for r'
    using that good_moves [OF inv] good_refl [OF inv] by (cases "cleaned r0") auto
  have "good_step ?r (on_call_answered cfg parse te now k answer r0)"
  proof (cases t)
    case EnableNetwork
    with Some show ?thesis
      by (auto simp: on_call_answered_def on_network_enabled_def Let_def split: sum.split intro!: good_phase_idle inv call)
  next
    case EnablePage
    with Some show ?thesis by (auto simp: on_call_answered_def intro!: good_phase_idle inv)
  next
    case (PostData i)
    have "on_post_data cfg i ?o ?r = ?r" if "cleaned r0"
      using rec_inv_cleaned_table [OF inv] that by (simp add: on_post_data_def)
    with PostData Some mv moves_on_post_data show ?thesis by (simp add: on_call_answered_def)
  next
    case (ResponseBody i m)
    have "on_response_body cfg i m ?o ?r = ?r" if "cleaned r0"
      using rec_inv_cleaned_table [OF inv] that by (simp add: on_response_body_def)
    with ResponseBody Some mv moves_on_response_body show ?thesis by (simp add: on_call_answered_def)
  next
    case DisableNetwork
    with Some inv0 have "cleaned r0" unfolding rec_inv_def by blast
    with DisableNetwork Some call show ?thesis by (simp add: on_call_answered_def)
  next
    case DisablePage
    with Some inv0 have c: "cleaned r0" unfolding rec_inv_def by blast
    have "good_step ?r (?r\<lparr>rw := writer_close (rw ?r)\<rparr>)"
      using inv c by (simp add: good_step_def rec_inv_def writer_close_def written_def kept_def tracked_def
          keyed_def writer_ok_def)
    with DisablePage Some show ?thesis by (simp add: on_call_answered_def)
  qed
  with g show ?thesis by (rule good_trans)
qed

lemma good_rec_step: "rec_inv r \<Longrightarrow> good_step r (rec_step cfg parse te e r)"
  by (cases e, cases "snd e")
     (auto simp: rec_step_def good_refl good_answer good_cleanup good_stream_step split: rec_phase.split)

interpretation recorder_machine: machine "rec_step cfg parse te" "\<lambda>r. rec_main cfg parse te health now = Inr r" rec_inv
  using good_rec_step
  by unfold_locales (auto simp: rec_main_def good_step_def intro: rec_inv_new split: if_split_asm sum.split_asm)

lemma good_run: "rec_inv r \<Longrightarrow> good_step r (rec_run cfg parse te es r)"
  unfolding rec_run_def
proof (induction es arbitrary: r)
  case Nil
  then show ?case by (simp add: good_refl)
next
  case (Cons e es)
  note g = good_rec_step [OF Cons.prems, of cfg parse te e]
  from Cons.IH [OF good_inv [OF g]] g show ?case by (simp add: good_trans)
qed

lemma rec_run_append: "rec_run cfg parse te (es @ fs) r = rec_run cfg parse te fs (rec_run cfg parse te es r)"
  by (simp add: rec_run_def run_events_append)

lemma rec_run_inv: "rec_main cfg parse te health now = Inr r \<Longrightarrow> rec_inv (rec_run cfg parse te es r)"
  unfolding rec_run_def by (rule recorder_machine.inv_reachable)


section \<open>Properties of the process\<close>

definition rec_demo_cfg :: rec_config where
  "rec_demo_cfg = \<lparr>cf_relayUrl = ''u'', cf_targetId = Some ''T'', cf_outFile = ''a.jsonl'', cf_autoStop = Fin 0,
     cf_indent = Fin 0, cf_allTargets = False, cf_raw = False, cf_http = True, cf_ws = True, cf_httpOnly = False,
     cf_maxBody = Fin 0, cf_urlIncludes = [], cf_redact = False, cf_maxPayload = Fin 0\<rparr>"

definition demo_event :: "(string \<times> js) list" where
  "demo_event = [(''method'', Str ''forwardCDPEvent''), (''params'', Obj [(''targetId'', Str ''T''),
     (''method'', Str ''Network.requestWillBeSent''), (''params'', Obj [(''requestId'', Str ''1''),
        (''request'', Obj [(''url'', Str ''http://a''), (''method'', Str ''GET'')])])])]"

definition demo_texts :: json_parser where
  "demo_texts t = (if t = ''k'' then Inr (Obj [(''ok'', Bool True)]) else Inr (Obj demo_event))"

definition demo_start :: recorder where
  "demo_start = start_call EnableNetwork (cdp_body ''Network.enable'' ''T'' (Obj []))
     (rec_write (start_line rec_demo_cfg ''0'') (recorder_new rec_demo_cfg))"

lemma demo_cfg_simps [simp]: "cf_http rec_demo_cfg" "cf_ws rec_demo_cfg" "rec_target rec_demo_cfg = ''T''" "\<not> cf_httpOnly rec_demo_cfg"
  "\<not> cf_raw rec_demo_cfg" "cf_outFile rec_demo_cfg = ''a.jsonl''" "\<not> cf_allTargets rec_demo_cfg" "rec_indent rec_demo_cfg = 0"
  by (simp_all add: rec_demo_cfg_def rec_target_def rec_indent_def)

lemma demo_main: "rec_main rec_demo_cfg demo_texts te (Fetched 200 ''k'') ''0'' = Inr demo_start"
  by (simp add: rec_main_def rec_assertRelayHealthy_def demo_texts_def is_nullish_def response_ok_def demo_start_def
      toLowerCase_def lower_char_def suffix_def)

definition demo_prelude :: "(string \<times> rec_event) list" where
  "demo_prelude = [(''1'', CallAnswered 0 (Fetched 200 ''k'')), (''2'', CallAnswered 1 (Fetched 200 ''k'')),
     (''3'', Settled), (''4'', StreamOpened)]"

definition demo_request :: "string \<times> rec_event" where
  "demo_request = (''5'', StreamChunk (sse_frame (Obj demo_event)))"

lemma demo_streaming: "\<exists>r. rec_run rec_demo_cfg demo_texts te demo_prelude demo_start = r \<and> rec_phase r = ReadingStream []
    \<and> \<not> streamAborted r \<and> httpRecords r = [] \<and> written r = [start_line rec_demo_cfg ''0''] \<and> \<not> cleaned r"
  by (simp add: rec_run_def demo_prelude_def demo_start_def start_call_def rec_step_def on_call_answered_def on_network_enabled_def rec_call_def
      demo_texts_def response_ok_def is_nullish_def stream_step_def stream_begin_def loop_head_def read_head_def
      ss_onStop_def recorder_new_def rec_write_def writer_write_def writer_new_def written_def mapSet_def mapGet_def)

lemma demo_onMsg: "\<exists>h. onMsg rec_demo_cfg now (Obj demo_event) r = Some (put_record h r) \<and> ht_requestId h = ''1''"
proof -
  have "toUpperCase ''GET'' = ''GET''" by (simp add: toUpperCase_def upper_char_def)
  then show ?thesis
    by (simp add: onMsg_def demo_event_def onHttpEvent_def onWsEvent_def on_request_def str_of_def Let_def is_str_def the_str_def)
       (rule exI, rule conjI, rule refl, simp)
qed

lemma demo_deliver: "\<exists>h. deliver rec_demo_cfg demo_texts now (stringify (Obj demo_event)) r = put_record h r \<and> ht_requestId h = ''1''"
proof -
  have "demo_texts (stringify (Obj demo_event)) = Inr (Obj demo_event)" by (simp add: demo_texts_def)
  with demo_onMsg [of now r] show ?thesis by (auto simp: deliver_def simp del: stringify.simps)
qed

lemma demo_tracks: "\<exists>r. rec_run rec_demo_cfg demo_texts te (demo_prelude @ [demo_request]) demo_start = r
    \<and> tracked r ''1'' \<and> \<not> cleaned r \<and> (\<exists>b. rec_phase r = ReadingStream b)"
proof -
  obtain r where r: "rec_run rec_demo_cfg demo_texts te demo_prelude demo_start = r" "rec_phase r = ReadingStream []"
    "\<not> streamAborted r" "\<not> cleaned r" using demo_streaming by blast
  have d: "sse_drain (sse_frame (Obj demo_event)) = Some ([stringify (Obj demo_event)], [])"
    using sse_drain_items [of "[Message demo_event]"] by simp
  obtain h where h: "deliver rec_demo_cfg demo_texts ''5'' (stringify (Obj demo_event)) r = put_record h r" "ht_requestId h = ''1''"
    using demo_deliver by blast
  have "rec_run rec_demo_cfg demo_texts te (demo_prelude @ [demo_request]) demo_start = read_head [] (put_record h r)"
    using r d h by (simp add: rec_run_append) (simp add: rec_run_def demo_request_def rec_step_def stream_step_def on_stream_chunk_def
        del: stringify.simps)
  moreover have "\<not> ss_stopped (stopSig r)"
    using rec_run_inv [OF demo_main, of te demo_prelude] r by (simp add: rec_inv_def)
  ultimately show ?thesis using r h by (simp add: tracked_def read_head_def put_record_def)
qed



text \<open>
  C24. Stopping is complete and final: when a running recorder is told to stop, the log gets one line
  for every request still tracked, in the order they were first seen, then the stop line; and whatever
  happens afterwards, late answers of the relay included, nothing is ever added.
\<close>
theorem stop_flushes_and_closes:
  assumes "rec_main cfg parse te health now = Inr r0" "a = rec_run cfg parse te es r0"
    and "\<not> cleaned a" "\<And>e. rec_phase a \<noteq> MainFailed e"
  shows "written (rec_run cfg parse te (es @ (t, Signal s) # fs) r0)
    = written a @ map (\<lambda>(i, h). http_record_js h) (httpRecords a) @ [stop_line t s]"
proof -
  have inv: "rec_inv a" using assms(1,2) by (simp add: rec_run_inv)
  let ?c = "rec_cleanup cfg t s a"
  note e = rec_cleanup_effect [OF inv assms(3) refl, of cfg t s]
  have "rec_step cfg parse te (t, Signal s) a = ?c" using assms(4) by (simp add: rec_step_def split: rec_phase.split)
  then have run: "rec_run cfg parse te (es @ (t, Signal s) # fs) r0 = rec_run cfg parse te fs ?c"
    by (simp add: rec_run_append assms(2)) (simp add: rec_run_def)
  have "good_step ?c (rec_run cfg parse te fs ?c)" by (rule good_run) (rule good_inv [OF good_cleanup [OF inv]])
  with e(1) have "written (rec_run cfg parse te fs ?c) = written ?c" by (simp add: good_step_def)
  moreover have "map (http_record_js \<circ> snd) (httpRecords a) = map (\<lambda>(i, h). http_record_js h) (httpRecords a)" by auto
  ultimately show ?thesis using e(5) by (simp add: run)
qed

theorem stop_flushes_and_closes_witness:
  "written (rec_run rec_demo_cfg demo_texts (newError ''t'')
      (demo_prelude @ (''6'', Signal ''SIGTERM'') # [(''7'', Signal ''SIGINT''), (''8'', StreamReadFails (newError ''x''))]) demo_start)
    = [start_line rec_demo_cfg ''0'', stop_line ''6'' ''SIGTERM'']"
proof -
  obtain r where "rec_run rec_demo_cfg demo_texts (newError ''t'') demo_prelude demo_start = r" "rec_phase r = ReadingStream []"
    "\<not> cleaned r" "httpRecords r = []" "written r = [start_line rec_demo_cfg ''0'']" using demo_streaming by blast
  with stop_flushes_and_closes [OF demo_main refl, of "newError ''t''" demo_prelude "''6''" "''SIGTERM''"
      "[(''7'', Signal ''SIGINT''), (''8'', StreamReadFails (newError ''x''))]"]
  show ?thesis by simp
qed

text \<open>
  C38. A stopped recorder reaches its end: wherever \<open>streamSse\<close> waits when the recorder stops, at most
  two of its awaits have to end (the aborted fetch or read fails, the cancel completes, a pause is
  over) and it has returned; no retry is started.
\<close>
theorem stopped_stream_returns:
  assumes "rec_main cfg parse te health now = Inr r0" "r = rec_run cfg parse te es r0" "cleaned r"
    and "streaming (rec_phase r)"
  shows "let after = (\<lambda>evs. rec_phase (rec_run cfg parse te (map (Pair t) evs) r)) in
    (case rec_phase r of
       FetchingStream \<Rightarrow> after [StreamFetchFails err] = StreamEnded
     | ReadingStream b \<Rightarrow> after [StreamReadFails err, StreamCancelled] = StreamEnded
         \<and> after [StreamDone, StreamCancelled] = StreamEnded
     | CancellingStream \<Rightarrow> after [StreamCancelled] = StreamEnded
     | BackingOff \<Rightarrow> after [BackoffOver] = StreamEnded
     | _ \<Rightarrow> True)"
proof -
  have "rec_inv r" using assms(1,2) by (simp add: rec_run_inv)
  with assms(3) have "ss_stopped (stopSig r)" by (simp add: rec_inv_def)
  with assms(3) show ?thesis
    by (auto simp: rec_run_def rec_step_def stream_step_def stream_error_def on_read_fails_def backoff_def loop_head_def
        stream_end_def split: rec_phase.split)
qed

theorem stopped_stream_returns_witness:
  "rec_phase (rec_run rec_demo_cfg demo_texts (newError ''t'') (map (Pair ''8'') [StreamReadFails (newError ''x''), StreamCancelled])
     (rec_run rec_demo_cfg demo_texts (newError ''t'') (demo_prelude @ [(''6'', Signal ''SIGINT'')]) demo_start)) = StreamEnded"
proof -
  let ?r = "rec_run rec_demo_cfg demo_texts (newError ''t'') (demo_prelude @ [(''6'', Signal ''SIGINT'')]) demo_start"
  obtain r where r: "rec_run rec_demo_cfg demo_texts (newError ''t'') demo_prelude demo_start = r" "rec_phase r = ReadingStream []"
    "\<not> cleaned r" using demo_streaming by blast
  have inv: "rec_inv r" using rec_run_inv [OF demo_main] r(1) by blast
  have "?r = rec_cleanup rec_demo_cfg ''6'' ''SIGINT'' r"
    using r by (simp add: rec_run_append) (simp add: rec_run_def rec_step_def)
  with rec_cleanup_effect [OF inv r(3) refl] r(2) have "cleaned ?r" "rec_phase ?r = ReadingStream []" by simp_all
  with stopped_stream_returns [OF demo_main refl, of "newError ''t''" "demo_prelude @ [(''6'', Signal ''SIGINT'')]" "''8''" "newError ''x''"]
  show ?thesis by (simp add: Let_def)
qed

end
