(* ===== verification/RecorderLines.thy ===== *)
theory RecorderLines
  imports RecorderProperties RelayServer
begin

text \<open>
  The contents of the recorder's log: the file and its lines, one exchange from request to body,
  truncation, redaction, and what happens to the relay's status messages.
\<close>

section \<open>The file\<close>

lemma split_lines_onto_line:
  "printable t \<Longrightarrow> split_lines_onto acc (t @ newline @ s) = (rev acc @ t) # split_lines s"
proof (induction t arbitrary: acc)
  case Nil
  then show ?case by (simp add: newline_def split_lines_def)
next
  case (Cons c t)
  then have c: "c \<noteq> CHR 0x0A" "c \<noteq> CHR 0x0D" "printable t" by auto
  obtain d s' where "t @ newline @ s = d # s'" by (cases "t @ newline @ s") (auto simp: newline_def)
  with c Cons.IH [OF c(3), of "c # acc"] show ?case by simp
qed

lemma split_lines_line: "printable t \<Longrightarrow> split_lines (t @ newline @ s) = t # split_lines s"
  by (simp add: split_lines_def split_lines_onto_line)

lemma split_file_text:
  "ls \<noteq> [] \<Longrightarrow> split_lines (file_text 0 ls) = concat (map (\<lambda>l. [stringify l, []]) ls)"
proof (induction ls)
  case (Cons l ls)
  note line = split_lines_line [OF printable_stringify [of l]]
  show ?case
  proof (cases ls)
    case Nil
    have "split_lines (stringify l @ newline @ []) = [stringify l, []]" by (simp only: line) (simp add: split_lines_def)
    with Nil show ?thesis by (simp add: file_text_def stringify_indented_def del: stringify.simps)
  next
    case (Cons l' ls')
    then have "file_text 0 (l # ls) = stringify l @ newline @ newline @ file_text 0 ls"
      by (simp add: file_text_def stringify_indented_def del: stringify.simps)
    moreover have "split_lines (newline @ s) = [] # split_lines s" for s
      using split_lines_line [of "[]" s] by simp
    ultimately show ?thesis using Cons Cons.IH line by simp
  qed
qed simp

text \<open>
  C27. The log file is what was written: in every run with one-line records, its lines are the texts of
  the recorded values in order, each followed by an empty line; at any indentation the file is the
  values' texts, each with its line break, with an empty line between two.
\<close>
theorem log_file_is_what_was_written:
  assumes "rec_main cfg parse te health now = Inr r0"
  shows "let r = rec_run cfg parse te es r0 in
    wr_stream (rw r) = file_text (rec_indent cfg) (written r)
    \<and> (rec_indent cfg = 0 \<longrightarrow> split_lines (wr_stream (rw r)) = concat (map (\<lambda>l. [stringify l, []]) (written r)))"
proof -
  let ?r = "rec_run cfg parse te es r0"
  have r0: "r0 = start_call EnableNetwork (cdp_body ''Network.enable'' (rec_target cfg) (Obj []))
      (rec_write (start_line cfg now) (recorder_new cfg))"
    using assms by (auto simp: rec_main_def split: if_split_asm sum.split_asm)
  have inv: "rec_inv r0" using rec_run_inv [OF assms, of "[]"] by (simp add: rec_run_def)
  have g: "good_step r0 ?r" by (rule good_run [OF inv])
  have i0: "wr_indent (rw r0) = rec_indent cfg" "written r0 = [start_line cfg now]"
    unfolding r0 by (simp_all add: start_call_def recorder_new_def writer_new_def written_def writer_write_def)
  from g have "writer_ok (rw ?r)" by (simp add: good_step_def rec_inv_def keyed_def)
  moreover from g i0 have "wr_indent (rw ?r) = rec_indent cfg" by (simp add: good_step_def)
  ultimately have f: "wr_stream (rw ?r) = file_text (rec_indent cfg) (written ?r)" by (simp add: writer_ok_def written_def)
  from g i0 have "written ?r \<noteq> []" by (auto simp: good_step_def kept_def)
  with f split_file_text show ?thesis by (simp add: Let_def)
qed

theorem log_file_is_what_was_written_witness:
  "split_lines (wr_stream (rw (rec_run rec_demo_cfg demo_texts (newError ''t'') demo_prelude demo_start)))
     = [stringify (start_line rec_demo_cfg ''0''), []]"
proof -
  have "written (rec_run rec_demo_cfg demo_texts (newError ''t'') demo_prelude demo_start) = [start_line rec_demo_cfg ''0'']"
    using demo_streaming by blast
  with log_file_is_what_was_written [OF demo_main, of "newError ''t''" demo_prelude, unfolded Let_def, THEN conjunct2]
  show ?thesis by (simp del: stringify.simps)
qed


section \<open>Truncation\<close>

lemma num_of_nat_le [simp]: "num_of_nat a \<le> num_of_nat b \<longleftrightarrow> a \<le> b"
  by (simp add: num_of_nat_def)

text \<open>
  C37. Truncation keeps to its limits. With limits of \<open>n\<close> and \<open>m\<close> characters (0: no limit) a longer
  text is cut to its first \<open>n\<close>, respectively \<open>m\<close>, characters and flagged, and any other text is left
  whole and not flagged; the recorded length is always that of the original; a cut body is followed
  by the note that says so, a cut payload by nothing.
\<close>
theorem truncation_bounds:
  assumes "cf_maxBody cfg = num_of_nat n" "cf_maxPayload cfg = num_of_nat m"
  shows "let b = truncateBody cfg s; p = truncateText cfg s in
    tr_originalLength b = length s \<and> tr_originalLength p = length s
    \<and> tr_truncated b = (0 < n \<and> n < length s) \<and> tr_truncated p = (0 < m \<and> m < length s)
    \<and> prefix (tr_text p) s \<and> length (tr_text p) = (if 0 < m then min m (length s) else length s)
    \<and> tr_text b = (if 0 < n \<and> n < length s
        then take n s @ newline @ ''[truncated to '' @ num_text (num_of_nat n) @ '' chars]'' else s)"
proof -
  have "truncateBody cfg s = (if n = 0 \<or> length s \<le> n then whole s
      else \<lparr>tr_text = take n s @ newline @ ''[truncated to '' @ num_text (num_of_nat n) @ '' chars]'',
            tr_truncated = True, tr_originalLength = length s\<rparr>)"
    using assms(1) by (simp add: truncateBody_def slice_to_def) (simp add: num_of_nat_def)
  moreover have "truncateText cfg s = (if m = 0 \<or> length s \<le> m then whole s
      else \<lparr>tr_text = take m s, tr_truncated = True, tr_originalLength = length s\<rparr>)"
    using assms(2) by (simp add: truncateText_def slice_to_def) (simp add: num_of_nat_def)
  ultimately show ?thesis by (auto simp: Let_def whole_def take_is_prefix)
qed

theorem truncation_bounds_witness:
  "tr_text (truncateText (rec_demo_cfg\<lparr>cf_maxPayload := num_of_nat 2\<rparr>) ''abc'') = ''ab''
   \<and> length (tr_text (truncateText (rec_demo_cfg\<lparr>cf_maxPayload := num_of_nat 2\<rparr>) ''abc'')) = 2"
  using truncation_bounds [of "rec_demo_cfg\<lparr>cf_maxPayload := num_of_nat 2\<rparr>" 0 2 "''abc''"]
  by (simp add: rec_demo_cfg_def Let_def num_of_nat_def truncateText_def slice_to_def)


section \<open>One exchange\<close>

lemma js_get_mapSet [simp]: "js_get (Obj (mapSet m k v)) k' = (if k' = k then v else js_get (Obj m) k')"
  by (simp add: js_get_def mapSet_def update_conv')

lemma put_record_get [simp]: "mapGet (httpRecords (put_record h r)) i = (if i = ht_requestId h then Some h else mapGet (httpRecords r) i)"
  by (simp add: put_record_def)

lemma put_record_frame [simp]: "written (put_record h r) = written r" "calls (put_record h r) = calls r"
  "rw (put_record h r) = rw r" "inflight (put_record h r) = inflight r" "nextCall (put_record h r) = nextCall r"
  by (simp_all add: put_record_def written_def)

lemma start_call_frame [simp]: "httpRecords (start_call t b r) = httpRecords r" "written (start_call t b r) = written r"
  "rw (start_call t b r) = rw r" "calls (start_call t b r) = calls r @ [b]"
  "inflight (start_call t b r) = mapSet (inflight r) (nextCall r) t"
  by (simp_all add: start_call_def written_def)

lemma emit_put:
  "\<not> wr_closed (rw r) \<Longrightarrow> ht_requestId h = i \<Longrightarrow>
     written (emitHttpAndDelete i (put_record h r)) = written r @ [http_record_js h]
     \<and> \<not> tracked (emitHttpAndDelete i (put_record h r)) i"
  by (simp add: emitHttpAndDelete_def written_write tracked_def)

lemma http_record_js_get [simp]:
  "ht_meta h = map (\<lambda>k. (k, f k)) [''loaderId'', ''frameId'', ''documentURL'', ''initiator''] \<Longrightarrow> ht_raw h = None \<Longrightarrow>
     js_get (http_record_js h) ''requestId'' = Str (ht_requestId h)
     \<and> js_get (http_record_js h) ''request'' = request_part_js (ht_request h)
     \<and> js_get (http_record_js h) ''response'' = response_js h"
  by (simp add: http_record_js_def response_js_def opt_prop_def split: option.split)

text \<open>
  C28. An exchange is recorded as it happened: a GET request whose start, response and end are reported
  leads to exactly one call to the relay, for its body, and when the body arrives to exactly one line:
  the request's address and method, the status the response reported, and the body within the limit.
  Then the request is forgotten.
\<close>
theorem http_exchange_recorded:
  assumes cfg: "cf_http cfg" "\<not> cf_raw cfg" "http_url url" "http_url url'"
    and r: "\<not> wr_closed (rw r)" and i: "i \<noteq> []" "T \<noteq> []"
    and p1: "js_get p1 ''requestId'' = Str i" "js_get (js_get p1 ''request'') ''url'' = Str url"
      "js_get (js_get p1 ''request'') ''method'' = Str ''GET''" "js_get (js_get p1 ''request'') ''hasPostData'' = Undefined"
    and p2: "js_get p2 ''requestId'' = Str i" "js_get (js_get p2 ''response'') ''url'' = Str url'"
      "js_get (js_get p2 ''response'') ''status'' = Num n"
    and p3: "js_get p3 ''requestId'' = Str i"
    and v: "js_get v ''ok'' = Bool True" "js_get (js_get v ''result'') ''body'' = Str b"
  shows "let r1 = onHttpEvent cfg t1 ''Network.requestWillBeSent'' p1 (Some T) m1 r;
      r2 = onHttpEvent cfg t2 ''Network.responseReceived'' p2 (Some T) m2 r1;
      r3 = onHttpEvent cfg t3 ''Network.loadingFinished'' p3 (Some T) m3 r2;
      r4 = on_response_body cfg i m3 (Inr v) r3 in
    calls r3 = calls r @ [cdp_body ''Network.getResponseBody'' T (Obj [(''requestId'', Str i)])]
    \<and> mapGet (inflight r3) (nextCall r) = Some (ResponseBody i m3)
    \<and> \<not> tracked r4 i \<and> (\<exists>l. written r4 = written r @ [l]
      \<and> js_get l ''requestId'' = Str i \<and> js_get (js_get l ''request'') ''url'' = Str url
      \<and> js_get (js_get l ''request'') ''method'' = Str ''GET'' \<and> js_get (js_get l ''response'') ''status'' = Num n
      \<and> js_get (js_get l ''response'') ''body'' = Str (tr_text (truncateBody cfg b))
      \<and> js_get (js_get l ''response'') ''bodyError'' = Null)"
proof -
  have get: "toUpperCase ''GET'' = ''GET''" by (simp add: toUpperCase_def upper_char_def)
  have "\<exists>h1. onHttpEvent cfg t1 ''Network.requestWillBeSent'' p1 (Some T) m1 r = put_record h1 r
    \<and> ht_requestId h1 = i \<and> q_url (ht_request h1) = url \<and> q_method (ht_request h1) = ''GET'' \<and> ht_raw h1 = None
    \<and> ht_meta h1 = map (\<lambda>k. (k, nullish (js_get p1 k) Null)) [''loaderId'', ''frameId'', ''documentURL'', ''initiator'']
    \<and> ht_targetId h1 = Str T \<and> ht_response h1 = None"
    using cfg i p1 get
    by (simp add: onHttpEvent_def on_request_def str_of_def raw_start_def opt_str_def Let_def)
       (rule exI, rule conjI, rule refl, simp)
  then obtain h1 where h1: "onHttpEvent cfg t1 ''Network.requestWillBeSent'' p1 (Some T) m1 r = put_record h1 r"
    "ht_requestId h1 = i" "q_url (ht_request h1) = url" "q_method (ht_request h1) = ''GET''" "ht_raw h1 = None"
    "ht_meta h1 = map (\<lambda>k. (k, nullish (js_get p1 k) Null)) [''loaderId'', ''frameId'', ''documentURL'', ''initiator'']"
    "ht_targetId h1 = Str T" "ht_response h1 = None" by blast
  define h2 where "h2 = h1\<lparr>ht_targetId := Str T, ht_response := Some (response_part (js_get p2 ''response'') url' Undefined)\<rparr>"
  have 2: "onHttpEvent cfg t2 ''Network.responseReceived'' p2 (Some T) m2 (put_record h1 r) = put_record h2 (put_record h1 r)"
    using cfg i p2 h1(2,7,8) by (simp add: onHttpEvent_def on_response_def str_of_def opt_str_def Let_def h2_def response_js_def)
  have 3: "onHttpEvent cfg t3 ''Network.loadingFinished'' p3 (Some T) m3 (put_record h2 (put_record h1 r))
      = start_call (ResponseBody i m3) (cdp_body ''Network.getResponseBody'' T (Obj [(''requestId'', Str i)])) (put_record h2 (put_record h1 r))"
    using cfg i p3 h1(2) by (simp add: onHttpEvent_def on_finished_def str_of_def opt_str_def the_str_def Let_def h2_def)
  let ?r3 = "start_call (ResponseBody i m3) (cdp_body ''Network.getResponseBody'' T (Obj [(''requestId'', Str i)])) (put_record h2 (put_record h1 r))"
  have "v \<noteq> Undefined" "v \<noteq> Null" using v by auto
  then have "truthy v" using v by (cases v) simp_all
  then have body: "response_body_of cfg (Inr v) = \<lparr>br_body = Some (truncateBody cfg b),
      br_base64 = truthy (js_get (js_get v ''result'') ''base64Encoded''), br_error = Null\<rparr>"
    using v by (simp add: response_body_of_def is_str_def the_str_def)
  define m where "m = with_body (response_body_of cfg (Inr v)) (response_part (js_get p2 ''response'') url' Undefined)"
  define h4 where "h4 = h2\<lparr>ht_response := Some m\<rparr>"
  have 4: "on_response_body cfg i m3 (Inr v) ?r3 = emitHttpAndDelete i (put_record h4 ?r3)"
    using cfg h1(2) by (simp add: on_response_body_def push_raw_def h2_def h4_def m_def)
  have w: "written (emitHttpAndDelete i (put_record h4 ?r3)) = written ?r3 @ [http_record_js h4]"
    "\<not> tracked (emitHttpAndDelete i (put_record h4 ?r3)) i"
    using emit_put [of ?r3 h4 i] r h1(2) by (simp_all add: h4_def h2_def)
  have m: "js_get (Obj m) ''status'' = Num n" "js_get (Obj m) ''body'' = Str (tr_text (truncateBody cfg b))"
    "js_get (Obj m) ''bodyError'' = Null"
    using p2(3) by (simp_all add: m_def with_body_def body response_part_def is_num_def)
  have l: "js_get (http_record_js h4) ''requestId'' = Str i" "js_get (http_record_js h4) ''request'' = request_part_js (ht_request h1)"
    "js_get (http_record_js h4) ''response'' = Obj m"
    using http_record_js_get [of h4 "\<lambda>k. nullish (js_get p1 k) Null"] h1(2-) by (simp_all add: h4_def h2_def response_js_def)
  show ?thesis
    using w m l h1(3,4) by (simp add: Let_def h1(1) 2 3 4 request_part_js_def)
qed

definition demo_params :: "(string \<times> js) list \<Rightarrow> js" where
  "demo_params ps = Obj ((''requestId'', Str ''1'') # ps)"

theorem http_exchange_recorded_witness:
  "let r1 = onHttpEvent rec_demo_cfg ''1'' ''Network.requestWillBeSent''
        (demo_params [(''request'', Obj [(''url'', Str ''http://a''), (''method'', Str ''GET'')])]) (Some ''T'') Null demo_start;
      r2 = onHttpEvent rec_demo_cfg ''2'' ''Network.responseReceived''
        (demo_params [(''response'', Obj [(''url'', Str ''http://a''), (''status'', Num (Fin 200))])]) (Some ''T'') Null r1;
      r3 = onHttpEvent rec_demo_cfg ''3'' ''Network.loadingFinished'' (demo_params []) (Some ''T'') Null r2;
      r4 = on_response_body rec_demo_cfg ''1'' Null
        (Inr (Obj [(''ok'', Bool True), (''result'', Obj [(''body'', Str ''hi'')])])) r3
    in \<exists>l. written r4 = written demo_start @ [l] \<and> js_get (js_get l ''response'') ''body'' = Str ''hi''"
proof -
  have c: "\<not> wr_closed (rw demo_start)"
    by (simp add: demo_start_def start_call_def recorder_new_def writer_new_def rec_write_def)
  have t: "tr_text (truncateBody rec_demo_cfg ''hi'') = ''hi''" by (simp add: truncateBody_def rec_demo_cfg_def whole_def)
  let ?p1 = "demo_params [(''request'', Obj [(''url'', Str ''http://a''), (''method'', Str ''GET'')])]"
    and ?p2 = "demo_params [(''response'', Obj [(''url'', Str ''http://a''), (''status'', Num (Fin 200))])]"
    and ?v = "Obj [(''ok'', Bool True), (''result'', Obj [(''body'', Str ''hi'')])]"
  have "http_url ''http://a''" by (simp add: http_url_def)
  from http_exchange_recorded [OF demo_cfg_simps(1,5) this this c, of "''1''" "''T''" ?p1 ?p2 "Fin 200" "demo_params []" ?v "''hi''"
      "''1''" Null "''2''" Null "''3''" Null]
  show ?thesis unfolding Let_def t by (fastforce simp: demo_params_def)
qed


section \<open>Redaction\<close>

lemma redacted_entries:
  "cf_redact cfg \<Longrightarrow> (k, v) \<in> set (entries (redactHeaderMap cfg h)) \<Longrightarrow> secret_header k \<Longrightarrow> v = Str ''[REDACTED]''"
  by (cases h) (auto simp: redactHeaderMap_def is_object_def entries_def split: if_split_asm)

lemma ws_line_get:
  "k \<in> {''request'', ''response'', ''raw''} \<Longrightarrow> js_get (ws_line cfg kind now conn ps rawMsg) k = js_get (Obj (ps @ raw_prop cfg rawMsg)) k"
  by (auto simp: ws_line_def)

lemma ws_event_part_headers:
  assumes "ws_event_part cfg m ps = Some (kind, qs)" "part \<in> {''request'', ''response''}"
  shows "(\<exists>h. js_get (js_get (Obj qs) part) ''headers'' = redactHeaderMap cfg h)
    \<or> js_get (js_get (Obj qs) part) ''headers'' = Undefined"
  using assms unfolding ws_event_part_def Let_def
  by (simp split: if_split_asm) (elim conjE disjE; hypsubst; simp; blast)+

lemma ws_event_part_raw: "ws_event_part cfg m ps = Some (kind, qs) \<Longrightarrow> ''raw'' \<notin> fst ` set qs"
  unfolding ws_event_part_def Let_def by (simp split: if_split_asm) (hypsubst | simp | elim conjE)+



text \<open>
  With raw payloads on, the same line carries the whole message, headers included, as it came.
\<close>
theorem raw_payload_keeps_secrets:
  assumes "cf_redact cfg" "cf_raw cfg" "ws_event_line cfg now evMethod evParams conn (Obj ps) = Some l"
  shows "js_get l ''raw'' = Obj ps"
proof -
  from assms(3) obtain kind qs where e: "ws_event_part cfg evMethod evParams = Some (kind, qs)"
    and l: "l = ws_line cfg kind now conn qs (Obj ps)" by (auto simp: ws_event_line_def)
  have "js_get (Obj (qs @ raw_prop cfg (Obj ps))) ''raw'' = Obj ps"
    using ws_event_part_raw [OF e] assms(2) by (simp add: js_get_append raw_prop_def)
  then show ?thesis by (simp add: l ws_line_get)
qed

text \<open>
  The relay's status messages carry a \<open>type\<close> and no \<open>method\<close>; the recorder looks for a method
  \<open>status\<close>, so they leave no trace in the log, and neither do the relay's other notices.
\<close>
theorem relay_status_not_recorded:
  "onMsg cfg now (status_message b) r = Some r"
  "onMsg cfg now (Obj [(''type'', Str ''hello''), (''extensionConnected'', Bool b)]) r = Some r"
  by (simp_all add: onMsg_def status_message_def)

end
