(* ===== verification/RelayEffects.thy ===== *)
theory RelayEffects
  imports RelayTrace
begin

text \<open>
  What the relay does to the outside, effect by effect: a contract on predicates over single effects.
  A predicate that holds of every kind of effect the handlers emit holds of the whole trace of a run,
  given what holds of the commands that are issued and of the responses that come in.
\<close>

section \<open>The answers the relay makes itself\<close>

definition relay_codes :: "string set" where
  "relay_codes = {''EXTENSION_NOT_CONNECTED'', ''WS_SEND_FAILED'', ''COMMAND_TIMEOUT'',
     ''EXTENSION_DISCONNECTED'', ''EXTENSION_RECONNECTED''}"

definition relay_made :: "js \<Rightarrow> bool" where
  "relay_made m \<longleftrightarrow> (\<exists>i e. m = makeErrorResponse i e \<and> error_info_ok e \<and> ei_code e \<in> relay_codes)"

lemma relay_made_response: "error_info_ok e \<Longrightarrow> ei_code e \<in> relay_codes \<Longrightarrow> relay_made (makeErrorResponse i e)"
  by (auto simp: relay_made_def)

lemma makeErrorInfo_ok: "(case d of None \<Rightarrow> True | Some v \<Rightarrow> isRecord v) \<Longrightarrow> error_info_ok (makeErrorInfo c m d x)"
  by (simp add: error_info_ok_def makeErrorInfo_def)

text \<open>An answer of the relay's own is an error with a status of its own, never a success.\<close>

lemma relay_made_status: "relay_made m \<Longrightarrow> hr_status (command_reply m) \<in> {502, 503, 504}"
  by (auto simp: relay_made_def relay_codes_def command_reply_def commandErrorToStatus_make code_status_def)


section \<open>The contract\<close>

definition keepalive_text :: string where
  "keepalive_text = '': keepalive'' @ newline @ newline"

definition effects_ok :: "(effect \<Rightarrow> bool) \<Rightarrow> relay \<Rightarrow> bool" where
  "effects_ok Q st \<longleftrightarrow> list_all Q (trace st)"

lemma effects_cong: "trace st' = trace st \<Longrightarrow> effects_ok Q st' = effects_ok Q st"
  by (simp add: effects_ok_def)

lemma effects_emit [simp]: "effects_ok Q (emit e st) \<longleftrightarrow> effects_ok Q st \<and> Q e"
  by (simp add: effects_ok_def)

lemma effects_update [simp]:
  "effects_ok Q (st\<lparr>extension := x\<rparr>) = effects_ok Q st" "effects_ok Q (st\<lparr>nextId := n\<rparr>) = effects_ok Q st"
  "effects_ok Q (st\<lparr>nextReq := r\<rparr>) = effects_ok Q st" "effects_ok Q (st\<lparr>sseClients := cl\<rparr>) = effects_ok Q st"
  "effects_ok Q (st\<lparr>streams := sm\<rparr>) = effects_ok Q st" "effects_ok Q (st\<lparr>pending := p\<rparr>) = effects_ok Q st"
  "effects_ok Q (st\<lparr>sseClients := cl, streams := sm\<rparr>) = effects_ok Q st"
  "effects_ok Q (st\<lparr>streams := sm, sseClients := cl\<rparr>) = effects_ok Q st"
  "effects_ok Q (clearTimer t st) = effects_ok Q st" "effects_ok Q (stopExtensionKeepalive st) = effects_ok Q st"
  "effects_ok Q (startExtensionKeepalive cfg ws st) = effects_ok Q st"
  "effects_ok Q (snd (setTimer k ms st)) = effects_ok Q st"
  by (rule effects_cong; simp add: same_trace_ops setTimer_def)+

definition ping_message :: js where
  "ping_message = Obj [(''type'', Str ''ping'')]"

locale relay_effects =
  fixes Q :: "effect \<Rightarrow> bool" and ok_command :: "relay_command \<Rightarrow> bool" and ok_response :: "js \<Rightarrow> bool"
  assumes quiet: "Q (WsPing ws)" "Q (WsClose ws n t)" "Q (SseClosed c)" "Q (Replied req h)" "Q (Logged l g)"
    and streamed: "Q (SseData c (sse_frame (Obj ps)))" "Q (SseComment c keepalive_text)"
    and pinged: "Q (WsSend ws ping_message)"
    and awaited: "ok_command command \<Longrightarrow> Q (Awaiting w command)"
    and forwarded: "ok_command command \<Longrightarrow> Q (WsSend ws (command_js command))"
    and failed: "relay_made m \<Longrightarrow> Q (Resolved w m)"
    and answered: "ok_response m \<Longrightarrow> Q (Resolved w m)"
begin

lemma logged [simp]: "Q (log_line l g)"
  by (simp add: log_line_def quiet)

lemma ok_broadcast: "effects_ok Q st \<Longrightarrow> effects_ok Q (sseBroadcast net (Obj ps) st)"
  by (auto simp: effects_ok_def sseBroadcast_trace broadcast_effects_def list_all_iff streamed)

lemma ok_respond: "effects_ok Q st \<Longrightarrow> relay_made m \<or> ok_response m \<Longrightarrow> effects_ok Q (respondPending i m st)"
  by (cases "mapGet (pending st) i")
     (auto simp: respondPending_None respondPending_Some effects_ok_def failed answered)

lemma ok_failAll:
  "effects_ok Q st \<Longrightarrow> error_info_ok e \<Longrightarrow> ei_code e \<in> relay_codes \<Longrightarrow> effects_ok Q (failAllPending e st)"
  by (auto simp: effects_ok_def failAllPending_trace list_all_iff intro!: failed relay_made_response)

lemma ok_send:
  assumes "effects_ok Q st" "ok_command command"
  shows "effects_ok Q (sendCommandToExtension net command w ms hint st)"
proof -
  have r: "effects_ok Q (registered command w ms hint st)"
    using assms by (simp add: registered_def effects_ok_def awaited)
  have made: "relay_made (makeErrorResponse i (makeErrorInfo ''WS_SEND_FAILED'' m None x))"
    "relay_made (makeErrorResponse i (makeErrorInfo ''EXTENSION_NOT_CONNECTED'' m None x))" for i m x
    by (rule relay_made_response; simp add: makeErrorInfo_ok relay_codes_def)+
  from assms r show ?thesis
    by (auto simp: sendCommandToExtension_eq Let_def resolve_def made awaited forwarded
        intro!: ok_respond failed split: option.split)
qed

lemma ok_stream:
  "effects_ok Q st \<Longrightarrow> effects_ok Q (stream_cleanup c st)" "effects_ok Q st \<Longrightarrow> effects_ok Q (stream_keepalive_tick net c st)"
  "effects_ok Q st \<Longrightarrow> effects_ok Q (stream_start cfg net b c st)"
proof -
  show c: "effects_ok Q st \<Longrightarrow> effects_ok Q (stream_cleanup c st)" for st
    by (simp add: stream_cleanup_def Let_def quiet split: option.split)
  show "effects_ok Q st \<Longrightarrow> effects_ok Q (stream_keepalive_tick net c st)"
    using streamed(2) by (simp add: stream_keepalive_tick_def keepalive_text_def)
  show "effects_ok Q st \<Longrightarrow> effects_ok Q (stream_start cfg net b c st)"
    by (auto simp: stream_start_def Let_def case_prod_beta streamed intro!: c)
qed

lemma ok_reply: "effects_ok Q st \<Longrightarrow> effects_ok Q (reply n r st)"
  by (simp add: reply_def quiet)

lemma ok_message:
  assumes st: "effects_ok Q st"
    and response: "\<And>v. role = ExtensionRole \<Longrightarrow> parse dat = Inr v \<Longrightarrow> isExtensionResponseMessage v \<Longrightarrow> ok_response v"
  shows "effects_ok Q (ws_message parse net role dat st)"
proof -
  have "\<exists>ps. v = Obj ps" if "isExtensionEventMessage v \<or> isExtensionLogMessage v" for v
    using that by (cases v) (auto simp: isExtensionEventMessage_def isExtensionLogMessage_def)
  with st response show ?thesis
    by (auto simp: ws_message_def parseJsonText_def intro!: ok_broadcast ok_respond split: sum.split)
qed

lemma ok_http:
  assumes st: "effects_ok Q st"
    and commands: "\<forall>(w, c) \<in> set (issued (handleHttpCommand cfg parse net dat req st)). ok_command c"
  shows "effects_ok Q (handleHttpCommand cfg parse net dat req st)"
proof (cases rule: parseHttpCommandBody_cases [of "case parse dat of Inr v \<Rightarrow> v" st])
  case (1 e)
  with st show ?thesis by (auto simp: handleHttpCommand_def parseJsonText_def ok_reply split: sum.split)
next
  case (2 m p)
  with st commands show ?thesis
    by (auto simp: handleHttpCommand_def parseJsonText_def ok_reply issued_send intro!: ok_send split: sum.splits)
qed

lemma ok_fetch:
  assumes st: "effects_ok Q st" and commands: "\<forall>(w, c) \<in> set (issued (fetch cfg parse net rq st)). ok_command c"
  shows "effects_ok Q (fetch cfg parse net rq st)"
proof -
  have probe: "effects_ok Q (runActiveTargetHealthProbe cfg net req s)"
    if "effects_ok Q s" "\<forall>(w, c) \<in> set (issued (runActiveTargetHealthProbe cfg net req s)). ok_command c" for req s
    using that by (auto simp: runActiveTargetHealthProbe_def case_prod_beta issued_send intro!: ok_send)
  from st commands show ?thesis
    by (auto simp: fetch_def Let_def handleHealth_def intro!: ok_reply ok_stream ok_http probe split: if_splits)
qed

lemma ok_sockets:
  "effects_ok Q st \<Longrightarrow> effects_ok Q (ws_open cfg net role ws st)"
  "effects_ok Q st \<Longrightarrow> effects_ok Q (ws_close net role ws c reason st)"
  by (auto simp: ws_open_def ws_close_def Let_def status_message_def relay_log_def quiet
      makeErrorInfo_ok relay_codes_def intro!: ok_broadcast ok_failAll split: option.split)

lemma ok_fire: "effects_ok Q st \<Longrightarrow> effects_ok Q (fire net t st)"
proof -
  assume st: "effects_ok Q st"
  have "effects_ok Q (extension_keepalive_tick net ws st)" for ws
    using st pinged by (simp add: extension_keepalive_tick_def wsSendJson_def ping_message_def quiet split: option.split)
  moreover have "relay_made (makeErrorResponse i (makeTimeoutErrorInfo ms h))" for i ms h
    by (rule relay_made_response) (simp_all add: relay_codes_def)
  ultimately show ?thesis
    using st by (auto simp: fire_def intro!: ok_respond ok_stream split: option.split task.split)
qed

lemma ok_handle:
  assumes st: "effects_ok Q st"
    and commands: "\<forall>(w, c) \<in> set (issued (handle cfg parse net e st)). ok_command c"
    and response: "\<And>dat v. e = SocketMessage ExtensionRole dat \<Longrightarrow> parse dat = Inr v \<Longrightarrow>
      isExtensionResponseMessage v \<Longrightarrow> ok_response v"
  shows "effects_ok Q (handle cfg parse net e st)"
  using assms by (cases e) (auto simp: ok_fetch ok_sockets ok_fire ok_stream intro!: ok_message)

lemma ok_step:
  assumes "effects_ok Q st"
    and "\<forall>(w, c) \<in> set (issued (relay_step cfg parse (net, e) st)). ok_command c"
    and "\<And>dat v. e = SocketMessage ExtensionRole dat \<Longrightarrow> parse dat = Inr v \<Longrightarrow>
      isExtensionResponseMessage v \<Longrightarrow> ok_response v"
  shows "effects_ok Q (relay_step cfg parse (net, e) st)"
proof -
  have "effects_ok Q (handle cfg parse net e st)"
    using assms by (intro ok_handle) (simp_all add: relay_step_def Let_def)
  then show ?thesis
    by (auto simp: relay_step_def Let_def effects_ok_def continue_with_trace list_all_iff quiet)
qed

end

end
