(* ===== verification/StreamToRecorder.thy ===== *)
theory StreamToRecorder
  imports RecorderLines RelayEffects RelayReplies
begin

text \<open>
  The relay and the recorder together: what the relay writes on an event stream in any of its runs, and
  what a recorder that reads this stream does with it, however the network cuts the text.
\<close>

section \<open>What the relay writes on its streams\<close>

definition frame_ok :: "effect \<Rightarrow> bool" where
  "frame_ok e \<longleftrightarrow> (case e of SseData c t \<Rightarrow> \<exists>ps. t = sse_frame (Obj ps) | SseComment c t \<Rightarrow> t = keepalive_text | _ \<Rightarrow> True)"

text \<open>Every effect the relay emits satisfies it, whatever the commands and responses are.\<close>

interpretation stream_frames: relay_effects frame_ok "\<lambda>_. True" "\<lambda>_. True"
  by unfold_locales (auto simp: frame_ok_def)

lemma frames_run: "effects_ok frame_ok (relay_run cfg parse evs)"
proof -
  have "effects_ok frame_ok (run_events (relay_step cfg parse) es st)" if "effects_ok frame_ok st" for es st
    using that by (induction es arbitrary: st) (auto simp: stream_frames.ok_step)
  then show ?thesis by (simp add: relay_run_def effects_ok_def relay_init_def)
qed


section \<open>What a client gets\<close>

text \<open>The text and the messages the relay put on one stream, in order.\<close>

definition stream_text :: "nat \<Rightarrow> effect list \<Rightarrow> string" where
  "stream_text c es = concat (map (\<lambda>e. case e of SseData c' t \<Rightarrow> if c' = c then t else []
     | SseComment c' t \<Rightarrow> if c' = c then t else [] | _ \<Rightarrow> []) es)"

definition stream_messages :: "nat \<Rightarrow> effect list \<Rightarrow> string list" where
  "stream_messages c es = concat (map (\<lambda>e. case e of SseData c' t \<Rightarrow> if c' = c then [t] else [] | _ \<Rightarrow> []) es)"

lemma stream_items:
  "list_all frame_ok es \<Longrightarrow> \<exists>items. stream_text c es = concat (map item_text items)
     \<and> stream_messages c es = map (\<lambda>d. ''data: '' @ d @ newline @ newline) (concat (map item_data items))"
proof (induction es)
  case Nil
  show ?case by (rule exI [of _ "[]"]) (simp add: stream_text_def stream_messages_def)
next
  case (Cons e es)
  then obtain items where items: "stream_text c es = concat (map item_text items)"
    "stream_messages c es = map (\<lambda>d. ''data: '' @ d @ newline @ newline) (concat (map item_data items))" by auto
  have step: "stream_text c (e # es) = stream_text c [e] @ stream_text c es"
    "stream_messages c (e # es) = stream_messages c [e] @ stream_messages c es"
    by (simp_all add: stream_text_def stream_messages_def)
  have "\<exists>is. stream_text c [e] = concat (map item_text is)
     \<and> stream_messages c [e] = map (\<lambda>d. ''data: '' @ d @ newline @ newline) (concat (map item_data is))"
  proof (cases e)
    case (SseData c' t)
    with Cons.prems obtain ps where t: "t = sse_frame (Obj ps)" by (auto simp: frame_ok_def)
    show ?thesis
      by (rule exI [of _ "if c' = c then [Message ps] else []"])
         (simp add: SseData t stream_text_def stream_messages_def, simp add: sse_frame_def)
  next
    case (SseComment c' t)
    with Cons.prems have t: "t = item_text Keepalive" by (simp add: frame_ok_def keepalive_text_def)
    show ?thesis
      by (rule exI [of _ "if c' = c then [Keepalive] else []"])
         (simp add: SseComment t stream_text_def stream_messages_def)
  qed (rule exI [of _ "[]"], simp add: stream_text_def stream_messages_def)+
  then obtain "is" where "stream_text c [e] = concat (map item_text is)"
    "stream_messages c [e] = map (\<lambda>d. ''data: '' @ d @ newline @ newline) (concat (map item_data is))" by blast
  with items show ?case by (intro exI [of _ "is @ items"]) (simp add: step)
qed


section \<open>What the recorder does with it\<close>

lemma deliver_all_append: "deliver_all cfg parse now (ts @ us) r = deliver_all cfg parse now us (deliver_all cfg parse now ts r)"
  by (induction ts arbitrary: r) auto

lemma read_head_same: "rec_phase r = ReadingStream buffer \<Longrightarrow> \<not> ss_stopped (stopSig r) \<Longrightarrow> read_head buffer r = r"
  by (cases r) (simp add: read_head_def)

text \<open>The handlers do not look at the phase: they commute with moving the recorder to another one.\<close>

definition at_phase :: "rec_phase \<Rightarrow> recorder \<Rightarrow> recorder" where
  "at_phase b r = r\<lparr>rec_phase := b\<rparr>"

lemma at_phase_frame:
  "httpRecords (at_phase b r) = httpRecords r" "wsConns (at_phase b r) = wsConns r" "stopSig (at_phase b r) = stopSig r"
  "streamAborted (at_phase b r) = streamAborted r" "rec_phase (at_phase b r) = b" "at_phase b (at_phase d r) = at_phase b r"
  by (simp_all add: at_phase_def)

lemma at_phase_basic:
  "rec_write l (at_phase b r) = at_phase b (rec_write l r)" "put_record h (at_phase b r) = at_phase b (put_record h r)"
  "put_conn c (at_phase b r) = at_phase b (put_conn c r)" "start_call t j (at_phase b r) = at_phase b (start_call t j r)"
  "(at_phase b r)\<lparr>wsConns := m\<rparr> = at_phase b (r\<lparr>wsConns := m\<rparr>)"
  by (simp_all add: at_phase_def rec_write_def put_record_def put_conn_def start_call_def)

lemma at_phase_emit: "emitHttpAndDelete i (at_phase b r) = at_phase b (emitHttpAndDelete i r)"
  by (simp add: emitHttpAndDelete_def at_phase_def rec_write_def split: option.split)

lemma at_phase_distrib:
  "at_phase b (if c then x else y) = (if c then at_phase b x else at_phase b y)"
  "at_phase b (case v of None \<Rightarrow> x | Some a \<Rightarrow> f a) = (case v of None \<Rightarrow> at_phase b x | Some a \<Rightarrow> at_phase b (f a))"
  by (simp_all split: option.split)

lemmas at_phase_rules = at_phase_frame at_phase_basic at_phase_emit

lemma at_phase_http:
  "on_request cfg now i ps t raw (at_phase b r) = at_phase b (on_request cfg now i ps t raw r)"
  "on_request_extra cfg i ps raw (at_phase b r) = at_phase b (on_request_extra cfg i ps raw r)"
  "on_response cfg now i ps t raw (at_phase b r) = at_phase b (on_response cfg now i ps t raw r)"
  "on_response_extra cfg i ps raw (at_phase b r) = at_phase b (on_response_extra cfg i ps raw r)"
  "on_finished cfg i t raw (at_phase b r) = at_phase b (on_finished cfg i t raw r)"
  "on_failed cfg now i ps t raw (at_phase b r) = at_phase b (on_failed cfg now i ps t raw r)"
  "on_other_http cfg i raw (at_phase b r) = at_phase b (on_other_http cfg i raw r)"
  by (simp_all only: on_request_def on_request_extra_def on_response_def on_response_extra_def on_finished_def
      on_failed_def on_other_http_def Let_def at_phase_distrib at_phase_rules)

lemma at_phase_created: "on_ws_created cfg now ps c raw (at_phase b r) = at_phase b (on_ws_created cfg now ps c raw r)"
  by (simp only: on_ws_created_def Let_def case_prod_beta at_phase_basic at_phase_distrib)

lemma at_phase_case: "(case v of None \<Rightarrow> at_phase b r | Some l \<Rightarrow> at_phase b (f l))
    = at_phase b (case v of None \<Rightarrow> r | Some l \<Rightarrow> f l)"
  by (simp split: option.split)

lemma at_phase_other: "on_ws_other cfg now m ps c raw (at_phase b r) = at_phase b (on_ws_other cfg now m ps c raw r)"
  by (simp only: on_ws_other_def Let_def case_prod_beta at_phase_basic at_phase_case at_phase_frame at_phase_distrib(1))

lemmas at_phase_ws = at_phase_created at_phase_other

lemma at_phase_onHttpEvent: "onHttpEvent cfg now m ps t raw (at_phase b r) = at_phase b (onHttpEvent cfg now m ps t raw r)"
  by (simp only: onHttpEvent_def Let_def at_phase_distrib at_phase_http)

lemma at_phase_onWsEvent: "onWsEvent cfg now m ps t raw (at_phase b r) = at_phase b (onWsEvent cfg now m ps t raw r)"
  by (simp only: onWsEvent_def Let_def at_phase_distrib at_phase_ws getWsConn_def at_phase_frame)

lemma at_phase_onMsg: "onMsg cfg now msg (at_phase b r) = map_option (at_phase b) (onMsg cfg now msg r)"
  by (simp add: onMsg_def Let_def at_phase_onHttpEvent at_phase_onWsEvent at_phase_basic)

lemma at_phase_deliver: "deliver cfg parse now t (at_phase b r) = at_phase b (deliver cfg parse now t r)"
  by (simp add: deliver_def Let_def at_phase_onMsg split: sum.split option.split)

lemma at_phase_deliver_all: "deliver_all cfg parse now ts (at_phase b r) = at_phase b (deliver_all cfg parse now ts r)"
  by (induction ts arbitrary: r) (simp_all add: at_phase_deliver)

lemma chunks_read:
  assumes "rec_phase r = ReadingStream buffer" "\<not> ss_stopped (stopSig r)" "\<not> streamAborted r"
    and "sse_read buffer chunks = Some (texts, rest)"
  shows "rec_run cfg parse te (map (\<lambda>t. (now, StreamChunk t)) chunks) r
    = at_phase (ReadingStream rest) (deliver_all cfg parse now texts r)"
  using assms
proof (induction chunks arbitrary: r buffer texts)
  case Nil
  then have "at_phase (ReadingStream rest) r = r" by (simp add: at_phase_def)
  with Nil show ?case by (simp add: rec_run_def)
next
  case (Cons chunk chunks)
  from Cons.prems(4) obtain ts rest' us where d: "sse_drain (buffer @ chunk) = Some (ts, rest')"
    "sse_read rest' chunks = Some (us, rest)" "texts = ts @ us"
    by (auto split: option.splits)
  let ?m = "deliver_all cfg parse now ts r"
  have m: "stopSig ?m = stopSig r" "streamAborted ?m = streamAborted r"
    using moves_fields [OF moves_deliver_all] by simp_all
  let ?r = "at_phase (ReadingStream rest') ?m"
  have "rec_step cfg parse te (now, StreamChunk chunk) r = ?r"
    using Cons.prems d(1) m by (simp add: rec_step_def stream_step_def on_stream_chunk_def read_head_def at_phase_def)
  moreover have "rec_run cfg parse te (map (\<lambda>t. (now, StreamChunk t)) chunks) ?r
      = at_phase (ReadingStream rest) (deliver_all cfg parse now us ?r)"
    using Cons.prems m d(2) by (intro Cons.IH) (simp_all add: at_phase_frame)
  ultimately show ?case
    by (simp add: rec_run_def d(3) deliver_all_append at_phase_deliver_all at_phase_frame)
qed

text \<open>
  C6. The recorder sees what the relay broadcasts: take any run of the relay and all the text it put on
  the stream of one client, cut into pieces in any way. A recorder that reads these pieces handles
  exactly the messages the relay sent to that client, each once and in order (keepalives are dropped),
  and its buffer is empty again at the end.
\<close>
theorem recorder_sees_the_broadcasts:
  assumes "rec_phase r = ReadingStream []" "\<not> ss_stopped (stopSig r)" "\<not> streamAborted r"
    and "concat chunks = stream_text c (trace (relay_run rcfg rparse evs))"
  shows "\<exists>msgs. stream_messages c (trace (relay_run rcfg rparse evs)) = map (\<lambda>d. ''data: '' @ d @ newline @ newline) msgs
    \<and> rec_run cfg parse te (map (\<lambda>t. (now, StreamChunk t)) chunks) r
      = (deliver_all cfg parse now msgs r)\<lparr>rec_phase := ReadingStream []\<rparr>"
proof -
  have "list_all frame_ok (trace (relay_run rcfg rparse evs))" using frames_run by (simp add: effects_ok_def)
  from stream_items [OF this, of c] obtain items where
    i: "stream_text c (trace (relay_run rcfg rparse evs)) = concat (map item_text items)"
      "stream_messages c (trace (relay_run rcfg rparse evs))
        = map (\<lambda>d. ''data: '' @ d @ newline @ newline) (concat (map item_data items))" by blast
  have "sse_read [] chunks = Some (concat (map item_data items), [])"
    using sse_read_from [of "[]" chunks] assms(4) i(1) sse_drain_items [of items] by (simp add: event_end_def newline_def)
  from chunks_read [OF assms(1,2,3) this] i(2) show ?thesis by (auto simp: at_phase_def)
qed

text \<open>A stream that is opened before the extension connects: a greeting and a status message.\<close>

definition demo_watched :: relay where
  "demo_watched = relay_run demo_cfg demo_parse
     [(demo_net, Fetch (demo_post\<lparr>rq_path := ''/events'', rq_method := ''GET''\<rparr>)), (demo_net, SocketOpen ExtensionRole 5)]"

lemma demo_watched_messages: "length (stream_messages 0 (trace demo_watched)) = 2"
  by (simp add: demo_watched_def relay_run_def relay_step_def demo_cfg_def demo_net_def demo_post_def relay_init_def
      fetch_def stream_start_def setTimer_def reply_def emit_def ws_open_def relay_log_def log_line_def
      startExtensionKeepalive_def stopExtensionKeepalive_def sseBroadcast_def mapKeys_def mapSet_def stream_messages_def Let_def
      del: stringify.simps)

theorem recorder_sees_the_broadcasts_witness:
  "let r = rec_run rec_demo_cfg demo_texts (newError ''t'') demo_prelude demo_start in
   \<exists>msgs. length msgs = 2 \<and> rec_run rec_demo_cfg demo_texts (newError ''t'')
       (map (\<lambda>t. (''5'', StreamChunk t)) [stream_text 0 (trace demo_watched)]) r
     = (deliver_all rec_demo_cfg demo_texts ''5'' msgs r)\<lparr>rec_phase := ReadingStream []\<rparr>"
proof -
  let ?r = "rec_run rec_demo_cfg demo_texts (newError ''t'') demo_prelude demo_start"
  have r: "rec_phase ?r = ReadingStream []" "\<not> streamAborted ?r" "\<not> cleaned ?r" using demo_streaming by blast+
  then have s: "\<not> ss_stopped (stopSig ?r)" using rec_run_inv [OF demo_main, of "newError ''t''" demo_prelude] by (simp add: rec_inv_def)
  have "concat [stream_text 0 (trace demo_watched)] = stream_text 0 (trace demo_watched)" by simp
  from recorder_sees_the_broadcasts [OF r(1) s r(2) this [unfolded demo_watched_def], folded demo_watched_def]
  obtain msgs where m: "stream_messages 0 (trace demo_watched) = map (\<lambda>d. ''data: '' @ d @ newline @ newline) msgs"
    "rec_run rec_demo_cfg demo_texts (newError ''t'') (map (\<lambda>t. (''5'', StreamChunk t)) [stream_text 0 (trace demo_watched)]) ?r
      = (deliver_all rec_demo_cfg demo_texts ''5'' msgs ?r)\<lparr>rec_phase := ReadingStream []\<rparr>" by blast
  from m(1) demo_watched_messages have "length msgs = 2" by (metis length_map)
  with m(2) show ?thesis unfolding Let_def by blast
qed

end
