(* ===== verification/EndToEnd.thy ===== *)
theory EndToEnd
  imports BackgroundProperties
begin

text \<open>
  The relay and the extension together: a command on its way from an HTTP request through the relay's
  socket to the extension's handler and back into the HTTP answer.
\<close>

section \<open>A command and its answer\<close>

text \<open>A frame that carries a command is queued, and the daemon takes it at once when nothing else waits.\<close>

lemma command_taken_up:
  assumes "handlers_of e w = Some Installed" "messagesQ e = []"
    and "parse_json br dat = Inr v" "isExtensionCommandMessage v"
  shows "processMessages br (on_message br w dat e) = snd (handleMessage br (command_of_js v) e)"
proof -
  from assms(2) have same: "e\<lparr>messagesQ := []\<rparr> = e" by simp
  from assms show ?thesis by (simp add: on_message_def processMessages_def same)
qed

lemma cid_waiting: "mapGet (pending (registered c w ms h st)) (num_of_nat (rc_id c))
    = Some \<lparr>pe_resolve = w, pe_timeout = nextTimer st\<rparr>"
  "trace (registered c w ms h st) = trace st @ [Awaiting w c]"
  by (simp_all add: registered_def emit_def)

lemma response_status:
  assumes "response_of (Num i) x = Some r" "isFinite i"
  shows "hr_status (command_reply (wire r)) = (case x of Success v \<Rightarrow> 200
      | Failure t \<Rightarrow> code_status (ei_code (toExtensionErrorInfo t no_fallback)))"
proof (cases x)
  case (Success v)
  with assms show ?thesis
    by (cases "v = Undefined") (auto simp: success_response_def command_reply_def commandErrorToStatus_def getResponseErrorInfo_def)
next
  case (Failure t)
  let ?e = "toExtensionErrorInfo t no_fallback"
  have ok: "error_info_ok ?e" by (rule toExtensionErrorInfo_ok) (simp add: no_fallback_def)
  have "wire r = makeErrorResponse i (wire_info ?e)"
    using Failure assms wire_error_info [OF ok]
    by (simp add: toExtensionErrorResponse_def Let_def makeErrorResponse_def) (auto simp: wire_info_def error_info_js_def)
  with Failure commandErrorToStatus_make [OF wire_info_ok [OF ok]] show ?thesis
    by (simp add: command_reply_def wire_info_def)
next
  case (Defect t)
  with assms show ?thesis by simp
qed

lemma response_result:
  "js_get (wire (success_response (Num i) v)) ''result'' = (if v = Undefined then Undefined else wire v)"
  by (auto simp: success_response_def)

text \<open>
  C3. The round trip of a command. The relay takes a body from an HTTP request and sends one frame; the
  extension, with this socket installed and nothing queued, takes the frame up, runs the handler the
  methods select, and sends back exactly one response; when that response reaches the relay, the
  request is answered exactly once, with status 200 and the handler's own result, or with the status
  of the handler's error code, and the command is no longer pending.
\<close>
theorem command_round_trip:
  assumes rq: "rq_path rq = ''/command''" "rq_method rq = ''POST''" "parse (rq_body rq) = Inr body"
    and accepted: "json_parsed body" "parseHttpCommandBody body st = (Inr c, s)"
      "js_get body ''type'' \<noteq> Str ''command'' \<or> isExtensionCommandMessage body"
    and up: "send_failure net (extension st) = None"
    and arrives: "parse_json br (stringify (command_js c)) = Inr (wire (command_js c))"
      "handlers_of e w = Some Installed" "messagesQ e = []"
    and runs: "command_result br (command_of_js (wire (command_js c))) e = (x, e')"
      "response_of (Num (num_of_nat (rc_id c))) x = Some r" "can_send br e'"
    and returns: "parse (stringify r) = Inr (wire r)"
    and taken: "st1 = relay_step cfg parse (net, Fetch rq) st"
  shows "trace st1 = trace st @ [Awaiting (CommandWaiter (nextReq st)) c, WsSend (the (extension st)) (command_js c)]
    \<and> sent_messages (processMessages br (on_message br w (stringify (command_js c)) e)) = sent_messages e' @ [r]
    \<and> (let st2 = relay_step cfg parse (net', SocketMessage ExtensionRole (stringify r)) st1 in
        trace st2 = trace st1 @ [Resolved (CommandWaiter (nextReq st)) (wire r), Replied (nextReq st) (command_reply (wire r))]
        \<and> pending st2 = mapDelete (pending st1) (num_of_nat (rc_id c)))
    \<and> hr_status (command_reply (wire r)) = (case x of Success v \<Rightarrow> 200
        | Failure t \<Rightarrow> code_status (ei_code (toExtensionErrorInfo t no_fallback)))
    \<and> (\<forall>v. x = Success v \<longrightarrow> js_get (wire r) ''result'' = (if v = Undefined then Undefined else wire v))"
proof -
  let ?i = "num_of_nat (rc_id c)" and ?w = "CommandWaiter (nextReq st)"
  let ?cmd = "command_of_js (wire (command_js c))"
  note acc = accepted_body [OF accepted]
  have id: "cmd_id ?cmd = Num ?i" using acc by simp
  have fin: "isFinite ?i" by (simp add: num_of_nat_def)
  obtain e'' where e'': "handleMessage br ?cmd e = (Success (), e'')" "sent_messages e'' = sent_messages e' @ [r]"
    and ok: "isExtensionResponseMessage (wire r)" "js_get (wire r) ''id'' = Num ?i"
    using handler_answers [OF runs(1), of r ?i] id runs(2,3) fin by auto
  have "processMessages br (on_message br w (stringify (command_js c)) e) = e''"
    using command_taken_up [of e w br "stringify (command_js c)" "wire (command_js c)"] arrives acc e''(1) by simp
  with e''(2) have ext: "sent_messages (processMessages br (on_message br w (stringify (command_js c)) e)) = sent_messages e' @ [r]"
    by simp
  have st1: "st1 = emit (WsSend (the (extension st)) (command_js c))
    (registered c ?w (REQUEST_TIMEOUT_MS cfg) True (st\<lparr>nextReq := Suc (nextReq st), nextId := js_inc (nextId st)\<rparr>))"
    unfolding taken by (rule dispatch_open [of rq parse body st c s net cfg, OF rq accepted(2) up])
  have p: "mapGet (pending st1) ?i = Some \<lparr>pe_resolve = ?w, pe_timeout = nextTimer st\<rparr>"
    unfolding st1 by (simp add: cid_waiting)
  have t: "trace st1 = trace st @ [Awaiting ?w c, WsSend (the (extension st)) (command_js c)]"
    unfolding st1 by (simp add: cid_waiting)
  have settles: "relay_step cfg parse (net', SocketMessage ExtensionRole (stringify r)) st1 =
    st1\<lparr>timers := mapDelete (timers st1) (nextTimer st), pending := mapDelete (pending st1) ?i,
      trace := trace st1 @ [Resolved ?w (wire r), Replied (nextReq st) (command_reply (wire r))]\<rparr>"
    using response_settles [OF p, of parse] returns ok by simp
  have status: "hr_status (command_reply (wire r)) = (case x of Success v \<Rightarrow> 200
        | Failure t \<Rightarrow> code_status (ei_code (toExtensionErrorInfo t no_fallback)))"
    by (rule response_status [OF runs(2) fin])
  have "js_get (wire r) ''result'' = (if v = Undefined then Undefined else wire v)" if "x = Success v" for v
    using runs(2) that response_result [of ?i v] by simp
  with t ext status show ?thesis by (simp add: settles Let_def)
qed


text \<open>A session: a socket, a request to count the tabs, and the number that comes back.\<close>

definition trip_relay :: relay where
  "trip_relay = relay_init\<lparr>extension := Some 5\<rparr>"

definition trip_ext :: ext where
  "trip_ext = (ext_init [])\<lparr>wsRef := Some 0, sockets := [(0, \<lparr>sk_ready = OPEN, sk_url = ''u'', sk_handlers = Installed\<rparr>)]\<rparr>"

definition trip_command :: relay_command where
  "trip_command = \<lparr>rc_id = 1, rc_method = Str ''tab'', rc_params = Obj [(''method'', Str ''tab.countTabs''),
     (''params'', Undefined), (''targetId'', Undefined)]\<rparr>"

definition trip_browser :: browser where
  "trip_browser = quiet_browser\<lparr>parse_json := (\<lambda>_. Inr (wire (command_js trip_command)))\<rparr>"

definition trip_answer :: js where
  "trip_answer = success_response (Num (num_of_nat 1)) (Num (num_of_nat 1))"

definition trip_parse :: json_parser where
  "trip_parse t = (if t = ''body'' then Inr demo_body else if t = stringify trip_answer then Inr (wire trip_answer)
     else Inl (newError ''bad''))"

theorem command_round_trip_witness:
  "hr_status (command_reply (wire trip_answer)) = 200
   \<and> Replied 0 (command_reply (wire trip_answer)) \<in> set (trace (relay_step demo_cfg trip_parse
       (demo_net, SocketMessage ExtensionRole (stringify trip_answer))
       (relay_step demo_cfg trip_parse (demo_net, Fetch demo_post) trip_relay)))"
proof -
  have rq: "rq_path demo_post = ''/command''" "rq_method demo_post = ''POST''" "trip_parse (rq_body demo_post) = Inr demo_body"
    by (simp_all add: demo_post_def trip_parse_def)
  have b: "json_parsed demo_body" "js_get demo_body ''type'' \<noteq> Str ''command'' \<or> isExtensionCommandMessage demo_body"
    by (simp_all add: demo_body_def)
  have c: "parseHttpCommandBody demo_body trip_relay = (Inr trip_command, trip_relay\<lparr>nextId := js_inc (nextId trip_relay)\<rparr>)"
    by (simp add: parseHttpCommandBody_def demo_body_def isExtensionCommandMessage_def isClientEnvelope_def
        isExtensionMethod_def makeCommand_def trip_command_def trip_relay_def relay_init_def)
  have up: "send_failure demo_net (extension trip_relay) = None"
    by (simp add: send_failure_def is_open_def trip_relay_def demo_net_def)
  have a: "parse_json trip_browser (stringify (command_js trip_command)) = Inr (wire (command_js trip_command))"
    "handlers_of trip_ext 0 = Some Installed" "messagesQ trip_ext = []"
    by (simp_all add: trip_browser_def trip_ext_def handlers_of_def mapGet_def ext_init_def)
  have r: "command_result trip_browser (command_of_js (wire (command_js trip_command))) trip_ext
      = (Success (Num (num_of_nat 1)), trip_ext)"
    "response_of (Num (num_of_nat (rc_id trip_command))) (Success (Num (num_of_nat 1))) = Some trip_answer"
    "can_send trip_browser trip_ext"
    by (simp add: command_result_def command_of_js_def command_js_def trip_command_def tab_handleCommand_def countOpenTabs_def
        trip_browser_def quiet_browser_def eff_mapError_def eff_map_def eff_catch_run eff_bind_run eff_call_run)
      (simp_all add: trip_answer_def trip_command_def can_send_def isConnected_def ready_of_def trip_ext_def mapGet_def
        trip_browser_def quiet_browser_def)
  have p: "trip_parse (stringify trip_answer) = Inr (wire trip_answer)"
    by (simp add: trip_parse_def trip_answer_def success_response_def)
  have n: "nextReq trip_relay = 0" by (simp add: trip_relay_def relay_init_def)
  from command_round_trip [OF rq b(1) c b(2) up a r p refl, of demo_cfg demo_net, unfolded n]
  show ?thesis by (simp add: Let_def)
qed

end
