(* ===== verification/WholeSystem.thy ===== *)
theory WholeSystem
  imports EndToEnd RelayEffects
begin

text \<open>
  The whole system: one relay process and the extension's service worker, which may be restarted, with
  a network between them that loses, delays and reorders frames. The system is a step relation over
  both processes and the frames in flight; what an HTTP client is answered in any of its reachable
  states comes from running that client's own command, or is an error of the relay's own.
\<close>

section \<open>Every reply is the reply to a settled promise\<close>

lemma Replied_replied: "Replied n h \<in> set es \<Longrightarrow> n \<in> set (replied_in es)"
proof (induction es)
  case (Cons e es)
  then show ?case by (cases e) auto
qed simp

definition reply_inv :: "relay_config \<Rightarrow> relay \<Rightarrow> bool" where
  "reply_inv cfg st \<longleftrightarrow> distinct (map waiter_req (begun st)) \<and> (\<forall>w \<in> set (begun st). waiter_req w < nextReq st)
     \<and> (\<forall>n h. Replied n h \<in> set (trace st) \<longrightarrow> n < nextReq st
          \<and> (n \<in> waiter_req ` set (begun st) \<longrightarrow>
              (\<exists>w m now. waiter_req w = n \<and> (w, m) \<in> set (resolved st) \<and> h = reply_of cfg now w m)))"

text \<open>A handler takes at most one new request, and either answers it or begins a promise for it.\<close>

lemma handle_one_request:
  assumes es: "trace (handle cfg parse net ev st) = trace st @ es"
  shows "replied_in es = [] \<and> begun_in es = [] \<and> nextReq (handle cfg parse net ev st) = nextReq st
    \<or> nextReq (handle cfg parse net ev st) = Suc (nextReq st)
       \<and> (replied_in es = [nextReq st] \<and> begun_in es = []
          \<or> replied_in es = [] \<and> (\<exists>w. begun_in es = [w] \<and> waiter_req w = nextReq st))"
proof (cases "\<exists>rq. ev = Fetch rq")
  case True
  then obtain rq where "ev = Fetch rq" by blast
  then have "mset (replied_in es) + mset (map waiter_req (begun_in es)) = {# nextReq st #}"
    "nextReq (handle cfg parse net ev st) = Suc (nextReq st)"
    using es fetch_account [of cfg parse net rq st] by (simp_all add: open_or_answered_def)
  then show ?thesis
    by (cases "replied_in es"; cases "begun_in es") auto
next
  case False
  then have "\<And>rq. ev \<noteq> Fetch rq" by blast
  from other_account [OF this, of cfg parse net st] es have "mset (replied_in es) + mset (map waiter_req (begun_in es)) = {#}"
    "nextReq (handle cfg parse net ev st) = nextReq st"
    by (simp_all add: open_or_answered_def)
  then show ?thesis by simp
qed

lemma reply_step:
  assumes inv: "reply_inv cfg st" and corr: "corr_inv (relay_step cfg parse ne st)"
  shows "reply_inv cfg (relay_step cfg parse ne st)"
proof -
  let ?h = "handle cfg parse (fst ne) (snd ne) st" and ?s = "relay_step cfg parse ne st"
  obtain es where es: "trace ?h = trace st @ es"
    using grows_handle [of st cfg parse "fst ne" "snd ne"] by (auto simp: grows_def)
  have step: "?s = continue_with cfg (clock (fst ne)) es ?h" by (simp add: relay_step_def Let_def es)
  have begun: "begun ?s = begun st @ begun_in es" and req: "nextReq ?s = nextReq ?h"
    by (simp_all add: step es)
  have trace: "trace ?s = trace st @ es
      @ map (\<lambda>(w, m). Replied (waiter_req w) (reply_of cfg (clock (fst ne)) w m)) (resolved_in es)"
    by (simp add: step continue_with_trace es)
  have res: "resolved ?s = resolved st @ resolved_in es"
  proof -
    have "resolved_in (map (\<lambda>(w, m). Replied (waiter_req w) (reply_of cfg now w m)) rs) = []" for rs now
      by (induction rs) auto
    then show ?thesis by (simp add: trace)
  qed
  note one = handle_one_request [OF es]
  from inv have old: "distinct (map waiter_req (begun st))" "\<forall>w \<in> set (begun st). waiter_req w < nextReq st"
    and replies: "\<And>n h. Replied n h \<in> set (trace st) \<Longrightarrow> n < nextReq st
      \<and> (n \<in> waiter_req ` set (begun st) \<longrightarrow>
          (\<exists>w m now. waiter_req w = n \<and> (w, m) \<in> set (resolved st) \<and> h = reply_of cfg now w m))"
    by (auto simp: reply_inv_def)
  from old one have b: "distinct (map waiter_req (begun ?s))" "\<forall>w \<in> set (begun ?s). waiter_req w < nextReq ?s"
    unfolding begun req by auto
  have "n < nextReq ?s \<and> (n \<in> waiter_req ` set (begun ?s) \<longrightarrow>
      (\<exists>w m now. waiter_req w = n \<and> (w, m) \<in> set (resolved ?s) \<and> h = reply_of cfg now w m))"
    if "Replied n h \<in> set (trace ?s)" for n h
  proof -
    from that trace consider "Replied n h \<in> set (trace st)" | "Replied n h \<in> set es"
      | w m where "(w, m) \<in> set (resolved_in es)" "n = waiter_req w" "h = reply_of cfg (clock (fst ne)) w m" by auto
    then show ?thesis
    proof cases
      case 1
      with replies [OF 1] one show ?thesis unfolding begun req res by auto
    next
      case 2
      from Replied_replied [OF 2] one old show ?thesis unfolding begun req by auto
    next
      case 3
      then have "(w, m) \<in> set (resolved ?s)" by (simp add: res)
      from corr_invD1 [OF corr this] have "w \<in> set (begun ?s)" by (force simp: issued_begun [symmetric])
      with b(2) 3(2) have "n < nextReq ?s" by simp
      with \<open>(w, m) \<in> set (resolved ?s)\<close> 3(2,3) show ?thesis by auto
    qed
  qed
  with b show ?thesis by (auto simp: reply_inv_def)
qed


lemma reply_invD:
  "reply_inv cfg st \<Longrightarrow> Replied n h \<in> set (trace st) \<Longrightarrow> n \<in> waiter_req ` set (begun st) \<Longrightarrow>
     \<exists>w m now. waiter_req w = n \<and> (w, m) \<in> set (resolved st) \<and> h = reply_of cfg now w m"
  by (simp add: reply_inv_def)

lemma reply_init: "reply_inv cfg relay_init"
  by (simp add: reply_inv_def relay_init_def)


section \<open>Genuine messages\<close>

text \<open>The command the extension finds when it takes up the frame of a command of the relay.\<close>

definition received :: "relay_command \<Rightarrow> ext_command" where
  "received c = command_of_js (wire (command_js c))"

lemma received_id: "cmd_id (received c) = Num (num_of_nat (rc_id c))"
  by (simp add: received_def command_of_js_def Let_def command_js_wire)

text \<open>\<open>x\<close> is an outcome the extension's handler has for the command, in some state of the extension.\<close>

definition outcome_of :: "browser \<Rightarrow> relay_command \<Rightarrow> (thrown, js) exit \<Rightarrow> bool" where
  "outcome_of br c x \<longleftrightarrow> (\<exists>e e'. command_result br (received c) e = (x, e'))"

definition answer_to :: "browser \<Rightarrow> relay_command \<Rightarrow> js \<Rightarrow> bool" where
  "answer_to br c m \<longleftrightarrow> (\<exists>x. outcome_of br c x \<and> response_of (Num (num_of_nat (rc_id c))) x = Some m)"

text \<open>A message that reads as a response is the answer to one of the commands \<open>cs\<close>.\<close>

definition genuine :: "browser \<Rightarrow> relay_command set \<Rightarrow> js \<Rightarrow> bool" where
  "genuine br cs m \<longleftrightarrow> (isExtensionResponseMessage (wire m) \<longrightarrow> (\<exists>c \<in> cs. answer_to br c m))"

definition ext_ok :: "browser \<Rightarrow> relay_command set \<Rightarrow> ext \<Rightarrow> bool" where
  "ext_ok br cs e \<longleftrightarrow> (\<forall>m \<in> set (sent_messages e). genuine br cs m)
     \<and> set (messagesQ e) \<subseteq> (\<lambda>c. wire (command_js c)) ` cs"

text \<open>Frames that reach the extension and read as commands are those of the commands \<open>cs\<close>.\<close>

definition frames_from :: "browser \<Rightarrow> relay_command set \<Rightarrow> conn_input \<Rightarrow> bool" where
  "frames_from br cs i \<longleftrightarrow> (case i of SockMessage w t \<Rightarrow>
      (\<forall>v. parse_json br t = Inr v \<longrightarrow> isExtensionCommandMessage v \<longrightarrow> v \<in> (\<lambda>c. wire (command_js c)) ` cs) | _ \<Rightarrow> True)"

lemma genuine_mono: "genuine br cs m \<Longrightarrow> cs \<subseteq> ds \<Longrightarrow> genuine br ds m"
  by (auto simp: genuine_def)

lemma ext_ok_mono: "ext_ok br cs e \<Longrightarrow> cs \<subseteq> ds \<Longrightarrow> ext_ok br ds e"
  unfolding ext_ok_def by (blast intro: genuine_mono)

lemma genuine_quiet: "js_get (wire m) ''id'' = Undefined \<Longrightarrow> genuine br cs m"
  by (simp add: genuine_def isExtensionResponseMessage_iff)

lemma ext_ok_update [simp]:
  "ext_ok br cs (e\<lparr>tabsRef := m\<rparr>) = ext_ok br cs e" "ext_ok br cs (e\<lparr>eventsQ := q\<rparr>) = ext_ok br cs e"
  "ext_ok br cs (e\<lparr>storageLocal := l\<rparr>) = ext_ok br cs e"
  by (simp_all add: ext_ok_def sent_messages_def)

lemma ext_ok_perform: "ext_ok br cs e \<Longrightarrow> (\<And>w m. f = SocketSend w m \<Longrightarrow> genuine br cs m) \<Longrightarrow> ext_ok br cs (perform f e)"
  by (auto simp: ext_ok_def split: ext_effect.splits)


section \<open>The extension sends nothing else\<close>

text \<open>What the process has sent and has queued; the handlers of the connection leave it alone, but for frames.\<close>

definition traffic :: "ext \<Rightarrow> js list \<times> js list" where
  "traffic e = (sent_messages e, messagesQ e)"

lemma traffic_basic [simp]:
  "traffic (offer v e) = traffic e" "traffic (set_ready w r e) = traffic e" "traffic (set_handlers w h e) = traffic e"
  "traffic (goto f e) = traffic e" "traffic (e\<lparr>wsRef := x\<rparr>) = traffic e" "traffic (e\<lparr>fiberRef := g\<rparr>) = traffic e"
  "traffic (e\<lparr>maintainRef := b\<rparr>) = traffic e" "traffic (e\<lparr>sockets := ks, nextSocket := n\<rparr>) = traffic e"
  "traffic (e\<lparr>maintainRef := b, fiberRef := g\<rparr>) = traffic e"
  by (auto simp: traffic_def sent_messages_def offer_def set_ready_def set_handlers_def goto_def split: option.split)

lemma traffic_perform [simp]: "(\<And>w m. f \<noteq> SocketSend w m) \<Longrightarrow> traffic (perform f e) = traffic e"
  by (cases f) (auto simp: traffic_def)

lemma traffic_shut [simp]: "traffic (socket_close w e) = traffic e"
  by (simp add: socket_close_def)

lemma traffic_ok: "traffic e' = traffic e \<Longrightarrow> ext_ok br cs e' = ext_ok br cs e"
  by (simp add: traffic_def ext_ok_def)

lemma traffic_handlers:
  "traffic (on_open w e) = traffic e" "traffic (on_error w e) = traffic e" "traffic (on_timeout w e) = traffic e"
  "traffic (on_close w c r e) = traffic e" "traffic (startMaintaining e) = traffic e" "traffic (disconnect e) = traffic e"
  "traffic (attempt_failed x e) = traffic e" "traffic (open_attempt br st e) = traffic e"
  by (auto simp: on_open_def on_error_def on_timeout_def on_close_def resume_open_def resume_failure_def attempt_failed_def
      startMaintaining_def disconnect_def closeSocket_def open_attempt_def Let_def split: option.split handlers.split)

lemma ext_ok_loop: "keeps (ext_ok br cs) (state_get br) \<Longrightarrow> ext_ok br cs e \<Longrightarrow> ext_ok br cs (maintainLoop br e)"
proof -
  assume "keeps (ext_ok br cs) (state_get br)" "ext_ok br cs e"
  then have read: "state_get br e = (x, e') \<Longrightarrow> ext_ok br cs e'" for x e' by (metis keeps_snd snd_conv)
  have same: "ext_ok br cs (goto f s) = ext_ok br cs s" "ext_ok br cs (attempt_failed x s) = ext_ok br cs s"
    "ext_ok br cs (open_attempt br st s) = ext_ok br cs s" for f s x st
    by (rule traffic_ok; simp add: traffic_handlers)+
  from \<open>ext_ok br cs e\<close> read show ?thesis
    by (auto simp: maintainLoop_def same split: option.split fiber.split exit.split prod.split)
qed

lemma ext_ok_message: "frames_from br cs (SockMessage w t) \<Longrightarrow> ext_ok br cs e \<Longrightarrow> ext_ok br cs (on_message br w t e)"
proof -
  assume f: "frames_from br cs (SockMessage w t)" and e: "ext_ok br cs e"
  have send: "ext_ok br cs (snd (rawSend br w m e))" if "js_get (wire m) ''id'' = Undefined" for m
    using e genuine_quiet [OF that] by (auto simp: rawSend_def intro!: ext_ok_perform split: option.split)
  have queue: "ext_ok br cs (e\<lparr>messagesQ := messagesQ e @ [v]\<rparr>)"
    if "v \<in> (\<lambda>c. wire (command_js c)) ` cs" for v
    using e that by (simp add: ext_ok_def sent_messages_def)
  show ?thesis
  proof (cases "parse_json br t")
    case (Inl x)
    with e send show ?thesis by (simp add: on_message_def split: option.split handlers.split)
  next
    case (Inr v)
    with e f queue show ?thesis by (simp add: on_message_def frames_from_def split: option.split handlers.split)
  qed
qed

lemma ext_ok_conn:
  assumes "keeps (ext_ok br cs) (state_get br)" "ext_ok br cs e" "frames_from br cs i"
  shows "ext_ok br cs (conn_step br i e)"
proof (cases i)
  case FiberRuns
  with assms show ?thesis by (simp add: ext_ok_loop)
next
  case (SockMessage w t)
  with assms show ?thesis by (simp add: ext_ok_message)
qed (use assms in \<open>simp_all add: traffic_ok [OF traffic_handlers(1)] traffic_ok [OF traffic_handlers(2)]
  traffic_ok [OF traffic_handlers(3)] traffic_ok [OF traffic_handlers(4)] traffic_ok [OF traffic_handlers(5)]
  traffic_ok [OF traffic_handlers(6)]\<close>)


interpretation genuine_services: service_contract br "\<lambda>s. polite br (ext_ok br cs) \<longrightarrow> ext_ok br cs s" "\<lambda>_. True" "\<lambda>_. True"
    "\<lambda>m. polite br (ext_ok br cs) \<longrightarrow> genuine br cs m"
    "\<lambda>v. polite br (ext_ok br cs) \<longrightarrow> v \<in> (\<lambda>c. wire (command_js c)) ` cs" "frames_from br cs" for br cs
proof unfold_locales
  fix s s' :: ext and st and x :: "(thrown, js) exit" and c r i t info meth q
  have keeps: "keeps (\<lambda>s. polite br (ext_ok br cs) \<longrightarrow> ext_ok br cs s) m"
    if "polite br (ext_ok br cs) \<Longrightarrow> keeps (ext_ok br cs) m" for m :: "'a ext_eff"
    using that by (cases "polite br (ext_ok br cs)") (simp_all add: keeps_def)
  have state: "keeps (ext_ok br cs) (state_get br)" "keeps (ext_ok br cs) (state_set br st)" if "polite br (ext_ok br cs)"
    by (auto intro!: keeps_state_get that ext_ok_perform)
  show "polite br (\<lambda>s. polite br (ext_ok br cs) \<longrightarrow> ext_ok br cs s)"
    by (cases "polite br (ext_ok br cs)") (simp_all, simp add: polite_def)
  show "keeps (\<lambda>s. polite br (ext_ok br cs) \<longrightarrow> ext_ok br cs s) (state_get br)"
    "keeps (\<lambda>s. polite br (ext_ok br cs) \<longrightarrow> ext_ok br cs s) (state_set br st)"
    using state by (auto simp: keeps_def)
  show "polite br (ext_ok br cs) \<longrightarrow> ext_ok br cs (perform f s)"
    if "polite br (ext_ok br cs) \<longrightarrow> ext_ok br cs s" "\<And>w m. f = SocketSend w m \<Longrightarrow> polite br (ext_ok br cs) \<longrightarrow> genuine br cs m" for f
    using that by (auto intro: ext_ok_perform)
  show "polite br (ext_ok br cs) \<longrightarrow> genuine br cs (attached_event t info)"
    "polite br (ext_ok br cs) \<longrightarrow> genuine br cs (detached_event t)"
    "polite br (ext_ok br cs) \<longrightarrow> genuine br cs (cdp_event t meth info)"
    by (simp_all add: genuine_quiet attached_event_def detached_event_def cdp_event_def)
  show "polite br (ext_ok br cs) \<longrightarrow> genuine br cs r"
    if "polite br (ext_ok br cs) \<longrightarrow> c \<in> (\<lambda>c. wire (command_js c)) ` cs"
      "command_result br (command_of_js c) s = (x, s')" "response_of (cmd_id (command_of_js c)) x = Some r"
  proof
    assume "polite br (ext_ok br cs)"
    with that(1) obtain d where d: "d \<in> cs" "command_of_js c = received d" by (auto simp: received_def)
    with that(2,3) have "answer_to br d r" by (auto simp: answer_to_def outcome_of_def received_id)
    with d(1) show "genuine br cs r" by (auto simp: genuine_def)
  qed
  show "frames_from br cs Start" "frames_from br cs Disconnect" by (simp_all add: frames_from_def)
  show "(polite br (ext_ok br cs) \<longrightarrow> ext_ok br cs (s\<lparr>messagesQ := q\<rparr>))
      \<and> (polite br (ext_ok br cs) \<longrightarrow> c \<in> (\<lambda>c. wire (command_js c)) ` cs)"
    if "polite br (ext_ok br cs) \<longrightarrow> ext_ok br cs s" "messagesQ s = c # q"
    using that by (auto simp: ext_ok_def sent_messages_def)
  show "polite br (ext_ok br cs) \<longrightarrow> ext_ok br cs (conn_step br i s)"
    if "polite br (ext_ok br cs) \<longrightarrow> ext_ok br cs s" "frames_from br cs i"
    using that state by (simp add: ext_ok_conn)
qed auto

lemma ext_ok_step:
  "polite br (ext_ok br cs) \<Longrightarrow> ext_ok br cs e \<Longrightarrow> (\<And>i. v = ConnectionInput i \<Longrightarrow> frames_from br cs i) \<Longrightarrow>
     ext_ok br cs (bg_step br v e)"
  using genuine_services.kept_bg_step [of br cs e v] by (simp add: ok_event_def split: bg_event.split)


section \<open>The relay forwards and answers nothing else\<close>

definition genuine_effect :: "browser \<Rightarrow> relay_command set \<Rightarrow> effect \<Rightarrow> bool" where
  "genuine_effect br cs f \<longleftrightarrow> (case f of
      Resolved w m \<Rightarrow> relay_made m \<or> (\<exists>c \<in> cs. \<exists>u. answer_to br c u \<and> m = wire u)
    | WsSend ws m \<Rightarrow> m = ping_message \<or> m \<in> command_js ` cs
    | _ \<Rightarrow> True)"

interpretation genuine_effects: relay_effects "genuine_effect br cs" "\<lambda>c. c \<in> cs"
    "\<lambda>m. \<exists>c \<in> cs. \<exists>u. answer_to br c u \<and> m = wire u" for br cs
  by unfold_locales (auto simp: genuine_effect_def)

lemma genuine_effect_mono: "genuine_effect br cs f \<Longrightarrow> cs \<subseteq> ds \<Longrightarrow> genuine_effect br ds f"
  by (cases f) (auto simp: genuine_effect_def)

definition commands :: "relay \<Rightarrow> relay_command set" where
  "commands st = snd ` set (issued st)"

lemma commands_grow: "commands st \<subseteq> commands (relay_step cfg parse ne st)"
proof -
  obtain es where "trace (handle cfg parse (fst ne) (snd ne) st) = trace st @ es"
    using grows_handle [of st cfg parse "fst ne" "snd ne"] by (auto simp: grows_def)
  then show ?thesis by (auto simp: commands_def relay_step_def Let_def)
qed

lemma relay_genuine_step:
  assumes "effects_ok (genuine_effect br (commands st)) st"
    and "\<And>dat v. e = SocketMessage ExtensionRole dat \<Longrightarrow> parse dat = Inr v \<Longrightarrow> isExtensionResponseMessage v \<Longrightarrow>
      \<exists>c \<in> commands st. \<exists>u. answer_to br c u \<and> v = wire u"
  shows "effects_ok (genuine_effect br (commands (relay_step cfg parse (net, e) st))) (relay_step cfg parse (net, e) st)"
proof (rule genuine_effects.ok_step)
  note grow = commands_grow [of st cfg parse "(net, e)"]
  show "effects_ok (genuine_effect br (commands (relay_step cfg parse (net, e) st))) st"
    using assms(1) grow by (auto simp: effects_ok_def list_all_iff intro: genuine_effect_mono)
  show "\<forall>(w, c) \<in> set (issued (relay_step cfg parse (net, e) st)). c \<in> commands (relay_step cfg parse (net, e) st)"
    by (force simp: commands_def)
  show "\<exists>c \<in> commands (relay_step cfg parse (net, e) st). \<exists>u. answer_to br c u \<and> v = wire u"
    if "e = SocketMessage ExtensionRole dat" "parse dat = Inr v" "isExtensionResponseMessage v" for dat v
    using assms(2) [OF that] grow by blast
qed


section \<open>The system\<close>

text \<open>
  Both processes and the frames in flight, towards the extension and towards the relay. Sent frames are
  the new ones of a process's trace.
\<close>

record system =
  sys_relay :: relay
  sys_ext :: ext
  sys_down :: "js list"
  sys_up :: "js list"

definition system_init :: "(string, js) jmap \<Rightarrow> system" where
  "system_init st0 = \<lparr>sys_relay = relay_init, sys_ext = ext_init st0, sys_down = [], sys_up = []\<rparr>"

definition forwarded_in :: "effect list \<Rightarrow> js list" where
  "forwarded_in es = concat (map (\<lambda>f. case f of WsSend ws m \<Rightarrow> [m] | _ \<Rightarrow> []) es)"

definition relay_moves :: "relay_config \<Rightarrow> json_parser \<Rightarrow> net \<Rightarrow> event \<Rightarrow> system \<Rightarrow> system" where
  "relay_moves cfg parse net v s = (
     let r = relay_step cfg parse (net, v) (sys_relay s)
     in s\<lparr>sys_relay := r, sys_down := sys_down s @ forwarded_in (drop (length (trace (sys_relay s))) (trace r))\<rparr>)"

definition ext_moves :: "browser \<Rightarrow> bg_event \<Rightarrow> system \<Rightarrow> system" where
  "ext_moves br v s = (
     let e = bg_step br v (sys_ext s)
     in s\<lparr>sys_ext := e, sys_up := sys_up s @ drop (length (sent_messages (sys_ext s))) (sent_messages e)\<rparr>)"

text \<open>
  Everything but the frames between the two comes from outside: HTTP requests, timers, sockets that
  open and close, the popup, the browser. A frame arrives as a text that parses to what the wire
  leaves of the message. The worker may be stopped at any time and starts again from its storage.
\<close>

inductive system_step :: "relay_config \<Rightarrow> json_parser \<Rightarrow> browser \<Rightarrow> system \<Rightarrow> system \<Rightarrow> bool"
  for cfg :: relay_config and parse :: json_parser and br :: browser where
  relay_acts: "(\<And>t. v \<noteq> SocketMessage ExtensionRole t) \<Longrightarrow> system_step cfg parse br s (relay_moves cfg parse net v s)"
| relay_hears: "m \<in> set (sys_up s) \<Longrightarrow> parse t = Inr (wire m) \<Longrightarrow>
    system_step cfg parse br s (relay_moves cfg parse net (SocketMessage ExtensionRole t) (s\<lparr>sys_up := remove1 m (sys_up s)\<rparr>))"
| ext_acts: "(\<And>w t. v \<noteq> ConnectionInput (SockMessage w t)) \<Longrightarrow> system_step cfg parse br s (ext_moves br v s)"
| ext_hears: "m \<in> set (sys_down s) \<Longrightarrow> parse_json br t = Inr (wire m) \<Longrightarrow>
    system_step cfg parse br s (ext_moves br (ConnectionInput (SockMessage w t)) (s\<lparr>sys_down := remove1 m (sys_down s)\<rparr>))"
| frame_lost_down: "m \<in> set (sys_down s) \<Longrightarrow> system_step cfg parse br s (s\<lparr>sys_down := remove1 m (sys_down s)\<rparr>)"
| frame_lost_up: "m \<in> set (sys_up s) \<Longrightarrow> system_step cfg parse br s (s\<lparr>sys_up := remove1 m (sys_up s)\<rparr>)"
| worker_restarts: "system_step cfg parse br s (s\<lparr>sys_ext := ext_init (storageLocal (sys_ext s))\<rparr>)"

definition system_inv :: "relay_config \<Rightarrow> browser \<Rightarrow> system \<Rightarrow> bool" where
  "system_inv cfg br s \<longleftrightarrow> (let r = sys_relay s; cs = commands r in
     corr_inv r \<and> ids_inv r \<and> reply_inv cfg r \<and> effects_ok (genuine_effect br cs) r \<and> ext_ok br cs (sys_ext s)
     \<and> (\<forall>m \<in> set (sys_down s). m = ping_message \<or> m \<in> command_js ` cs) \<and> (\<forall>m \<in> set (sys_up s). genuine br cs m))"

lemma system_inv_init: "system_inv cfg br (system_init st0)"
  by (simp add: system_inv_def system_init_def commands_def corr_init ids_init reply_init effects_ok_def Let_def)
    (simp add: relay_init_def ext_ok_def ext_init_def sent_messages_def)

lemma system_inv_fewer:
  "system_inv cfg br s \<Longrightarrow> set ds \<subseteq> set (sys_down s) \<Longrightarrow> set us \<subseteq> set (sys_up s) \<Longrightarrow>
     system_inv cfg br (s\<lparr>sys_down := ds, sys_up := us\<rparr>)"
  by (auto simp: system_inv_def Let_def)

lemma forwarded_in_set: "m \<in> set (forwarded_in es) \<longleftrightarrow> (\<exists>ws. WsSend ws m \<in> set es)"
  by (induction es) (auto simp: forwarded_in_def split: effect.splits)

lemma relay_moves_inv:
  assumes inv: "system_inv cfg br s"
    and heard: "\<And>t v. e = SocketMessage ExtensionRole t \<Longrightarrow> parse t = Inr v \<Longrightarrow> isExtensionResponseMessage v \<Longrightarrow>
      \<exists>c \<in> commands (sys_relay s). \<exists>u. answer_to br c u \<and> v = wire u"
  shows "system_inv cfg br (relay_moves cfg parse net e s)"
proof -
  let ?r = "sys_relay s" and ?r' = "relay_step cfg parse (net, e) (sys_relay s)"
  let ?new = "drop (length (trace ?r)) (trace ?r')"
  note grow = commands_grow [of ?r cfg parse "(net, e)"]
  have ok: "effects_ok (genuine_effect br (commands ?r')) ?r'"
    using inv heard by (intro relay_genuine_step) (simp_all add: system_inv_def Let_def)
  have "m = ping_message \<or> m \<in> command_js ` commands ?r'" if "m \<in> set (sys_down s) \<union> set (forwarded_in ?new)" for m
  proof (cases "m \<in> set (sys_down s)")
    case True
    with inv have "m = ping_message \<or> m \<in> command_js ` commands ?r" by (simp add: system_inv_def Let_def)
    with grow show ?thesis by blast
  next
    case False
    with that obtain ws where "WsSend ws m \<in> set ?new" by (auto simp: forwarded_in_set)
    then have "WsSend ws m \<in> set (trace ?r')" by (rule in_set_dropD)
    with ok have "genuine_effect br (commands ?r') (WsSend ws m)" by (simp add: effects_ok_def list_all_iff)
    then show ?thesis by (simp add: genuine_effect_def)
  qed
  moreover have "corr_inv ?r'" "ids_inv ?r'" "reply_inv cfg ?r'"
    using inv by (auto simp: system_inv_def Let_def intro: corr_step ids_step reply_step)
  moreover have "ext_ok br (commands ?r') (sys_ext s)" "\<forall>m \<in> set (sys_up s). genuine br (commands ?r') m"
    using inv ext_ok_mono [OF _ grow] genuine_mono [OF _ grow] by (auto simp: system_inv_def Let_def)
  ultimately show ?thesis
    using ok by (simp add: system_inv_def relay_moves_def Let_def)
qed

lemma ext_moves_inv:
  assumes inv: "system_inv cfg br s" and polite: "polite br (ext_ok br (commands (sys_relay s)))"
    and heard: "\<And>i. v = ConnectionInput i \<Longrightarrow> frames_from br (commands (sys_relay s)) i"
  shows "system_inv cfg br (ext_moves br v s)"
proof -
  let ?cs = "commands (sys_relay s)" and ?e' = "bg_step br v (sys_ext s)"
  have ok: "ext_ok br ?cs ?e'"
    using inv by (intro ext_ok_step polite heard) (simp_all add: system_inv_def Let_def)
  then have "\<forall>m \<in> set (drop n (sent_messages ?e')). genuine br ?cs m" for n
    by (auto simp: ext_ok_def dest: in_set_dropD)
  with inv ok show ?thesis by (auto simp: system_inv_def ext_moves_def Let_def)
qed


lemma frames_from_down:
  assumes "m = ping_message \<or> m \<in> command_js ` cs" "parse_json br t = Inr (wire m)"
  shows "frames_from br cs (SockMessage w t)"
proof -
  have "\<not> isExtensionCommandMessage (wire ping_message)"
    by (simp add: ping_message_def isExtensionCommandMessage_def)
  with assms show ?thesis by (auto simp: frames_from_def)
qed

lemma system_inv_step:
  assumes "system_step cfg parse br s s'" "system_inv cfg br s" "\<And>cs. polite br (ext_ok br cs)"
  shows "system_inv cfg br s'"
  using assms(1)
proof cases
  case (relay_acts v net)
  with assms(2) show ?thesis by (auto intro: relay_moves_inv)
next
  case (relay_hears m t net)
  let ?s = "s\<lparr>sys_up := remove1 m (sys_up s)\<rparr>"
  have "system_inv cfg br ?s"
    using assms(2) set_remove1_subset [of m "sys_up s"] by (auto simp: system_inv_def Let_def)
  moreover have "genuine br (commands (sys_relay s)) m"
    using assms(2) relay_hears(2) by (auto simp: system_inv_def Let_def)
  ultimately show ?thesis
    unfolding relay_hears(1) using relay_hears(3) by (intro relay_moves_inv) (auto simp: genuine_def)
next
  case (ext_acts v)
  with assms(2,3) show ?thesis
    by (auto simp: frames_from_def intro!: ext_moves_inv split: conn_input.split)
next
  case (ext_hears m t w)
  let ?s = "s\<lparr>sys_down := remove1 m (sys_down s)\<rparr>"
  have "system_inv cfg br ?s"
    using assms(2) set_remove1_subset [of m "sys_down s"] by (auto simp: system_inv_def Let_def)
  moreover have "frames_from br (commands (sys_relay s)) (SockMessage w t)"
    using assms(2) ext_hears(2,3) by (intro frames_from_down) (auto simp: system_inv_def Let_def)
  ultimately show ?thesis
    unfolding ext_hears(1) using assms(3) by (intro ext_moves_inv) auto
next
  case (frame_lost_down m)
  with assms(2) set_remove1_subset [of m "sys_down s"] show ?thesis by (auto simp: system_inv_def Let_def)
next
  case (frame_lost_up m)
  with assms(2) set_remove1_subset [of m "sys_up s"] show ?thesis by (auto simp: system_inv_def Let_def)
next
  case worker_restarts
  with assms(2) show ?thesis by (auto simp: system_inv_def Let_def ext_ok_def ext_init_def sent_messages_def)
qed

lemma system_inv_reachable:
  assumes "(system_step cfg parse br)\<^sup>*\<^sup>* (system_init st0) s" "\<And>cs. polite br (ext_ok br cs)"
  shows "system_inv cfg br s"
  using assms(1)
  by (induction rule: rtranclp_induct) (auto intro: system_inv_init system_inv_step assms(2))


section \<open>Answers are genuine\<close>

lemma issued_same:
  assumes "ids_inv r" "nextId r < 2 ^ 53" "(w, c) \<in> set (issued r)" "d \<in> commands r" "rc_id d = rc_id c"
  shows "d = c"
proof -
  from assms(4) obtain w' where d: "(w', d) \<in> set (issued r)" by (auto simp: commands_def)
  from assms(1,2) have "distinct (map (rc_id \<circ> snd) (issued r))" by (simp add: ids_inv_def)
  then have "inj_on (rc_id \<circ> snd) (set (issued r))" by (simp add: distinct_map)
  from inj_onD [OF this, of "(w', d)" "(w, c)"] assms(3,5) d show ?thesis by simp
qed

lemma answer_id: "answer_to br c u \<Longrightarrow> js_get (wire u) ''id'' = Num (num_of_nat (rc_id c))"
proof -
  assume "answer_to br c u"
  then obtain x where "response_of (Num (num_of_nat (rc_id c))) x = Some u" by (auto simp: answer_to_def)
  then show ?thesis
    by (cases x) (auto simp: success_response_def toExtensionErrorResponse_def Let_def num_of_nat_def)
qed

text \<open>What a settled promise settled with: the answer to its own command, or the relay's own error.\<close>

lemma resolved_genuine:
  assumes inv: "system_inv cfg br s" and bound: "nextId (sys_relay s) < 2 ^ 53"
    and wm: "(w, m) \<in> set (resolved (sys_relay s))" and wc: "(w, c) \<in> set (issued (sys_relay s))"
  shows "relay_made m \<or> (\<exists>u. answer_to br c u \<and> m = wire u)"
proof -
  let ?r = "sys_relay s"
  from inv have I: "corr_inv ?r" "ids_inv ?r" "reply_inv cfg ?r" "effects_ok (genuine_effect br (commands ?r)) ?r"
    by (simp_all add: system_inv_def Let_def)
  from wm I(4) have "relay_made m \<or> (\<exists>d \<in> commands ?r. \<exists>u. answer_to br d u \<and> m = wire u)"
    by (auto simp: effects_ok_def list_all_iff genuine_effect_def Resolved_resolved [symmetric] split: effect.splits)
  moreover have "d = c" if d: "d \<in> commands ?r" "answer_to br d u" "m = wire u" for d u
  proof -
    from corr_invD1 [OF I(1) wm] obtain c' where c': "(w, c') \<in> set (issued ?r)" "js_get m ''id'' = Num (num_of_nat (rc_id c'))"
      by blast
    have "distinct (map fst (issued ?r))"
      using I(3) by (simp add: reply_inv_def issued_begun distinct_map)
    with c'(1) wc have "c' = c" by (metis eq_key_imp_eq_value)
    with c'(2) answer_id [OF d(2)] d(3) have "num_of_nat (rc_id d) = num_of_nat (rc_id c)" by simp
    then have "rc_id d = rc_id c" by simp
    from issued_same [OF I(2) bound wc d(1) this] show ?thesis .
  qed
  ultimately show ?thesis by blast
qed


lemma outcome_status:
  assumes "outcome_of br c x" "response_of (Num (num_of_nat (rc_id c))) x = Some u"
  shows "(\<exists>v. x = Success v \<and> u = success_response (Num (num_of_nat (rc_id c))) v \<and> hr_status (command_reply (wire u)) = 200)
    \<or> (\<exists>t. x = Failure t \<and> hr_status (command_reply (wire u)) = code_status (ei_code (toExtensionErrorInfo t no_fallback)))"
  using assms(2) response_status [OF assms(2)] by (cases x) (auto simp: num_of_nat_def)



text \<open>
  A session from the start: the worker connects, a client asks for the number of tabs, the command
  and its answer cross the network.
\<close>

definition trip_connected :: system where
  "trip_connected = run_events (ext_moves trip_browser)
     [ConnectionInput Start, ConnectionInput FiberRuns, ConnectionInput FiberRuns, ConnectionInput (SockOpens 0)]
     (relay_moves demo_cfg trip_parse demo_net (SocketOpen ExtensionRole 5) (system_init []))"

definition trip_asked :: system where
  "trip_asked = relay_moves demo_cfg trip_parse demo_net (Fetch demo_post) trip_connected"

definition trip_taken :: system where
  "trip_taken = ext_moves trip_browser CommandQueued (ext_moves trip_browser (ConnectionInput (SockMessage 0 ''frame''))
     (trip_asked\<lparr>sys_down := remove1 (command_js trip_command) (sys_down trip_asked)\<rparr>))"

definition trip_over :: system where
  "trip_over = relay_moves demo_cfg trip_parse demo_net (SocketMessage ExtensionRole (stringify trip_answer))
     (trip_taken\<lparr>sys_up := remove1 trip_answer (sys_up trip_taken)\<rparr>)"

lemma trip_connected_ext:
  "sys_ext trip_connected = \<lparr>storageLocal = [], tabsRef = [], wsRef = Some 0, maintainRef = True, fiberRef = Some Sleeping,
     sockets = [(0, \<lparr>sk_ready = OPEN, sk_url = ''ws://127.0.0.1:9111/extension'', sk_handlers = Installed\<rparr>)],
     nextSocket = 1, messagesQ = [], eventsQ = [Connected], effects = [SocketNew 0 ''ws://127.0.0.1:9111/extension'']\<rparr>"
  "sys_up trip_connected = []"
  "sys_relay trip_connected = relay_step demo_cfg trip_parse (demo_net, SocketOpen ExtensionRole 5) relay_init"
  "sys_down trip_connected = []"
proof -
  have g: "state_get trip_browser e = (Success \<lparr>st_isActive = Bool False, st_port = Num (Fin 9111)\<rparr>, e)"
    if "storageLocal e = []" for e
    using that by (simp add: state_get_def trip_browser_def quiet_browser_def eff_mapError_def eff_catch_run eff_bind_run
        eff_call_run stored_def DEFAULT_PORT_def)
  have u: "getRelayUrl (Num (Fin 9111)) = ''ws://127.0.0.1:9111/extension''"
    by (simp add: getRelayUrl_def int_text_def num_eval)
  have n: "newWebSocket trip_browser x = None" for x by (simp add: trip_browser_def quiet_browser_def)
  note defs = trip_connected_def ext_moves_def relay_moves_def system_init_def demo_conn mapSet_def g u n
    on_open_def resume_open_def handlers_of_def ready_of_def mapGet_def set_ready_def set_handlers_def offer_def
    sent_messages_def
  show "sys_ext trip_connected = \<lparr>storageLocal = [], tabsRef = [], wsRef = Some 0, maintainRef = True, fiberRef = Some Sleeping,
     sockets = [(0, \<lparr>sk_ready = OPEN, sk_url = ''ws://127.0.0.1:9111/extension'', sk_handlers = Installed\<rparr>)],
     nextSocket = 1, messagesQ = [], eventsQ = [Connected], effects = [SocketNew 0 ''ws://127.0.0.1:9111/extension'']\<rparr>"
    "sys_up trip_connected = []"
    "sys_relay trip_connected = relay_step demo_cfg trip_parse (demo_net, SocketOpen ExtensionRole 5) relay_init"
    by (simp_all add: defs)
  show "sys_down trip_connected = []"
    by (simp add: defs relay_step_def ws_open_def relay_log_def log_line_def emit_def startExtensionKeepalive_def
        stopExtensionKeepalive_def setTimer_def sseBroadcast_def mapKeys_def relay_init_def forwarded_in_def)
qed


text \<open>The relay's part of the session: the command goes out under id 1 and waits.\<close>

lemma trip_asked_relay:
  "sys_relay trip_asked = relay_run demo_cfg trip_parse demo_events"
  "sys_ext trip_asked = sys_ext trip_connected" "sys_up trip_asked = []"
  "sys_down trip_asked = [command_js trip_command]"
  "nextId (sys_relay trip_asked) = 2"
  "mapGet (pending (sys_relay trip_asked)) (num_of_nat 1) = Some \<lparr>pe_resolve = CommandWaiter 0, pe_timeout = 1\<rparr>"
  "Awaiting (CommandWaiter 0) trip_command \<in> set (trace (sys_relay trip_asked))"
proof -
  show run: "sys_relay trip_asked = relay_run demo_cfg trip_parse demo_events"
    by (simp add: trip_asked_def relay_moves_def trip_connected_ext relay_run_def demo_events_def Let_def)
  note defs = demo_events_def relay_run_def relay_step_def demo_defs trip_parse_def relay_init_def
      ws_open_def relay_log_def log_line_def emit_def startExtensionKeepalive_def stopExtensionKeepalive_def setTimer_def
      sseBroadcast_def mapKeys_def mapSet_def mapGet_def fetch_def handleHttpCommand_def parseJsonText_def
      parseHttpCommandBody_def isExtensionCommandMessage_def isClientEnvelope_def isExtensionMethod_def
      makeCommand_def js_inc_def sendCommandToExtension_def wsSendJson_def num_of_nat_def Let_def trip_command_def
  show "nextId (sys_relay trip_asked) = 2"
    "mapGet (pending (sys_relay trip_asked)) (num_of_nat 1) = Some \<lparr>pe_resolve = CommandWaiter 0, pe_timeout = 1\<rparr>"
    "Awaiting (CommandWaiter 0) trip_command \<in> set (trace (sys_relay trip_asked))"
    unfolding run by (simp_all add: defs)
  show "sys_down trip_asked = [command_js trip_command]"
    by (simp add: trip_asked_def relay_moves_def trip_connected_ext forwarded_in_def defs)
  show "sys_ext trip_asked = sys_ext trip_connected" "sys_up trip_asked = []"
    by (simp_all add: trip_asked_def relay_moves_def trip_connected_ext Let_def)
qed


lemma trip_taken_up:
  "sys_up trip_taken = [trip_answer]" "sys_relay trip_taken = sys_relay trip_asked"
proof -
  let ?e = "sys_ext trip_connected" and ?v = "wire (command_js trip_command)"
  have v: "isExtensionCommandMessage ?v"
    by (simp add: isExtensionCommandMessage_def command_js_def trip_command_def num_of_nat_def)
  have heard: "bg_step trip_browser (ConnectionInput (SockMessage 0 ''frame'')) ?e = ?e\<lparr>messagesQ := [?v]\<rparr>"
    by (simp add: on_message_def handlers_of_def mapGet_def trip_connected_ext trip_browser_def v)
  have r: "command_result trip_browser (command_of_js ?v) ?e = (Success (Num (num_of_nat 1)), ?e)"
    by (simp add: command_result_def command_of_js_def command_js_def trip_command_def tab_handleCommand_def countOpenTabs_def
        trip_browser_def quiet_browser_def eff_mapError_def eff_map_def eff_catch_run eff_bind_run eff_call_run)
  have i: "cmd_id (command_of_js ?v) = Num (num_of_nat 1)"
    using received_id [of trip_command] by (simp add: received_def trip_command_def)
  have up: "can_send trip_browser ?e"
    by (simp add: can_send_def isConnected_def ready_of_def mapGet_def trip_connected_ext trip_browser_def quiet_browser_def)
  obtain e'' where e'': "handleMessage trip_browser (command_of_js ?v) ?e = (Success (), e'')"
    "sent_messages e'' = sent_messages ?e @ [trip_answer]"
    using handler_answers [OF r, of trip_answer "num_of_nat 1"] i up by (auto simp: trip_answer_def num_of_nat_def)
  have same: "?e\<lparr>messagesQ := []\<rparr> = ?e" by (simp add: trip_connected_ext)
  have answered: "bg_step trip_browser CommandQueued (?e\<lparr>messagesQ := [?v]\<rparr>) = e''"
    by (simp add: processMessages_def same e''(1))
  have sent: "sent_messages (?e\<lparr>messagesQ := [?v]\<rparr>) = sent_messages ?e" by (simp add: sent_messages_def)
  show "sys_up trip_taken = [trip_answer]" "sys_relay trip_taken = sys_relay trip_asked"
    by (simp_all del: bg_step.simps add: trip_taken_def ext_moves_def trip_asked_relay heard answered sent e''(2) Let_def)
qed

lemma trip_over_relay:
  "sys_relay trip_over = relay_step demo_cfg trip_parse (demo_net, SocketMessage ExtensionRole (stringify trip_answer))
     (sys_relay trip_asked)"
  by (simp add: trip_over_def relay_moves_def trip_taken_up Let_def)

lemma trip_over_reached: "(system_step demo_cfg trip_parse trip_browser)\<^sup>*\<^sup>* (system_init []) trip_over"
proof -
  let ?step = "system_step demo_cfg trip_parse trip_browser"
  have ext: "?step\<^sup>*\<^sup>* s (run_events (ext_moves trip_browser) vs s)"
    if "\<forall>v \<in> set vs. \<forall>w t. v \<noteq> ConnectionInput (SockMessage w t)" for vs s
    using that
  proof (induction vs arbitrary: s)
    case (Cons v vs)
    then have "?step s (ext_moves trip_browser v s)" by (intro system_step.ext_acts) simp
    with Cons show ?case by (simp add: converse_rtranclp_into_rtranclp)
  qed simp
  have "?step\<^sup>*\<^sup>* (system_init []) (relay_moves demo_cfg trip_parse demo_net (SocketOpen ExtensionRole 5) (system_init []))"
    by (rule r_into_rtranclp, rule system_step.relay_acts) simp
  also have "?step\<^sup>*\<^sup>* \<dots> trip_connected"
    unfolding trip_connected_def by (rule ext) simp
  also have "?step trip_connected trip_asked"
    unfolding trip_asked_def by (rule system_step.relay_acts) simp
  also have "?step trip_asked (ext_moves trip_browser (ConnectionInput (SockMessage 0 ''frame''))
     (trip_asked\<lparr>sys_down := remove1 (command_js trip_command) (sys_down trip_asked)\<rparr>))"
    by (rule system_step.ext_hears) (simp_all add: trip_asked_relay trip_browser_def)
  also have "?step \<dots> trip_taken"
    unfolding trip_taken_def by (rule system_step.ext_acts) simp
  also have "?step trip_taken trip_over"
    unfolding trip_over_def
    by (rule system_step.relay_hears) (simp_all add: trip_taken_up trip_parse_def, simp add: trip_answer_def success_response_def)
  finally show ?thesis .
qed


end
