(* ===== verification/Spec2Isabelle.thy ===== *)
theory Spec2Isabelle
  imports TabProperties StoredState SkillProperties PopupProperties StreamToRecorder WholeSystem
begin

text \<open>
  A verification development of vibe-browser: a browser extension, a local relay and a few scripts
  that let a program drive the user's own browser over the DevTools protocol. All paths below are
  relative to \<open>src/\<close> of the repository.

  \<^bold>\<open>The program.\<close> The relay (\<open>skill/scripts/relay.ts\<close>) is an HTTP server. Scripts post
  commands to it; it gives each an id, sends it over a WebSocket to the extension and answers the HTTP
  request when the response with that id arrives, when a timeout fires, or when the extension goes
  away. Events of the extension are broadcast to every open event stream. The extension's background
  script (\<open>extension/entrypoints/background.ts\<close>) composes four services: the state store
  (\<open>StateManager.ts\<close>), the connection to the relay (\<open>ConnectionManager.ts\<close>), the registry of attached
  tabs (\<open>tab.ts\<close>) and the CDP router (\<open>cdp.ts\<close>), all under \<open>extension/services/\<close>, and they share the
  protocol module \<open>RelayProtocol.ts\<close>. A popup page (\<open>extension/entrypoints/popup/main.ts\<close>) switches
  it on and off and sets the port. Two scripts are clients of the relay: \<open>get-active-target.ts\<close> and
  \<open>record-network.ts\<close>, which reads an event stream and writes a log of network traffic.

  \<^bold>\<open>The theories and the code.\<close>
  \<^item> \<open>Prelude\<close>: named collections of facts, the insertion ordered dictionary that stands for a
    JavaScript \<open>Map\<close> behind a locale, effects that succeed, fail or die (the \<open>effect\<close> library's
    results), runs of a step function and the locale \<open>machine\<close> that lifts an invariant to runs.
  \<^item> \<open>JsValue\<close>, \<open>JsText\<close>: the language fragment used: numbers with NaN and infinities, dynamic values,
    property access, conversions, \<open>JSON.stringify\<close>, text functions. No code of the repository.
  \<^item> \<open>RelayProtocol\<close>: \<open>RelayProtocol.ts\<close>. \<open>RelayWire\<close>: the relay's copies of the guards, its error
    records, the status table and its configuration.
  \<^item> \<open>RelayState\<close>: the relay's \<open>state\<close> object, the runtime's timer table, the effects it performs (a
    trace), the pending table and broadcasting. \<open>RelayHttp\<close>: request bodies, health, the command
    endpoint, event streams, routing. \<open>RelayServer\<close>: the WebSocket handlers, timers, and the process
    as a step function over events; a promise that settles lets its request answer in the same step.
  \<^item> \<open>ExtState\<close>: the state record of the background process and the browser as a record of functions.
    \<open>StateManager\<close>, \<open>ConnectionManager\<close>, \<open>TabRegistry\<close>, \<open>CdpRouter\<close>, \<open>Background\<close>: one theory per
    source file; the record \<open>ext\<close> holds the \<open>Ref\<close>s, queues, sockets with the handlers installed on
    them, and where the maintenance fiber is.
  \<^item> \<open>Popup\<close>: the page's controls and its handlers.
  \<^item> \<open>SseReader\<close>: the buffer of \<open>streamSse\<close>. \<open>SkillClient\<close>: \<open>get-active-target.ts\<close> and the relay
    client of the recorder. \<open>Recorder\<close>, \<open>RecorderEvents\<close>, \<open>RecorderRun\<close>: configuration, tables and
    writer; \<open>onHttpEvent\<close>, \<open>onWsEvent\<close>, \<open>onMsg\<close>; and the process, in which every \<open>await\<close> is a point
    where any other event may come first.

  \<^bold>\<open>What is proved.\<close>
  \<^item> \<open>RelayInvariant\<close>, \<open>RelayRun\<close>, \<open>RelayTrace\<close>: one preservation lemma per operation and handler, and
    the invariants of all runs. \<open>RelayProperties\<close>, \<open>RelayReplies\<close>: every request is answered exactly
    once, answers belong to their commands, timeouts, disconnects and reconnects leave nothing
    waiting, no timer leaks, dispatch on every branch, refusals, and the trip of errors.
  \<^item> \<open>ConnectionInvariant\<close>, \<open>ConnectionProperties\<close>: the invariant of sockets and fiber whatever else
    runs, ends of an attempt, reconnecting, disconnecting; the locale \<open>message_channel\<close> for sending.
  \<^item> \<open>RelayEffects\<close>: the contract on what the relay does to the outside; a predicate that holds of every
    kind of effect the handlers emit holds of every trace. \<open>StreamToRecorder\<close> and \<open>WholeSystem\<close> use it.
  \<^item> \<open>ServiceContract\<close>: the contract between the services and the background script; a predicate the
    services keep is kept by every event of the process. \<open>BackgroundProperties\<close> uses it for the
    connection's invariant, \<open>StoredState\<close> for the type of the stored state, \<open>WholeSystem\<close> for what the
    extension sends; \<open>TabProperties\<close> holds the registry's properties.
  \<^item> \<open>PopupProperties\<close>: what the page shows and asks for, and a port's way to the storage and back.
  \<^item> \<open>SkillProperties\<close>: error texts and the all-or-nothing report of the target script.
    \<open>RecorderInvariant\<close>, \<open>RecorderProperties\<close>, \<open>RecorderLines\<close>: nothing recorded is lost, stopping
    is complete and final, the log's contents.
  \<^item> Across programs: \<open>EndToEnd\<close> (a command from the HTTP request to the extension's handler and back),
    \<open>StreamToRecorder\<close> (what the relay broadcasts is what a recorder handles) and \<open>WholeSystem\<close> (relay
    and extension as one step relation over both states and the frames in flight, which may be lost,
    delayed and reordered, with restarts of the worker: every answer comes from the request's own
    command or is an error of the relay's own). The system has one relay process; the extension's socket
    is taken to carry frames of the extension only.
  Some theorems show behaviour that looks unintended; their texts say so.

  \<^bold>\<open>Bounds.\<close> Command ids are JavaScript numbers: uniqueness is proved while fewer than \<open>2 ^ 53\<close>
  have been issued, where \<open>++\<close> is exact. The decimal printer scales with a fuel of 400, more than the
  324 decimal places a finite number can need. The reader's inner loop is a \<open>partial_function\<close>, so not returning
  would be \<open>None\<close>; it is proved total. Everything else is structural recursion over inputs.

  \<^bold>\<open>Parameters.\<close> \<open>JSON.parse\<close>; the browser's storage, debugger, tabs and badge interfaces, whose
  answers come with the state the fiber finds when it resumes (so other fibers may have run; \<open>polite\<close>
  says they keep a predicate); what the \<open>effect\<close> library throws at its edges; readiness of sockets and
  failures of sends; the clock; what a number input makes of its text; the answers to \<open>fetch\<close>.

  \<^bold>\<open>Not modelled.\<close> The content script (empty), the build configuration, the lines printed at start,
  parsing of URLs (a request carries its path), decoding of bytes to text (stream pieces are text),
  and the order in which the runtime delivers independent events (every order is a run). Strings are
  lists of 8-bit characters standing for code units. Conversion of an object with its own
  \<open>toString\<close> property to a string is the default one. After a stop, a fetch or read that was aborted
  delivers nothing; a second signal, which would end the process, is taken to change nothing.
\<close>

end
